(* ===== verification/Prelude.thy ===== *)
theory Prelude
  imports Main "HOL-Library.Word" "HOL-Library.Code_Target_Nat"
begin

text \<open>
  Shared vocabulary of the development: the Rust integer types and their checked, saturating and
  narrowing operations, \<open>Result\<close> as a sum, and the ordered containers (\<open>BTreeMap\<close>,
  \<open>BTreeSet\<close>) as strictly ascending lists. The collection \<open>handler\<close> gathers the
  definitions of the small handlers that the component proofs unfold together.
\<close>

named_theorems handler \<open>definitions of small handlers, unfolded together\<close>

section \<open>Integers\<close>

type_synonym u8 = "8 word"
type_synonym u16 = "16 word"
type_synonym u32 = "32 word"
type_synonym u64 = "64 word"
type_synonym u128 = "128 word"

text \<open>A Rust \<open>Result\<close>: \<open>Inl\<close> carries the error, \<open>Inr\<close> the value.\<close>

type_synonym ('e, 'a) result = "'e + 'a"

abbreviation u64_max :: u64 where
  "u64_max \<equiv> - 1"

definition saturating_add :: "u64 \<Rightarrow> u64 \<Rightarrow> u64" where
  "saturating_add a b = (if unat a + unat b < 2 ^ 64 then a + b else u64_max)"

definition checked_add :: "u64 \<Rightarrow> u64 \<Rightarrow> u64 option" where
  "checked_add a b = (if unat a + unat b < 2 ^ 64 then Some (a + b) else None)"

definition checked_sub :: "u64 \<Rightarrow> u64 \<Rightarrow> u64 option" where
  "checked_sub a b = (if b \<le> a then Some (a - b) else None)"

text \<open>\<open>uN::try_from\<close> of a wider unsigned integer.\<close>

definition narrow :: "'a::len word \<Rightarrow> 'b::len word option" where
  "narrow x = (if unat x < 2 ^ LENGTH('b) then Some (ucast x) else None)"

section \<open>Ordered containers\<close>

text \<open>
  \<open>BTreeMap\<close> is an association list with strictly ascending keys, so iteration order is the
  list's order.
\<close>

type_synonym ('k, 'v) btree_map = "('k \<times> 'v) list"

definition ordered_map :: "('k::linorder, 'v) btree_map \<Rightarrow> bool" where
  "ordered_map m \<longleftrightarrow> sorted_wrt (<) (map fst m)"

fun bt_insert :: "'k::linorder \<Rightarrow> 'v \<Rightarrow> ('k, 'v) btree_map \<Rightarrow> ('k, 'v) btree_map" where
  "bt_insert k v [] = [(k, v)]"
| "bt_insert k v ((k', v') # m) =
     (if k < k' then (k, v) # (k', v') # m
      else if k = k' then (k, v) # m
      else (k', v') # bt_insert k v m)"

definition bt_get :: "('k, 'v) btree_map \<Rightarrow> 'k \<Rightarrow> 'v option" where
  "bt_get m k = map_of m k"

definition bt_remove :: "'k \<Rightarrow> ('k, 'v) btree_map \<Rightarrow> ('k, 'v) btree_map" where
  "bt_remove k m = filter (\<lambda>(k', _). k' \<noteq> k) m"

definition bt_retain :: "('k \<Rightarrow> 'v \<Rightarrow> bool) \<Rightarrow> ('k, 'v) btree_map \<Rightarrow> ('k, 'v) btree_map" where
  "bt_retain p m = filter (\<lambda>(k, v). p k v) m"

definition bt_values :: "('k, 'v) btree_map \<Rightarrow> 'v list" where
  "bt_values m = map snd m"

text \<open>\<open>BTreeSet\<close> is a strictly ascending list.\<close>

type_synonym 'a btree_set = "'a list"

definition ordered_set :: "'a::linorder btree_set \<Rightarrow> bool" where
  "ordered_set s \<longleftrightarrow> sorted_wrt (<) s"

fun bs_insert :: "'a::linorder \<Rightarrow> 'a btree_set \<Rightarrow> 'a btree_set" where
  "bs_insert x [] = [x]"
| "bs_insert x (y # ys) =
     (if x < y then x # y # ys else if x = y then y # ys else y # bs_insert x ys)"

definition bs_remove :: "'a \<Rightarrow> 'a btree_set \<Rightarrow> 'a btree_set" where
  "bs_remove x s = filter (\<lambda>y. y \<noteq> x) s"

definition bs_difference :: "'a btree_set \<Rightarrow> 'a btree_set \<Rightarrow> 'a list" where
  "bs_difference s t = filter (\<lambda>x. x \<notin> set t) s"

definition bs_collect :: "'a::linorder list \<Rightarrow> 'a btree_set" where
  "bs_collect xs = fold bs_insert xs []"

section \<open>Integer lemmas\<close>

lemma unat_u64_max [simp]: "unat u64_max = 2 ^ 64 - 1"
  by (simp add: unsigned_minus_1_eq_mask mask_eq_exp_minus_1)

lemma unat_u64_less [simp]: "unat (x :: u64) < 18446744073709551616"
  using unsigned_less [of x] by simp

lemma unat_saturating_add: "unat (saturating_add a b) = min (unat a + unat b) (2 ^ 64 - 1)"
  by (auto simp: saturating_add_def unat_word_ariths)

lemma checked_add_Some: "checked_add a b = Some c \<longleftrightarrow> unat a + unat b < 2 ^ 64 \<and> unat c = unat a + unat b"
  by (auto simp: checked_add_def unat_word_ariths word_unat_eq_iff)

lemma checked_sub_Some: "checked_sub a b = Some c \<longleftrightarrow> b \<le> a \<and> unat c = unat a - unat b"
  by (auto simp: checked_sub_def unat_sub word_unat_eq_iff)

lemma less_next: "x \<noteq> u64_max \<Longrightarrow> x < x + 1"
  for x :: u64
proof -
  assume "x \<noteq> u64_max"
  then have "unat x \<noteq> 2 ^ 64 - 1"
    by (metis unat_u64_max word_unat_eq_iff)
  moreover have "unat x < 2 ^ 64" by simp
  ultimately have "unat x + 1 < 2 ^ 64" by linarith
  then show ?thesis by (simp add: word_less_nat_alt unat_word_ariths)
qed

lemma narrow_Some:
  "(narrow x :: 'b::len word option) = Some y \<longleftrightarrow> unat (x :: 'a::len word) = unat y"
proof -
  have "unat y < 2 ^ LENGTH('b)" by (rule unsigned_less)
  then show ?thesis
    by (auto simp: narrow_def word_unat_eq_iff unsigned_ucast_eq take_bit_nat_eq_self)
qed

lemma narrow_ucast [simp]:
  assumes "LENGTH('b) \<le> LENGTH('a)"
  shows "narrow (ucast (x :: 'b::len word) :: 'a::len word) = Some x"
proof -
  have "unat x < 2 ^ LENGTH('a)"
    using unsigned_less [of x] assms by (meson le_trans not_le one_le_numeral power_increasing)
  then have "unat (ucast x :: 'a word) = unat x"
    by (simp add: unsigned_ucast_eq take_bit_nat_eq_self)
  then show ?thesis by (simp add: narrow_Some)
qed

lemma narrow_None: "(narrow x :: 'b::len word option) = None \<longleftrightarrow> 2 ^ LENGTH('b) \<le> unat x"
  by (auto simp: narrow_def)

section \<open>Ordered container lemmas\<close>

lemma ordered_map_Nil [simp]: "ordered_map []"
  by (simp add: ordered_map_def)

lemma bt_get_Nil [simp]: "bt_get [] k = None"
  by (simp add: bt_get_def)

lemma bt_get_insert [simp]: "bt_get (bt_insert k v m) k' = (if k' = k then Some v else bt_get m k')"
  by (induction k v m rule: bt_insert.induct) (auto simp: bt_get_def)

lemma bt_get_remove [simp]: "bt_get (bt_remove k m) k' = (if k' = k then None else bt_get m k')"
  by (induction m) (auto simp: bt_get_def bt_remove_def)

lemma keys_bt_insert [simp]: "fst ` set (bt_insert k v m) = insert k (fst ` set m)"
  by (induction k v m rule: bt_insert.induct) auto

lemma keys_bt_remove [simp]: "fst ` set (bt_remove k m) = fst ` set m - {k}"
  by (force simp: bt_remove_def)

lemma bt_get_None_iff: "bt_get m k = None \<longleftrightarrow> k \<notin> fst ` set m"
  by (simp add: bt_get_def map_of_eq_None_iff)

lemma ordered_bt_insert [intro]: "ordered_map m \<Longrightarrow> ordered_map (bt_insert k v m)"
proof (induction m)
  case Nil
  then show ?case by (simp add: ordered_map_def)
next
  case (Cons e m)
  obtain k' v' where e: "e = (k', v')" by fastforce
  have "set (map fst (bt_insert k v m)) = insert k (fst ` set m)"
    by simp
  with Cons e show ?case
    by (auto simp: ordered_map_def)
qed

lemma ordered_map_filter [intro]: "ordered_map m \<Longrightarrow> ordered_map (filter p m)"
  by (induction m) (auto simp: ordered_map_def)

lemma ordered_bt_remove [intro]: "ordered_map m \<Longrightarrow> ordered_map (bt_remove k m)"
  by (auto simp: bt_remove_def)

lemma ordered_bt_retain [intro]: "ordered_map m \<Longrightarrow> ordered_map (bt_retain p m)"
  by (auto simp: bt_retain_def)

lemma ordered_map_distinct: "ordered_map m \<Longrightarrow> distinct (map fst m)"
  by (simp add: ordered_map_def strict_sorted_iff)

lemma bt_get_Some_iff: "ordered_map m \<Longrightarrow> bt_get m k = Some v \<longleftrightarrow> (k, v) \<in> set m"
  by (simp add: bt_get_def ordered_map_distinct)

lemma bt_get_retain:
  "ordered_map m \<Longrightarrow>
   bt_get (bt_retain p m) k = (case bt_get m k of None \<Rightarrow> None | Some v \<Rightarrow> if p k v then Some v else None)"
  by (induction m) (auto simp: ordered_map_def bt_get_def bt_retain_def map_of_eq_None_iff split: option.splits)

lemma bt_insert_above: "(\<And>k'. k' \<in> fst ` set m \<Longrightarrow> k' < k) \<Longrightarrow> bt_insert k v m = m @ [(k, v)]"
proof (induction m)
  case Nil
  then show ?case by simp
next
  case (Cons e m)
  obtain k' v' where e: "e = (k', v')" by fastforce
  from Cons.prems e have "k' < k" by simp
  moreover from Cons.prems have "bt_insert k v m = m @ [(k, v)]" by (intro Cons.IH) simp
  ultimately show ?case using e by auto
qed

lemma ordered_set_Nil [simp]: "ordered_set []"
  by (simp add: ordered_set_def)

lemma set_bs_insert [simp]: "set (bs_insert x s) = insert x (set s)"
  by (induction s) auto

lemma set_bs_remove [simp]: "set (bs_remove x s) = set s - {x}"
  by (auto simp: bs_remove_def)

lemma set_bs_difference [simp]: "set (bs_difference s t) = set s - set t"
  by (auto simp: bs_difference_def)

lemma ordered_bs_insert [intro]: "ordered_set s \<Longrightarrow> ordered_set (bs_insert x s)"
  by (induction s) (auto simp: ordered_set_def)

lemma ordered_set_filter: "ordered_set s \<Longrightarrow> ordered_set (filter p s)"
  by (induction s) (auto simp: ordered_set_def)

lemma ordered_bs_remove [intro]: "ordered_set s \<Longrightarrow> ordered_set (bs_remove x s)"
  by (simp add: bs_remove_def ordered_set_filter)

lemma ordered_bs_difference [intro]: "ordered_set s \<Longrightarrow> ordered_set (bs_difference s t)"
  by (simp add: bs_difference_def ordered_set_filter)

lemma fold_bs_insert:
  "set (fold bs_insert xs s) = set xs \<union> set s" "ordered_set s \<Longrightarrow> ordered_set (fold bs_insert xs s)"
  by (induction xs arbitrary: s) auto

lemma set_bs_collect [simp]: "set (bs_collect xs) = set xs"
  by (simp add: bs_collect_def fold_bs_insert)

lemma ordered_bs_collect [simp]: "ordered_set (bs_collect xs)"
  by (simp add: bs_collect_def fold_bs_insert)

lemma ordered_set_unique: "ordered_set s \<Longrightarrow> ordered_set t \<Longrightarrow> set s = set t \<Longrightarrow> s = t"
  unfolding ordered_set_def by (rule strict_sorted_equal)

section \<open>Searching lists\<close>

lemma find_Some_in: "find p xs = Some x \<Longrightarrow> x \<in> set xs \<and> p x"
  by (auto simp: find_Some_iff)

lemma find_None_all: "find p xs = None \<longleftrightarrow> (\<forall>x\<in>set xs. \<not> p x)"
  by (auto simp: find_None_iff)

end
