(* ===== verification/Id_Tables.thy ===== *)
theory Id_Tables
  imports Prelude
begin

text \<open>
  The contract the breakpoint manager and the checkpoint table share: a table that hands out
  \<open>u64\<close> ids from a counter, looks entries up by id and drops them. The locale \<open>id_table\<close> states
  it; the lemmas proved once inside it are that a fresh id is free, and that over any history of
  insertions and removals the ids are handed out strictly ascending, so no id is ever reused.
\<close>

datatype 'v table_op = Alloc 'v | Drop u64

text \<open>A history of operations: the table it leaves and the ids it handed out, in order.\<close>

fun run_table ::
  "('t \<Rightarrow> 'v \<Rightarrow> 't \<times> u64) \<Rightarrow> ('t \<Rightarrow> u64 \<Rightarrow> 't \<times> bool) \<Rightarrow> 'v table_op list \<Rightarrow> 't \<Rightarrow> 't \<times> u64 list" where
  "run_table alloc drp [] t = (t, [])"
| "run_table alloc drp (Alloc v # ops) t =
     (let (t1, i) = alloc t v; (t2, ids) = run_table alloc drp ops t1 in (t2, i # ids))"
| "run_table alloc drp (Drop i # ops) t = run_table alloc drp ops (fst (drp t i))"

locale id_table =
  fixes alloc :: "'t \<Rightarrow> 'v \<Rightarrow> 't \<times> u64"
    and lookup :: "'t \<Rightarrow> u64 \<Rightarrow> 'w option"
    and drp :: "'t \<Rightarrow> u64 \<Rightarrow> 't \<times> bool"
    and counter :: "'t \<Rightarrow> u64"
    and inv :: "'t \<Rightarrow> bool"
    and stored :: "u64 \<Rightarrow> 'v \<Rightarrow> 'w"
  assumes alloc_id: "snd (alloc t v) = counter t"
    and alloc_counter: "counter (fst (alloc t v)) = counter t + 1"
    and alloc_lookup: "lookup (fst (alloc t v)) i = (if i = counter t then Some (stored i v) else lookup t i)"
    and drop_lookup: "lookup (fst (drp t i)) j = (if j = i then None else lookup t j)"
    and drop_found: "snd (drp t i) \<longleftrightarrow> lookup t i \<noteq> None"
    and drop_counter: "counter (fst (drp t i)) = counter t"
    and inv_below: "inv t \<Longrightarrow> lookup t i \<noteq> None \<Longrightarrow> i < counter t"
    and inv_alloc: "inv t \<Longrightarrow> counter t \<noteq> u64_max \<Longrightarrow> inv (fst (alloc t v))"
    and inv_drop: "inv t \<Longrightarrow> inv (fst (drp t i))"
begin

lemma fresh_free: "inv t \<Longrightarrow> lookup t (counter t) = None"
  using inv_below by fastforce

lemma alloc_finds: "lookup (fst (alloc t v)) (snd (alloc t v)) = Some (stored (snd (alloc t v)) v)"
  by (simp add: alloc_lookup alloc_id)

lemma alloc_keeps: "inv t \<Longrightarrow> lookup t i = Some w \<Longrightarrow> lookup (fst (alloc t v)) i = Some w"
  using fresh_free by (auto simp: alloc_lookup)

lemma drop_after_alloc:
  assumes "inv t"
  shows "lookup (fst (drp (fst (alloc t v)) (snd (alloc t v)))) = lookup t"
  using fresh_free [OF assms] by (auto simp: fun_eq_iff drop_lookup alloc_lookup alloc_id)

lemma run_ascending:
  assumes "inv t" and "unat (counter t) + length ops < 2 ^ 64"
  shows "inv (fst (run_table alloc drp ops t))
    \<and> sorted_wrt (<) (snd (run_table alloc drp ops t))
    \<and> (\<forall>i\<in>set (snd (run_table alloc drp ops t)). counter t \<le> i)"
  using assms
proof (induction ops arbitrary: t)
  case Nil
  then show ?case by simp
next
  case (Cons x ops)
  show ?case
  proof (cases x)
    case (Alloc v)
    obtain t1 i where al: "alloc t v = (t1, i)" by fastforce
    then have i: "i = counter t" and c1: "counter t1 = counter t + 1"
      using alloc_id [of t v] alloc_counter [of t v] by simp_all
    have nz: "counter t \<noteq> u64_max"
      using Cons.prems(2) by (auto dest: arg_cong [where f = unat])
    have next1: "unat (counter t + 1) = unat (counter t) + 1"
      using Cons.prems(2) by (simp add: unat_word_ariths)
    have "inv t1" using inv_alloc [OF Cons.prems(1) nz, of v] al by simp
    moreover have "unat (counter t1) + length ops < 2 ^ 64"
      using Cons.prems(2) c1 next1 by simp
    ultimately have IH: "inv (fst (run_table alloc drp ops t1))"
      "sorted_wrt (<) (snd (run_table alloc drp ops t1))"
      "\<forall>j\<in>set (snd (run_table alloc drp ops t1)). counter t1 \<le> j"
      using Cons.IH by blast+
    have "counter t < counter t1" using c1 next1 by (simp add: word_less_nat_alt)
    with IH al i Alloc show ?thesis by (auto simp: split_beta)
  next
    case (Drop i)
    with Cons.prems Cons.IH [of "fst (drp t i)"] inv_drop [of t i] show ?thesis
      by (simp add: drop_counter)
  qed
qed

lemma run_keeps:
  assumes "inv t" and "lookup t i = Some w" and "Drop i \<notin> set ops" and "unat (counter t) + length ops < 2 ^ 64"
  shows "lookup (fst (run_table alloc drp ops t)) i = Some w"
  using assms
proof (induction ops arbitrary: t)
  case Nil
  then show ?case by simp
next
  case (Cons x ops)
  show ?case
  proof (cases x)
    case (Alloc v)
    have nz: "counter t \<noteq> u64_max"
      using Cons.prems(4) by (auto dest: arg_cong [where f = unat])
    have "unat (counter (fst (alloc t v))) + length ops < 2 ^ 64"
      using Cons.prems(4) by (simp add: alloc_counter unat_word_ariths)
    with Cons inv_alloc [OF Cons.prems(1) nz, of v] alloc_keeps [OF Cons.prems(1,2), of v] Alloc show ?thesis
      by (simp add: split_beta)
  next
    case (Drop j)
    with Cons inv_drop [OF Cons.prems(1), of j] show ?thesis
      by (simp add: drop_counter drop_lookup)
  qed
qed

end

text \<open>The first element of an ascending list that satisfies a test is the least such element.\<close>

lemma find_least:
  fixes f :: "'a \<Rightarrow> 'k::linorder"
  assumes "sorted_wrt (<) (map f xs)"
  shows "find p xs = Some x \<longleftrightarrow> x \<in> set xs \<and> p x \<and> (\<forall>y\<in>set xs. p y \<longrightarrow> f x \<le> f y)"
  using assms
proof (induction xs)
  case (Cons y ys)
  show ?case
  proof (cases "p y")
    case True
    with Cons.prems show ?thesis by (auto simp: less_imp_le dest: leD)
  next
    case False
    with Cons show ?thesis by auto
  qed
qed simp

end
