(* ===== verification/Bytes.thy ===== *)
theory Bytes
  imports Prelude
begin

text \<open>
  Byte strings: Rust's \<open>to_le_bytes\<close>/\<open>from_le_bytes\<close>, \<open>chunks\<close> and bounded slicing, and
  the interface of an encoding that decodes back. The locale \<open>codec\<close> is the round-trip
  contract, \<open>fixed_codec\<close> the contract of an encoding of constant width; both are interpreted
  on the little-endian integers here and on the hexadecimal texts in the packet theory.
\<close>

section \<open>Definitions\<close>

fun le_bytes :: "nat \<Rightarrow> nat \<Rightarrow> u8 list" where
  "le_bytes 0 x = []"
| "le_bytes (Suc n) x = word_of_nat (x mod 256) # le_bytes n (x div 256)"

fun le_value :: "u8 list \<Rightarrow> nat" where
  "le_value [] = 0"
| "le_value (b # bs) = unat b + 256 * le_value bs"

definition to_le_bytes :: "'a::len word \<Rightarrow> u8 list" where
  "to_le_bytes w = le_bytes (LENGTH('a) div 8) (unat w)"

text \<open>\<open>slice.try_into()\<close> to a fixed array followed by \<open>from_le_bytes\<close>.\<close>

definition from_le_bytes :: "u8 list \<Rightarrow> 'a::len word option" where
  "from_le_bytes bs = (if length bs = LENGTH('a) div 8 then Some (word_of_nat (le_value bs)) else None)"

text \<open>\<open>bytes.get(i..j)\<close>: \<open>None\<close> out of range.\<close>

definition get_range :: "'a list \<Rightarrow> nat \<Rightarrow> nat \<Rightarrow> 'a list option" where
  "get_range xs i j =
     (if i \<le> j \<and> j \<le> length xs then Some (take (j - i) (drop i xs)) else None)"

text \<open>\<open>slice.chunks(n)\<close>, for positive \<open>n\<close>.\<close>

function chunks :: "nat \<Rightarrow> 'a list \<Rightarrow> 'a list list" where
  "chunks n xs = (if n = 0 \<or> xs = [] then [] else take n xs # chunks n (drop n xs))"
  by pat_completeness auto
termination
  by (relation "measure (\<lambda>(n, xs). length xs)") auto

declare chunks.simps [simp del]

text \<open>
  \<open>buf[..n].copy_from_slice(&src[..n])\<close> with \<open>n = min(buf.len(), src.len())\<close>: the updated
  buffer and the number of bytes written.
\<close>

definition copy_into :: "'a list \<Rightarrow> 'a list \<Rightarrow> 'a list \<times> nat" where
  "copy_into buf src = (let n = min (length buf) (length src) in (take n src @ drop n buf, n))"

section \<open>Encodings\<close>

locale codec =
  fixes encode :: "'a \<Rightarrow> 'b"
    and decode :: "'b \<Rightarrow> 'a option"
  assumes decode_encode: "decode (encode x) = Some x"
begin

lemma encode_eq_iff: "encode x = encode y \<longleftrightarrow> x = y"
  by (metis decode_encode option.inject)

lemma decode_encode_Some: "decode (encode x) = Some y \<longleftrightarrow> x = y"
  by (simp add: decode_encode)

end

locale fixed_codec = codec encode decode
  for encode :: "'a \<Rightarrow> 'c list" and decode :: "'c list \<Rightarrow> 'a option" +
  fixes width :: nat
  assumes width_pos: "0 < width"
    and length_encode: "length (encode x) = width"
begin

lemma chunks_encode: "chunks width (concat (map encode xs)) = map encode xs"
proof (induction xs)
  case Nil
  then show ?case by (simp add: chunks.simps)
next
  case (Cons x xs)
  have "encode x \<noteq> []" using length_encode [of x] width_pos by auto
  with Cons show ?case
    using width_pos length_encode [of x] by (subst chunks.simps) simp
qed

lemma decode_stream: "map decode (chunks width (concat (map encode xs))) = map Some xs"
  by (simp add: chunks_encode decode_encode o_def)

lemma length_stream: "length (concat (map encode xs)) = width * length xs"
  by (induction xs) (simp_all add: length_encode)

lemma stream_eq_iff: "concat (map encode xs) = concat (map encode ys) \<longleftrightarrow> xs = ys"
proof
  assume "concat (map encode xs) = concat (map encode ys)"
  then have "map Some xs = map Some ys" by (metis decode_stream)
  then show "xs = ys" by (metis list.inj_map_strong option.inject)
qed simp

end

section \<open>Little-endian integers\<close>

lemma length_le_bytes [simp]: "length (le_bytes n x) = n"
  by (induction n arbitrary: x) auto

lemma le_value_le_bytes: "le_value (le_bytes n x) = x mod 256 ^ n"
proof (induction n arbitrary: x)
  case 0
  then show ?case by simp
next
  case (Suc n)
  have "unat (word_of_nat (x mod 256) :: u8) = x mod 256"
    by (simp add: unsigned_of_nat take_bit_eq_mod)
  with Suc show ?case
    by (simp add: mod_mult2_eq)
qed

lemma le_value_bound: "le_value bs < 256 ^ length bs"
proof (induction bs)
  case Nil
  then show ?case by simp
next
  case (Cons b bs)
  have "unat b < 256" using unsigned_less [of b] by simp
  with Cons have "unat b + 256 * le_value bs < 256 * (Suc (le_value bs))" by simp
  also have "\<dots> \<le> 256 * 256 ^ length bs" using Cons by (intro mult_le_mono) auto
  finally show ?case by simp
qed

lemma le_bytes_le_value: "le_bytes (length bs) (le_value bs) = bs"
proof (induction bs)
  case Nil
  then show ?case by simp
next
  case (Cons b bs)
  have "unat b < 256" using unsigned_less [of b] by simp
  then have "(unat b + 256 * le_value bs) mod 256 = unat b"
    and "(unat b + 256 * le_value bs) div 256 = le_value bs" by simp_all
  with Cons show ?case by simp
qed

lemma length_to_le_bytes [simp]: "length (to_le_bytes (w :: 'a::len word)) = LENGTH('a) div 8"
  by (simp add: to_le_bytes_def)

lemma from_to_le_bytes:
  assumes "LENGTH('a::len) = 8 * n"
  shows "from_le_bytes (to_le_bytes (w :: 'a word)) = Some w"
proof -
  have "unat w < 256 ^ n"
    using unsigned_less [of w] assms by (simp add: power_mult)
  then show ?thesis
    using assms by (simp add: from_le_bytes_def to_le_bytes_def le_value_le_bytes)
qed

interpretation le16: fixed_codec "to_le_bytes :: u16 \<Rightarrow> u8 list" from_le_bytes 2
  by unfold_locales (simp_all add: from_to_le_bytes [of 2])

interpretation le32: fixed_codec "to_le_bytes :: u32 \<Rightarrow> u8 list" from_le_bytes 4
  by unfold_locales (simp_all add: from_to_le_bytes [of 4])

interpretation le64: fixed_codec "to_le_bytes :: u64 \<Rightarrow> u8 list" from_le_bytes 8
  by unfold_locales (simp_all add: from_to_le_bytes [of 8])

section \<open>Slices\<close>

lemma get_range_Some: "get_range xs i j = Some ys \<Longrightarrow> length ys = j - i \<and> j \<le> length xs"
  by (auto simp: get_range_def split: if_splits)

lemma length_copy_into [simp]: "length (fst (copy_into buf src)) = length buf"
  by (simp add: copy_into_def Let_def)

lemma copy_into_prefix: "take (snd (copy_into buf src)) (fst (copy_into buf src)) = take (length buf) src"
  by (simp add: copy_into_def Let_def min_def)

lemma copy_into_frame: "drop (snd (copy_into buf src)) (fst (copy_into buf src)) = drop (length src) buf"
  by (simp add: copy_into_def Let_def min_def)

lemma length_chunks_elem: "c \<in> set (chunks n xs) \<Longrightarrow> c \<noteq> [] \<and> length c \<le> n"
proof (induction n xs rule: chunks.induct)
  case (1 n xs)
  then show ?case
    by (auto simp: chunks.simps [of n xs] split: if_splits)
qed

lemma chunks_Nil [simp]: "chunks n [] = []"
  by (simp add: chunks.simps)

lemma concat_chunks: "0 < n \<Longrightarrow> concat (chunks n xs) = xs"
proof (induction n xs rule: chunks.induct)
  case (1 n xs)
  then show ?case
    by (cases "xs = []") (simp_all add: chunks.simps [of n xs])
qed

end
