(* ===== verification/Text.thy ===== *)
theory Text
  imports Bytes
begin

text \<open>
  Rust's text operations, on strings of UTF-8 bytes (\<open>char\<close> is one byte): integer formatting
  and parsing, splitting, trimming, and the lossy and strict UTF-8 conversions.
\<close>

section \<open>Formatting integers\<close>

function radix_digits :: "nat \<Rightarrow> nat \<Rightarrow> nat list" where
  "radix_digits r n = (if r \<le> 1 \<or> n < r then [n] else radix_digits r (n div r) @ [n mod r])"
  by pat_completeness auto
termination
  by (relation "measure (\<lambda>(r, n). n)") auto

declare radix_digits.simps [simp del]

definition lower_digit :: "nat \<Rightarrow> char" where
  "lower_digit d = (if d < 16 then ''0123456789abcdef'' ! d else CHR ''?'')"

definition upper_digit :: "nat \<Rightarrow> char" where
  "upper_digit d = (if d < 16 then ''0123456789ABCDEF'' ! d else CHR ''?'')"

text \<open>The format specifications \<open>{}\<close>, \<open>{:x}\<close> and \<open>{:X}\<close> of an unsigned integer.\<close>

definition fmt_dec :: "nat \<Rightarrow> string" where
  "fmt_dec n = map lower_digit (radix_digits 10 n)"

definition fmt_hex :: "nat \<Rightarrow> string" where
  "fmt_hex n = map lower_digit (radix_digits 16 n)"

definition fmt_HEX :: "nat \<Rightarrow> string" where
  "fmt_HEX n = map upper_digit (radix_digits 16 n)"

text \<open>Left padding to a minimum width (\<open>{:>w}\<close>, \<open>{:0w}\<close>).\<close>

definition pad_left :: "nat \<Rightarrow> char \<Rightarrow> string \<Rightarrow> string" where
  "pad_left w c s = replicate (w - length s) c @ s"

section \<open>Parsing integers\<close>

definition to_digit :: "nat \<Rightarrow> char \<Rightarrow> nat option" where
  "to_digit r c =
     (let v = of_char c;
          d = (if 48 \<le> v \<and> v \<le> 57 then v - 48
               else if 97 \<le> v \<and> v \<le> 122 then v - 87
               else if 65 \<le> v \<and> v \<le> 90 then v - 55
               else r)
      in if d < r then Some d else None)"

fun parse_digits :: "nat \<Rightarrow> nat \<Rightarrow> string \<Rightarrow> nat option" where
  "parse_digits r acc [] = Some acc"
| "parse_digits r acc (c # cs) =
     (case to_digit r c of None \<Rightarrow> None | Some d \<Rightarrow> parse_digits r (acc * r + d) cs)"

text \<open>
  \<open>u64::from_str_radix\<close> (and \<open>str::parse\<close> with radix 10): one optional plus sign, at least one
  digit, and a value that fits.
\<close>

definition from_str_radix :: "nat \<Rightarrow> string \<Rightarrow> u64 option" where
  "from_str_radix r s =
     (let t = (case s of [] \<Rightarrow> [] | c # cs \<Rightarrow> if c = CHR ''+'' then cs else s)
      in if t = [] then None
         else case parse_digits r 0 t of
           None \<Rightarrow> None
         | Some n \<Rightarrow> if n < 2 ^ 64 then Some (word_of_nat n) else None)"

section \<open>Splitting\<close>

fun strip_prefix :: "'a list \<Rightarrow> 'a list \<Rightarrow> 'a list option" where
  "strip_prefix [] s = Some s"
| "strip_prefix (p # ps) [] = None"
| "strip_prefix (p # ps) (c # s) = (if p = c then strip_prefix ps s else None)"

definition starts_with :: "'a list \<Rightarrow> 'a list \<Rightarrow> bool" where
  "starts_with p s \<longleftrightarrow> strip_prefix p s \<noteq> None"

definition split_once :: "'a \<Rightarrow> 'a list \<Rightarrow> ('a list \<times> 'a list) option" where
  "split_once c s = (case dropWhile (\<lambda>x. x \<noteq> c) s of [] \<Rightarrow> None | _ # rest \<Rightarrow> Some (takeWhile (\<lambda>x. x \<noteq> c) s, rest))"

text \<open>\<open>s.split(c)\<close>: always at least one piece.\<close>

fun split_on :: "'a \<Rightarrow> 'a list \<Rightarrow> 'a list list" where
  "split_on c [] = [[]]"
| "split_on c (x # xs) =
     (if x = c then [] # split_on c xs
      else case split_on c xs of [] \<Rightarrow> [[x]] | p # ps \<Rightarrow> (x # p) # ps)"

section \<open>UTF-8\<close>

definition byte_at :: "string \<Rightarrow> nat \<Rightarrow> nat" where
  "byte_at s i = (if i < length s then of_char (s ! i) else 0)"

definition is_cont :: "nat \<Rightarrow> bool" where
  "is_cont b \<longleftrightarrow> 128 \<le> b \<and> b \<le> 191"

text \<open>
  One step of the decoder at the front of a non-empty byte string: whether the sequence there is
  well formed, and how many bytes it takes (the well-formed sequence, or the maximal ill-formed
  prefix that one replacement character stands for).
\<close>

definition utf8_step :: "string \<Rightarrow> bool \<times> nat" where
  "utf8_step s =
     (let b = byte_at s 0; b1 = byte_at s 1; b2 = byte_at s 2; b3 = byte_at s 3 in
      if b < 128 then (True, 1)
      else if 194 \<le> b \<and> b \<le> 223 then (if is_cont b1 then (True, 2) else (False, 1))
      else if 224 \<le> b \<and> b \<le> 239 then
        (if (b = 224 \<and> 160 \<le> b1 \<and> b1 \<le> 191) \<or> (b = 237 \<and> 128 \<le> b1 \<and> b1 \<le> 159)
            \<or> (b \<noteq> 224 \<and> b \<noteq> 237 \<and> is_cont b1)
         then (if is_cont b2 then (True, 3) else (False, 2)) else (False, 1))
      else if 240 \<le> b \<and> b \<le> 244 then
        (if (b = 240 \<and> 144 \<le> b1 \<and> b1 \<le> 191) \<or> (b = 244 \<and> 128 \<le> b1 \<and> b1 \<le> 143)
            \<or> (b \<noteq> 240 \<and> b \<noteq> 244 \<and> is_cont b1)
         then (if is_cont b2 then (if is_cont b3 then (True, 4) else (False, 3)) else (False, 2))
         else (False, 1))
      else (False, 1))"

lemma utf8_step_pos: "0 < snd (utf8_step s)"
  by (simp add: utf8_step_def Let_def)

text \<open>The sequences of a byte string, each with its validity.\<close>

function utf8_pieces :: "string \<Rightarrow> (bool \<times> string) list" where
  "utf8_pieces s =
     (if s = [] then []
      else (fst (utf8_step s), take (snd (utf8_step s)) s) # utf8_pieces (drop (snd (utf8_step s)) s))"
  by pat_completeness auto
termination
  by (relation "measure length") (auto simp: utf8_step_pos)

declare utf8_pieces.simps [simp del]

text \<open>U+FFFD.\<close>

definition replacement :: string where
  "replacement = map char_of [239 :: nat, 191, 189]"

definition from_utf8_lossy :: "string \<Rightarrow> string" where
  "from_utf8_lossy s = concat (map (\<lambda>(ok, p). if ok then p else replacement) (utf8_pieces s))"

definition from_utf8 :: "string \<Rightarrow> string option" where
  "from_utf8 s = (if list_all fst (utf8_pieces s) then Some s else None)"

text \<open>The encodings of the characters with the Unicode property White_Space.\<close>

definition whitespace :: "string list" where
  "whitespace = map (map (char_of :: nat \<Rightarrow> char))
     ([[9], [10], [11], [12], [13], [32], [194, 133], [194, 160], [225, 154, 128]]
      @ map (\<lambda>i. [226, 128, 128 + i]) [0..<11]
      @ [[226, 128, 168], [226, 128, 169], [226, 128, 175], [226, 129, 159], [227, 128, 128]])"

definition is_ws :: "string \<Rightarrow> bool" where
  "is_ws c \<longleftrightarrow> c \<in> set whitespace"

definition utf8_chars :: "string \<Rightarrow> string list" where
  "utf8_chars s = map snd (utf8_pieces s)"

definition trim :: "string \<Rightarrow> string" where
  "trim s = concat (rev (dropWhile is_ws (rev (dropWhile is_ws (utf8_chars s)))))"

fun words_of :: "string list \<Rightarrow> string list" where
  "words_of [] = [[]]"
| "words_of (c # cs) =
     (if is_ws c then [] # words_of cs
      else case words_of cs of [] \<Rightarrow> [c] | w # ws \<Rightarrow> (c @ w) # ws)"

definition split_whitespace :: "string \<Rightarrow> string list" where
  "split_whitespace s = filter (\<lambda>w. w \<noteq> []) (words_of (utf8_chars s))"

text \<open>\<open>as_bytes\<close> and its inverse.\<close>

definition as_bytes :: "string \<Rightarrow> u8 list" where
  "as_bytes s = map (\<lambda>c. word_of_nat (of_char c)) s"

definition of_bytes :: "u8 list \<Rightarrow> string" where
  "of_bytes bs = map (\<lambda>b. char_of (unat b)) bs"

section \<open>Digits\<close>

lemma of_bytes_as_bytes [simp]: "of_bytes (as_bytes s) = s"
proof -
  have "char_of (unat (word_of_nat (of_char c) :: u8)) = c" for c
    by (simp add: unsigned_of_nat take_bit_eq_mod)
  then show ?thesis by (simp add: of_bytes_def as_bytes_def o_def)
qed

lemma as_bytes_of_bytes [simp]: "as_bytes (of_bytes bs) = bs"
proof -
  have "word_of_nat (of_char (char_of (unat b))) = (b :: u8)" for b
    using unsigned_less [of b, where ?'a = nat] by simp
  then show ?thesis by (simp add: of_bytes_def as_bytes_def o_def)
qed

lemma radix_digits_nonempty [simp]: "radix_digits r n \<noteq> []"
  by (subst radix_digits.simps) simp

lemma radix_digits_bound: "1 < r \<Longrightarrow> d \<in> set (radix_digits r n) \<Longrightarrow> d < r"
proof (induction r n rule: radix_digits.induct)
  case (1 r n)
  then show ?case by (auto simp: radix_digits.simps [of r n] split: if_splits)
qed

lemma digit_cases:
  "d < 16 \<Longrightarrow> d \<in> {0, 1, 2, 3, 4, 5, 6, 7, 8, 9, 10, 11, 12, 13, 14, 15 :: nat}"
  unfolding insert_iff empty_iff by presburger

lemma to_digit_lower: "d < r \<Longrightarrow> r \<le> 16 \<Longrightarrow> to_digit r (lower_digit d) = Some d"
  using digit_cases [of d] by (auto simp: to_digit_def lower_digit_def)

lemma to_digit_upper: "d < r \<Longrightarrow> r \<le> 16 \<Longrightarrow> to_digit r (upper_digit d) = Some d"
  using digit_cases [of d] by (auto simp: to_digit_def upper_digit_def)

lemma parse_digits_append:
  "parse_digits r acc (s @ t) = (case parse_digits r acc s of None \<Rightarrow> None | Some n \<Rightarrow> parse_digits r n t)"
  by (induction r acc s rule: parse_digits.induct) (auto split: option.splits)

lemma parse_radix_digits:
  assumes "1 < r" and "\<And>d. d < r \<Longrightarrow> to_digit r (f d) = Some d"
  shows "parse_digits r 0 (map f (radix_digits r n)) = Some n"
  using assms
proof (induction r n rule: radix_digits.induct)
  case (1 r n)
  show ?case
  proof (cases "n < r")
    case True
    with 1 show ?thesis by (simp add: radix_digits.simps [of r n])
  next
    case False
    with 1 have "parse_digits r 0 (map f (radix_digits r (n div r))) = Some (n div r)" by simp
    with 1 False show ?thesis
      by (simp add: radix_digits.simps [of r n] parse_digits_append)
  qed
qed

lemma digit_not_plus:
  "d < 16 \<Longrightarrow> lower_digit d \<noteq> CHR ''+''" "d < 16 \<Longrightarrow> upper_digit d \<noteq> CHR ''+''"
  using digit_cases [of d] by (auto simp: lower_digit_def upper_digit_def)

lemma from_str_radix_digits:
  assumes "1 < r" and "\<And>d. d < r \<Longrightarrow> to_digit r (f d) = Some d" and "\<And>d. d < r \<Longrightarrow> f d \<noteq> CHR ''+''"
  shows "from_str_radix r (map f (radix_digits r (unat w))) = Some w"
proof -
  obtain d ds where ds: "radix_digits r (unat w) = d # ds"
    using radix_digits_nonempty by (cases "radix_digits r (unat w)") auto
  have "d < r" using radix_digits_bound [OF assms(1), of d "unat w"] ds by simp
  then have "f d \<noteq> CHR ''+''" by (rule assms(3))
  moreover have "parse_digits r 0 (f d # map f ds) = Some (unat w)"
    using parse_radix_digits [OF assms(1,2), of "unat w"] ds by simp
  ultimately show ?thesis
    using ds by (simp add: from_str_radix_def Let_def)
qed

lemma from_str_radix_fmt [simp]:
  "from_str_radix 16 (fmt_hex (unat w)) = Some w"
  "from_str_radix 16 (fmt_HEX (unat w)) = Some w"
  "from_str_radix 10 (fmt_dec (unat w)) = Some w"
  unfolding fmt_hex_def fmt_HEX_def fmt_dec_def
  by (rule from_str_radix_digits; simp add: to_digit_lower to_digit_upper digit_not_plus)+

interpretation dec_text: codec "\<lambda>w :: u64. fmt_dec (unat w)" "from_str_radix 10"
  by unfold_locales simp

interpretation hex_text: codec "\<lambda>w :: u64. fmt_hex (unat w)" "from_str_radix 16"
  by unfold_locales simp

interpretation HEX_text: codec "\<lambda>w :: u64. fmt_HEX (unat w)" "from_str_radix 16"
  by unfold_locales simp

section \<open>Splitting\<close>

lemma strip_prefix_append [simp]: "strip_prefix p (p @ s) = Some s"
  by (induction p) auto

lemma strip_prefix_Some: "strip_prefix p s = Some t \<longleftrightarrow> s = p @ t"
  by (induction p s rule: strip_prefix.induct) auto

lemma split_once_mid: "c \<notin> set a \<Longrightarrow> split_once c (a @ c # b) = Some (a, b)"
proof -
  assume "c \<notin> set a"
  then have "dropWhile (\<lambda>x. x \<noteq> c) (a @ c # b) = c # b" and "takeWhile (\<lambda>x. x \<noteq> c) (a @ c # b) = a"
    by (induction a) auto
  then show ?thesis by (simp add: split_once_def)
qed

lemma split_once_None: "split_once c s = None \<longleftrightarrow> c \<notin> set s"
proof -
  have "dropWhile (\<lambda>x. x \<noteq> c) s = [] \<longleftrightarrow> c \<notin> set s"
    by (induction s) auto
  then show ?thesis
    unfolding split_once_def by (cases "dropWhile (\<lambda>x. x \<noteq> c) s") (simp_all only: list.case, simp_all)
qed

lemma split_on_nonempty [simp]: "split_on c s \<noteq> []"
  by (induction s) (auto split: list.splits)

lemma split_on_absent: "c \<notin> set s \<Longrightarrow> split_on c s = [s]"
  by (induction s) auto

lemma split_on_append: "c \<notin> set a \<Longrightarrow> split_on c (a @ c # b) = a # split_on c b"
  by (induction a) auto

section \<open>ASCII text\<close>

definition ascii_graph :: "char \<Rightarrow> bool" where
  "ascii_graph c \<longleftrightarrow> (33 :: nat) \<le> of_char c \<and> of_char c < (127 :: nat)"

lemma utf8_step_ascii: "(of_char c :: nat) < 128 \<Longrightarrow> utf8_step (c # s) = (True, 1)"
  by (simp add: utf8_step_def byte_at_def Let_def)

lemma utf8_pieces_ascii:
  "(\<And>c. c \<in> set s \<Longrightarrow> (of_char c :: nat) < 128) \<Longrightarrow> utf8_pieces s = map (\<lambda>c. (True, [c])) s"
proof (induction s)
  case Nil
  then show ?case by (simp add: utf8_pieces.simps)
next
  case (Cons c s)
  then have "utf8_step (c # s) = (True, 1)" by (simp add: utf8_step_ascii)
  with Cons show ?case by (subst utf8_pieces.simps) simp
qed

lemma from_utf8_lossy_ascii:
  "(\<And>c. c \<in> set s \<Longrightarrow> (of_char c :: nat) < 128) \<Longrightarrow> from_utf8_lossy s = s"
  by (simp add: from_utf8_lossy_def utf8_pieces_ascii o_def)

lemma from_utf8_ascii:
  "(\<And>c. c \<in> set s \<Longrightarrow> (of_char c :: nat) < 128) \<Longrightarrow> from_utf8 s = Some s"
  by (simp add: from_utf8_def utf8_pieces_ascii list_all_iff)

lemma not_ws_graph: "ascii_graph c \<Longrightarrow> \<not> is_ws [c]"
  by (auto simp: is_ws_def whitespace_def ascii_graph_def upt_rec)

lemma dropWhile_ws_graph:
  "list_all ascii_graph s \<Longrightarrow> dropWhile is_ws (map (\<lambda>c. [c]) s) = map (\<lambda>c. [c]) s"
  by (cases s) (auto simp: not_ws_graph)

lemma trim_graph: "list_all ascii_graph s \<Longrightarrow> trim s = s"
proof -
  assume g: "list_all ascii_graph s"
  then have chars: "utf8_chars s = map (\<lambda>c. [c]) s"
    by (subst utf8_chars_def, subst utf8_pieces_ascii) (auto simp: list_all_iff ascii_graph_def)
  have "dropWhile is_ws (rev (map (\<lambda>c. [c]) s)) = rev (map (\<lambda>c. [c]) s)"
    using dropWhile_ws_graph [of "rev s"] g by (simp add: rev_map)
  then show ?thesis by (simp add: trim_def chars dropWhile_ws_graph [OF g])
qed

lemma graph_digits:
  "d < 16 \<Longrightarrow> ascii_graph (lower_digit d)" "d < 16 \<Longrightarrow> ascii_graph (upper_digit d)"
  using digit_cases [of d] by (auto simp: lower_digit_def upper_digit_def ascii_graph_def)

lemma graph_fmt [simp]:
  "list_all ascii_graph (fmt_hex n)" "list_all ascii_graph (fmt_HEX n)" "list_all ascii_graph (fmt_dec n)"
proof -
  have "d \<in> set (radix_digits 16 n) \<Longrightarrow> d < 16" and "d \<in> set (radix_digits 10 n) \<Longrightarrow> d < 16" for d
    using radix_digits_bound [of 16 d n] radix_digits_bound [of 10 d n] by fastforce+
  then show "list_all ascii_graph (fmt_hex n)" "list_all ascii_graph (fmt_HEX n)"
    "list_all ascii_graph (fmt_dec n)"
    by (auto simp: fmt_hex_def fmt_HEX_def fmt_dec_def list_all_iff graph_digits)
qed

lemma digit_not_char:
  "d < 16 \<Longrightarrow> lower_digit d \<noteq> CHR '':''" "d < 16 \<Longrightarrow> upper_digit d \<noteq> CHR '':''"
  using digit_cases [of d] by (auto simp: lower_digit_def upper_digit_def)

lemma fmt_no_colon [simp]: "CHR '':'' \<notin> set (fmt_HEX n)" "CHR '':'' \<notin> set (fmt_hex n)"
proof -
  have "d < 16" if "d \<in> set (radix_digits 16 n)" for d
    using radix_digits_bound [of 16 d n] that by simp
  then show "CHR '':'' \<notin> set (fmt_HEX n)" "CHR '':'' \<notin> set (fmt_hex n)"
    by (force simp: fmt_HEX_def fmt_hex_def dest: digit_not_char)+
qed

lemma fmt_nonempty [simp]: "fmt_HEX n \<noteq> []" "fmt_hex n \<noteq> []" "fmt_dec n \<noteq> []"
  by (simp_all add: fmt_HEX_def fmt_hex_def fmt_dec_def)

end
