(* ===== verification/Ttd_Types.thy ===== *)
theory Ttd_Types
  imports Text "HOL-Library.Monad_Syntax"
begin

text \<open>
  The value vocabulary of the replay layer (\<open>ttd/types.rs\<close>, \<open>ttd/ffi.rs\<close>, \<open>ttd/error.rs\<close>,
  \<open>target/error.rs\<close>): positions with their lexicographic order, replay results, event and
  access kinds, access masks, the error types, and the register context that crosses the bridge
  as a stream of 81 little-endian words (written by \<open>Cursor::GetAmd64Context\<close>, read by
  \<open>decode_amd64_context\<close>).
\<close>

unbundle bit_operations_syntax

section \<open>Positions\<close>

datatype position = Position (seq_id: u64) (steps: u64)

definition position_new :: "u64 \<Rightarrow> u64 \<Rightarrow> position" where
  "position_new sequence n = Position sequence n"

text \<open>\<open>derive(PartialOrd, Ord)\<close>: the sequence first, then the steps.\<close>

instantiation position :: linorder
begin

definition less_eq_position :: "position \<Rightarrow> position \<Rightarrow> bool" where
  "p \<le> q \<longleftrightarrow> seq_id p < seq_id q \<or> (seq_id p = seq_id q \<and> steps p \<le> steps q)"

definition less_position :: "position \<Rightarrow> position \<Rightarrow> bool" where
  "p < q \<longleftrightarrow> seq_id p < seq_id q \<or> (seq_id p = seq_id q \<and> steps p < steps q)"

instance
proof
  fix p q r :: position
  show "p < q \<longleftrightarrow> p \<le> q \<and> \<not> q \<le> p"
    by (auto simp: less_eq_position_def less_position_def)
  show "p \<le> p"
    by (simp add: less_eq_position_def)
  show "p \<le> q \<Longrightarrow> q \<le> r \<Longrightarrow> p \<le> r"
    by (auto simp: less_eq_position_def)
  show "p \<le> q \<Longrightarrow> q \<le> p \<Longrightarrow> p = q"
    by (auto simp: less_eq_position_def intro: position.expand)
  show "p \<le> q \<or> q \<le> p"
    by (auto simp: less_eq_position_def)
qed

end

text \<open>\<open>Display\<close>: lower-case hexadecimal \<open>sequence:steps\<close>.\<close>

definition position_display :: "position \<Rightarrow> string" where
  "position_display p = fmt_hex (unat (seq_id p)) @ '':'' @ fmt_hex (unat (steps p))"

text \<open>\<open>Ord::clamp\<close>; it panics when \<open>lo > hi\<close>.\<close>

definition clamp :: "position \<Rightarrow> position \<Rightarrow> position \<Rightarrow> position" where
  "clamp p lo hi = (if p < lo then lo else if hi < p then hi else p)"

text \<open>The rank of a position among all positions: a measure for loops that advance.\<close>

definition rank :: "position \<Rightarrow> nat" where
  "rank p = unat (seq_id p) * 2 ^ 64 + unat (steps p)"

section \<open>Records of the bridge\<close>

datatype position_range = PositionRange (Min: position) (Max: position)

datatype thread_info =
  ThreadInfo (UniqueId: u32) (Id: u32) (Lifetime: position_range) (ActiveTime: position_range)

datatype exception_info =
  ExceptionInfo (ex_position: position) (code: u32) (record_address: u64) (program_counter: u64)

datatype active_thread = ActiveThread (at_thread: thread_info) (current_position: position)

datatype memory_range = MemoryRange (mr_address: u64) (mr_size: u64) (mr_sequence: u64)

record replay_outcome =
  ro_stop_reason :: u8
  ro_steps :: u64
  ro_instructions :: u64
  ro_wp_address :: u64
  ro_wp_size :: u64
  ro_wp_access :: u8

datatype replay_module = ReplayModule (rm_name: string) (rm_address: u64) (rm_size: u64)

section \<open>Access masks\<close>

text \<open>\<open>bitflags! DataAccessMask: u8\<close>.\<close>

type_synonym access_mask = u8

definition ACCESS_READ :: access_mask where "ACCESS_READ = 1"
definition ACCESS_WRITE :: access_mask where "ACCESS_WRITE = 2"
definition ACCESS_EXECUTE :: access_mask where "ACCESS_EXECUTE = 4"
definition ACCESS_CODE_FETCH :: access_mask where "ACCESS_CODE_FETCH = 8"
definition ACCESS_OVERWRITE :: access_mask where "ACCESS_OVERWRITE = 16"
definition ACCESS_DATA_MISMATCH :: access_mask where "ACCESS_DATA_MISMATCH = 32"
definition ACCESS_NEW_DATA :: access_mask where "ACCESS_NEW_DATA = 64"
definition ACCESS_REDUNDANT_DATA :: access_mask where "ACCESS_REDUNDANT_DATA = 128"
definition ACCESS_NONE :: access_mask where "ACCESS_NONE = 0"
definition ACCESS_READ_WRITE :: access_mask where "ACCESS_READ_WRITE = ACCESS_READ OR ACCESS_WRITE"

lemmas access_defs = ACCESS_READ_def ACCESS_WRITE_def ACCESS_EXECUTE_def ACCESS_CODE_FETCH_def
  ACCESS_OVERWRITE_def ACCESS_DATA_MISMATCH_def ACCESS_NEW_DATA_def ACCESS_REDUNDANT_DATA_def
  ACCESS_NONE_def ACCESS_READ_WRITE_def

definition intersects :: "access_mask \<Rightarrow> access_mask \<Rightarrow> bool" where
  "intersects a b \<longleftrightarrow> a AND b \<noteq> 0"

definition mask_contains :: "access_mask \<Rightarrow> access_mask \<Rightarrow> bool" where
  "mask_contains a b \<longleftrightarrow> a AND b = b"

text \<open>\<open>EventMask\<close> and \<open>ExceptionMask\<close>, the bits this program passes to the engine.\<close>

definition EVENT_MEMORY_WATCHPOINT :: u32 where "EVENT_MEMORY_WATCHPOINT = 1"
definition EVENT_EXCEPTION :: u32 where "EVENT_EXCEPTION = 4"
definition EXCEPTION_MASK_ALL :: u32 where "EXCEPTION_MASK_ALL = 15"

section \<open>Enumerations\<close>

datatype index_status = IndexLoaded | IndexNotPresent | IndexUnloadable | IndexUnknown

definition index_status_from_u8 :: "u8 \<Rightarrow> index_status" where
  "index_status_from_u8 v =
     (if v = 0 then IndexLoaded else if v = 1 then IndexNotPresent
      else if v = 2 then IndexUnloadable else IndexUnknown)"

datatype event_type =
    EvMemoryWatchpoint | EvPositionWatchpoint | EvException | EvGap | EvThread | EvStepCount
  | EvPosition | EvProcess | EvInterrupted | EvError | EvCount | EvUnknown u8

definition event_type_from_u8 :: "u8 \<Rightarrow> event_type" where
  "event_type_from_u8 v =
     (if v = 0 then EvMemoryWatchpoint else if v = 1 then EvPositionWatchpoint
      else if v = 2 then EvException else if v = 3 then EvGap else if v = 4 then EvThread
      else if v = 5 then EvStepCount else if v = 6 then EvPosition else if v = 7 then EvProcess
      else if v = 8 then EvInterrupted else if v = 9 then EvError else if v = 10 then EvCount
      else EvUnknown v)"

fun event_type_display :: "event_type \<Rightarrow> string" where
  "event_type_display EvMemoryWatchpoint = ''memory watchpoint''"
| "event_type_display EvPositionWatchpoint = ''position watchpoint''"
| "event_type_display EvException = ''exception''"
| "event_type_display EvGap = ''gap''"
| "event_type_display EvThread = ''thread''"
| "event_type_display EvStepCount = ''step count''"
| "event_type_display EvPosition = ''position''"
| "event_type_display EvProcess = ''process''"
| "event_type_display EvInterrupted = ''interrupted''"
| "event_type_display EvError = ''error''"
| "event_type_display EvCount = ''count''"
| "event_type_display (EvUnknown raw) = ''unknown (0x'' @ pad_left 2 (CHR ''0'') (fmt_hex (unat raw)) @ '')''"

datatype data_access_type =
    AtRead | AtWrite | AtExecute | AtCodeFetch | AtOverwrite | AtDataMismatch | AtNewData
  | AtRedundantData | AtUnknown u8

fun access_type_mask :: "data_access_type \<Rightarrow> access_mask" where
  "access_type_mask AtRead = ACCESS_READ"
| "access_type_mask AtWrite = ACCESS_WRITE"
| "access_type_mask AtExecute = ACCESS_EXECUTE"
| "access_type_mask AtCodeFetch = ACCESS_CODE_FETCH"
| "access_type_mask AtOverwrite = ACCESS_OVERWRITE"
| "access_type_mask AtDataMismatch = ACCESS_DATA_MISMATCH"
| "access_type_mask AtNewData = ACCESS_NEW_DATA"
| "access_type_mask AtRedundantData = ACCESS_REDUNDANT_DATA"
| "access_type_mask (AtUnknown _) = ACCESS_NONE"

definition access_type_from_u8 :: "u8 \<Rightarrow> data_access_type" where
  "access_type_from_u8 v =
     (if v = 0 then AtRead else if v = 1 then AtWrite else if v = 2 then AtExecute
      else if v = 3 then AtCodeFetch else if v = 4 then AtOverwrite else if v = 5 then AtDataMismatch
      else if v = 6 then AtNewData else if v = 7 then AtRedundantData else AtUnknown v)"

record replay_result =
  stop_event :: event_type
  steps_executed :: u64
  instructions_executed :: u64
  wp_address :: u64
  wp_size :: u64
  wp_access_type :: data_access_type

definition replay_result_from :: "replay_outcome \<Rightarrow> replay_result" where
  "replay_result_from v =
     \<lparr>stop_event = event_type_from_u8 (ro_stop_reason v), steps_executed = ro_steps v,
      instructions_executed = ro_instructions v, wp_address = ro_wp_address v,
      wp_size = ro_wp_size v, wp_access_type = access_type_from_u8 (ro_wp_access v)\<rparr>"

section \<open>Errors\<close>

datatype ttd_error =
    TraceNotFound string
  | TraceLoadFailed string
  | IndexBuildFailed
  | IndexFileAccess string string
  | CursorCreationFailed
  | Ffi string
  | WatchpointError string u64 u64 access_mask
  | InvalidWatchpoint u64 u64
  | ReplayFailed
  | UnsupportedEvent event_type
  | UnsupportedArchitecture

datatype debug_error =
    ReplayAlreadyRunning
  | Ttd ttd_error
  | InvalidCommand string
  | BreakpointRegister u64 ttd_error

section \<open>Register context\<close>

datatype m128 = M128 (Low: u64) (High: u64)

record xmm_save_area =
  ControlWord :: u16
  StatusWord :: u16
  TagWord :: u8
  ErrorOpcode :: u16
  ErrorOffset :: u32
  ErrorSelector :: u16
  DataOffset :: u32
  DataSelector :: u16
  MxCsr :: u32
  FloatRegisters :: "m128 list"
  XmmRegisters :: "m128 list"

record x64_regs =
  Rax :: u64
  Rbx :: u64
  Rcx :: u64
  Rdx :: u64
  Rsi :: u64
  Rdi :: u64
  Rbp :: u64
  Rsp :: u64
  R8 :: u64
  R9 :: u64
  R10 :: u64
  R11 :: u64
  R12 :: u64
  R13 :: u64
  R14 :: u64
  R15 :: u64
  Rip :: u64
  EFlags :: u32
  SegCs :: u16
  SegDs :: u16
  SegEs :: u16
  SegFs :: u16
  SegGs :: u16
  SegSs :: u16
  FltSave :: xmm_save_area

text \<open>The fixed array lengths of the two register files.\<close>

definition wf_save_area :: "xmm_save_area \<Rightarrow> bool" where
  "wf_save_area f \<longleftrightarrow> length (FloatRegisters f) = 8 \<and> length (XmmRegisters f) = 16"

definition default_save_area :: xmm_save_area where
  "default_save_area =
     \<lparr>ControlWord = 0, StatusWord = 0, TagWord = 0, ErrorOpcode = 0, ErrorOffset = 0,
      ErrorSelector = 0, DataOffset = 0, DataSelector = 0, MxCsr = 0,
      FloatRegisters = replicate 8 (M128 0 0), XmmRegisters = replicate 16 (M128 0 0)\<rparr>"

definition default_regs :: x64_regs where
  "default_regs =
     \<lparr>Rax = 0, Rbx = 0, Rcx = 0, Rdx = 0, Rsi = 0, Rdi = 0, Rbp = 0, Rsp = 0, R8 = 0, R9 = 0,
      R10 = 0, R11 = 0, R12 = 0, R13 = 0, R14 = 0, R15 = 0, Rip = 0, EFlags = 0, SegCs = 0,
      SegDs = 0, SegEs = 0, SegFs = 0, SegGs = 0, SegSs = 0, FltSave = default_save_area\<rparr>"

text \<open>\<open>words.next().unwrap_or(0)\<close> at the i-th call.\<close>

definition word_at :: "u64 list \<Rightarrow> nat \<Rightarrow> u64" where
  "word_at ws i = (if i < length ws then ws ! i else 0)"

definition m128s_at :: "u64 list \<Rightarrow> nat \<Rightarrow> nat \<Rightarrow> m128 list" where
  "m128s_at ws i n = map (\<lambda>k. M128 (word_at ws (i + 2 * k)) (word_at ws (i + 2 * k + 1))) [0..<n]"

definition decode_words :: "u64 list \<Rightarrow> x64_regs option" where
  "decode_words ws = do {
     eflags \<leftarrow> narrow (word_at ws 17);
     cs \<leftarrow> narrow (word_at ws 18);
     ds \<leftarrow> narrow (word_at ws 19);
     es \<leftarrow> narrow (word_at ws 20);
     fs \<leftarrow> narrow (word_at ws 21);
     gs \<leftarrow> narrow (word_at ws 22);
     ss \<leftarrow> narrow (word_at ws 23);
     control \<leftarrow> narrow (word_at ws 72);
     status \<leftarrow> narrow (word_at ws 73);
     tag \<leftarrow> narrow (word_at ws 74);
     opcode \<leftarrow> narrow (word_at ws 75);
     error_offset \<leftarrow> narrow (word_at ws 76);
     error_selector \<leftarrow> narrow (word_at ws 77);
     data_offset \<leftarrow> narrow (word_at ws 78);
     data_selector \<leftarrow> narrow (word_at ws 79);
     mxcsr \<leftarrow> narrow (word_at ws 80);
     Some \<lparr>Rax = word_at ws 0, Rbx = word_at ws 1, Rcx = word_at ws 2, Rdx = word_at ws 3,
           Rsi = word_at ws 4, Rdi = word_at ws 5, Rbp = word_at ws 6, Rsp = word_at ws 7,
           R8 = word_at ws 8, R9 = word_at ws 9, R10 = word_at ws 10, R11 = word_at ws 11,
           R12 = word_at ws 12, R13 = word_at ws 13, R14 = word_at ws 14, R15 = word_at ws 15,
           Rip = word_at ws 16, EFlags = eflags, SegCs = cs, SegDs = ds, SegEs = es, SegFs = fs,
           SegGs = gs, SegSs = ss,
           FltSave = \<lparr>ControlWord = control, StatusWord = status, TagWord = tag,
             ErrorOpcode = opcode, ErrorOffset = error_offset, ErrorSelector = error_selector,
             DataOffset = data_offset, DataSelector = data_selector, MxCsr = mxcsr,
             FloatRegisters = m128s_at ws 24 8, XmmRegisters = m128s_at ws 40 16\<rparr>\<rparr>
   }"

definition decode_amd64_context :: "u8 list \<Rightarrow> x64_regs option" where
  "decode_amd64_context bytes =
     (if length bytes \<noteq> 81 * 8 then None
      else decode_words (map (\<lambda>chunk. word_of_nat (le_value chunk)) (chunks 8 bytes)))"

text \<open>The words \<open>GetAmd64Context\<close> pushes, in its order, and its byte stream.\<close>

definition context_head :: "x64_regs \<Rightarrow> u64 list" where
  "context_head r =
     [Rax r, Rbx r, Rcx r, Rdx r, Rsi r, Rdi r, Rbp r, Rsp r, R8 r, R9 r, R10 r, R11 r, R12 r,
      R13 r, R14 r, R15 r, Rip r, ucast (EFlags r), ucast (SegCs r), ucast (SegDs r),
      ucast (SegEs r), ucast (SegFs r), ucast (SegGs r), ucast (SegSs r)]"

definition push_m128 :: "m128 \<Rightarrow> u64 list" where
  "push_m128 m = [Low m, High m]"

definition context_tail :: "xmm_save_area \<Rightarrow> u64 list" where
  "context_tail f =
     [ucast (ControlWord f), ucast (StatusWord f), ucast (TagWord f), ucast (ErrorOpcode f),
      ucast (ErrorOffset f), ucast (ErrorSelector f), ucast (DataOffset f),
      ucast (DataSelector f), ucast (MxCsr f)]"

definition context_words :: "x64_regs \<Rightarrow> u64 list" where
  "context_words r =
     context_head r
     @ concat (map push_m128 (FloatRegisters (FltSave r)))
     @ concat (map push_m128 (XmmRegisters (FltSave r)))
     @ context_tail (FltSave r)"

definition push_u64 :: "u64 \<Rightarrow> u8 list" where
  "push_u64 v = map (\<lambda>i. ucast (drop_bit (8 * i) v AND 255)) [0..<8]"

definition get_amd64_context :: "x64_regs \<Rightarrow> u8 list" where
  "get_amd64_context r = concat (map push_u64 (context_words r))"

section \<open>Order lemmas\<close>

lemma rank_less_iff: "rank p < rank q \<longleftrightarrow> p < q"
proof (cases "unat (seq_id p) = unat (seq_id q)")
  case True
  then show ?thesis
    by (auto simp: rank_def less_position_def word_less_nat_alt word_unat_eq_iff)
next
  case False
  have "unat (steps p) < 18446744073709551616" "unat (steps q) < 18446744073709551616"
    by (rule unat_u64_less)+
  with False have "rank p < rank q \<longleftrightarrow> unat (seq_id p) < unat (seq_id q)"
    unfolding rank_def by (simp del: unat_u64_less, linarith)
  with False show ?thesis
    by (auto simp: less_position_def word_less_nat_alt word_unat_eq_iff)
qed

lemma rank_le_iff: "rank p \<le> rank q \<longleftrightarrow> p \<le> q"
  by (meson leD leI rank_less_iff)

lemma rank_bound: "rank p < 2 ^ 128"
proof -
  have "unat (seq_id p) \<le> 2 ^ 64 - 1" "unat (steps p) < 2 ^ 64"
    using unat_u64_less [of "seq_id p"] by (simp_all del: unat_u64_less, simp)
  then have "unat (seq_id p) * 2 ^ 64 + unat (steps p) < (2 ^ 64 - 1) * 2 ^ 64 + 2 ^ 64"
    by (intro add_le_less_mono mult_le_mono1)
  also have "\<dots> = 2 ^ 128" by simp
  finally show ?thesis by (simp add: rank_def)
qed

lemma clamp_bounds: "lo \<le> hi \<Longrightarrow> lo \<le> clamp p lo hi \<and> clamp p lo hi \<le> hi"
  by (auto simp: clamp_def)

lemma clamp_id: "lo \<le> p \<Longrightarrow> p \<le> hi \<Longrightarrow> clamp p lo hi = p"
  by (auto simp: clamp_def)

section \<open>Context lemmas\<close>

lemma le_bytes_map: "le_bytes n x = map (\<lambda>i. word_of_nat (x div 256 ^ i mod 256)) [0..<n]"
proof (induction n arbitrary: x)
  case 0
  then show ?case by simp
next
  case (Suc n)
  have "[0..<Suc n] = 0 # map Suc [0..<n]"
    by (simp add: map_Suc_upt upt_conv_Cons)
  with Suc show ?case
    by (simp add: div_mult2_eq o_def del: upt_Suc)
qed

lemma push_u64_le: "push_u64 v = to_le_bytes v"
proof -
  have byte: "(ucast (drop_bit k v AND 255) :: u8) = word_of_nat (unat v div 2 ^ k mod 256)" for k
  proof -
    have "drop_bit k v AND 255 = take_bit 8 (drop_bit k v)"
      by (simp add: take_bit_eq_mask mask_eq_exp_minus_1)
    then have "unat (drop_bit k v AND 255) = take_bit 8 (drop_bit k (unat v))"
      using take_bit_nat_eq_self [OF unsigned_less [of v]]
      by (simp only: unsigned_take_bit_eq unsigned_drop_bit_eq)
    then have "unat (drop_bit k v AND 255) = unat v div 2 ^ k mod 256"
      by (simp only: take_bit_eq_mod drop_bit_eq_div) simp
    then show ?thesis by (metis of_nat_unat)
  qed
  have "(2 :: nat) ^ (8 * i) = 256 ^ i" for i
    by (simp add: power_mult)
  then show ?thesis
    by (simp add: push_u64_def to_le_bytes_def le_bytes_map byte)
qed

text \<open>The words of a context survive the trip through the byte stream.\<close>

lemma context_stream:
  "map (\<lambda>chunk. word_of_nat (le_value chunk)) (chunks 8 (concat (map push_u64 ws))) = ws"
proof -
  have "push_u64 = to_le_bytes"
    by (rule ext) (rule push_u64_le)
  moreover have "word_of_nat (le_value (to_le_bytes w)) = w" for w :: u64
    using le64.decode_encode [of w] by (simp add: from_le_bytes_def)
  ultimately show ?thesis
    by (simp add: le64.chunks_encode o_def)
qed

lemma length_m128_words [simp]: "length (concat (map push_m128 ms)) = 2 * length ms"
  by (induction ms) (auto simp: push_m128_def)

lemma length_context_head [simp]: "length (context_head r) = 24"
  by (simp add: context_head_def)

lemma length_context_words: "wf_save_area (FltSave r) \<Longrightarrow> length (context_words r) = 81"
  by (simp add: context_words_def wf_save_area_def context_tail_def)

lemma nth_m128_words:
  "k < length ms \<Longrightarrow> concat (map push_m128 ms) ! (2 * k) = Low (ms ! k)"
  "k < length ms \<Longrightarrow> concat (map push_m128 ms) ! (2 * k + 1) = High (ms ! k)"
proof (induction ms arbitrary: k)
  case (Cons m ms)
  {
    case 1
    with Cons.IH show ?case by (cases k) (auto simp: push_m128_def)
  next
    case 2
    with Cons.IH show ?case by (cases k) (auto simp: push_m128_def)
  }
qed simp_all

lemma m128s_of_words:
  assumes "length ms = n" and "\<And>j. j < 2 * n \<Longrightarrow> word_at ws (i + j) = concat (map push_m128 ms) ! j"
  shows "m128s_at ws i n = ms"
proof (rule nth_equalityI)
  show "length (m128s_at ws i n) = length ms" using assms(1) by (simp add: m128s_at_def)
  fix k assume "k < length (m128s_at ws i n)"
  then have k: "k < n" by (simp add: m128s_at_def)
  have "word_at ws (i + 2 * k) = Low (ms ! k)" "word_at ws (i + 2 * k + 1) = High (ms ! k)"
    using assms(2) [of "2 * k"] assms(2) [of "2 * k + 1"] assms(1) k nth_m128_words [of k ms]
    by simp_all
  with k show "m128s_at ws i n ! k = ms ! k"
    by (simp add: m128s_at_def)
qed

lemma decode_context_words:
  assumes "wf_save_area (FltSave r)"
  shows "decode_words (context_words r) = Some r"
proof -
  have wa: "word_at (context_words r) i = context_words r ! i" if "i < 81" for i
    using that length_context_words [OF assms] by (simp add: word_at_def)
  have len: "length (FloatRegisters (FltSave r)) = 8" "length (XmmRegisters (FltSave r)) = 16"
    using assms by (simp_all add: wf_save_area_def)
  have "m128s_at (context_words r) 24 8 = FloatRegisters (FltSave r)"
    by (rule m128s_of_words) (simp add: len, simp add: wa, simp add: context_words_def nth_append len)
  moreover have "m128s_at (context_words r) 40 16 = XmmRegisters (FltSave r)"
    by (rule m128s_of_words) (simp add: len, simp add: wa, simp add: context_words_def nth_append len)
  ultimately show ?thesis
    by (simp add: decode_words_def wa)
      (simp add: context_words_def nth_append len context_head_def context_tail_def)
qed

lemma decode_get_amd64_context:
  "wf_save_area (FltSave r) \<Longrightarrow> decode_amd64_context (get_amd64_context r) = Some r"
proof -
  assume wf: "wf_save_area (FltSave r)"
  have "length (get_amd64_context r) = 8 * length (context_words r)"
    using le64.length_stream [of "context_words r"] by (simp add: get_amd64_context_def push_u64_le cong: map_cong)
  with wf show ?thesis
    by (simp add: decode_amd64_context_def length_context_words get_amd64_context_def context_stream
        decode_context_words)
qed

text \<open>
  The register stream that the bridge writes, 81 little-endian words, decodes to the registers it
  was written from, floating-point and vector registers included.
\<close>

theorem register_context_round_trip:
  "wf_save_area (FltSave r) \<Longrightarrow> decode_amd64_context (get_amd64_context r) = Some r"
  by (rule decode_get_amd64_context)

theorem register_context_round_trip_witness:
  "decode_amd64_context (get_amd64_context (default_regs\<lparr>Rip := 0x7ff612340000, EFlags := 0x246\<rparr>))
     = Some (default_regs\<lparr>Rip := 0x7ff612340000, EFlags := 0x246\<rparr>)"
  by (rule register_context_round_trip) (simp add: default_regs_def default_save_area_def wf_save_area_def)

end
