(* ===== verification/Watchpoints.thy ===== *)
theory Watchpoints
  imports Ttd_Types "HOL-Library.Product_Lexorder"
begin

text \<open>
  The physical watchpoint registry (\<open>target/watchpoint.rs\<close>). The cursor is any state with two
  fallible operations \<open>add\<close> and \<open>remove\<close>; \<open>registry_sync\<close> brings the set it has applied in
  line with a desired set. Nothing is assumed of the two operations: the lemmas hold for every
  pattern of failures. The log of calls is observed by running the same \<open>registry_sync\<close> on a
  cursor that records what it is asked.
\<close>

section \<open>Ranges\<close>

definition MAX_WATCHPOINT_BYTES :: u64 where
  "MAX_WATCHPOINT_BYTES = 4096"

definition canonical_address :: "u64 \<Rightarrow> bool" where
  "canonical_address addr \<longleftrightarrow> addr \<le> 0x00007fffffffffff \<or> addr \<ge> 0xffff800000000000"

definition valid_watchpoint_range :: "u64 \<Rightarrow> u64 \<Rightarrow> bool" where
  "valid_watchpoint_range addr sz =
     (if sz = 0 \<or> sz > MAX_WATCHPOINT_BYTES then False
      else case checked_add addr sz of
        None \<Rightarrow> False
      | Some end \<Rightarrow> canonical_address addr \<and> canonical_address (end - 1))"

section \<open>Keys\<close>

datatype watchpoint_key =
  WatchpointKey (wk_addr: u64) (wk_size: u64) (wk_access: access_mask) (wk_tid: u32)

definition key_tuple :: "watchpoint_key \<Rightarrow> u64 \<times> u64 \<times> u8 \<times> u32" where
  "key_tuple k = (wk_addr k, wk_size k, wk_access k, wk_tid k)"

lemma key_tuple_inj: "key_tuple k = key_tuple k' \<longleftrightarrow> k = k'"
  by (cases k; cases k') (simp add: key_tuple_def)

text \<open>\<open>derive(PartialOrd, Ord)\<close>: field by field.\<close>

instantiation watchpoint_key :: linorder
begin

definition less_eq_watchpoint_key :: "watchpoint_key \<Rightarrow> watchpoint_key \<Rightarrow> bool" where
  "k \<le> k' \<longleftrightarrow> key_tuple k \<le> key_tuple k'"

definition less_watchpoint_key :: "watchpoint_key \<Rightarrow> watchpoint_key \<Rightarrow> bool" where
  "k < k' \<longleftrightarrow> key_tuple k < key_tuple k'"

instance
proof
  fix k k' k'' :: watchpoint_key
  show "k < k' \<longleftrightarrow> k \<le> k' \<and> \<not> k' \<le> k"
    by (simp only: less_eq_watchpoint_key_def less_watchpoint_key_def less_le_not_le)
  show "k \<le> k" by (simp only: less_eq_watchpoint_key_def order.refl)
  show "k \<le> k' \<Longrightarrow> k' \<le> k'' \<Longrightarrow> k \<le> k''"
    unfolding less_eq_watchpoint_key_def by (rule order.trans)
  show "k \<le> k' \<Longrightarrow> k' \<le> k \<Longrightarrow> k = k'"
    unfolding less_eq_watchpoint_key_def key_tuple_inj [symmetric] by (rule order.antisym)
  show "k \<le> k' \<or> k' \<le> k"
    unfolding less_eq_watchpoint_key_def by (rule linear)
qed

end

section \<open>Synchronisation\<close>

datatype sync_error = SyncError (se_key: watchpoint_key) (se_source: ttd_error)

record sync_report =
  added :: u64
  removed :: u64
  add_failures :: u64
  remove_failures :: u64

definition default_report :: sync_report where
  "default_report = \<lparr>added = 0, removed = 0, add_failures = 0, remove_failures = 0\<rparr>"

record registry =
  applied :: "watchpoint_key btree_set"

definition registry_new :: registry where
  "registry_new = \<lparr>applied = []\<rparr>"

text \<open>A fallible cursor operation on one key.\<close>

type_synonym 'c key_op = "'c \<Rightarrow> watchpoint_key \<Rightarrow> 'c \<times> (ttd_error, unit) result"

fun sync_stale ::
  "'c key_op \<Rightarrow> watchpoint_key list \<Rightarrow> registry \<times> sync_report \<times> 'c \<Rightarrow> registry \<times> sync_report \<times> 'c" where
  "sync_stale remove [] s = s"
| "sync_stale remove (key # keys) (r, report, c) =
     (case remove c key of
        (c', Inr _) \<Rightarrow>
          sync_stale remove keys
            (r\<lparr>applied := bs_remove key (applied r)\<rparr>, report\<lparr>removed := removed report + 1\<rparr>, c')
      | (c', Inl source) \<Rightarrow>
          sync_stale remove keys (r, report\<lparr>remove_failures := remove_failures report + 1\<rparr>, c'))"

fun sync_missing ::
  "'c key_op \<Rightarrow> watchpoint_key list \<Rightarrow> registry \<times> sync_report \<times> sync_error option \<times> 'c
     \<Rightarrow> registry \<times> sync_report \<times> sync_error option \<times> 'c" where
  "sync_missing add [] s = s"
| "sync_missing add (key # keys) (r, report, err, c) =
     (case add c key of
        (c', Inr _) \<Rightarrow>
          sync_missing add keys
            (r\<lparr>applied := bs_insert key (applied r)\<rparr>, report\<lparr>added := added report + 1\<rparr>, err, c')
      | (c', Inl source) \<Rightarrow>
          sync_missing add keys
            (r, report\<lparr>add_failures := add_failures report + 1\<rparr>,
             (case err of None \<Rightarrow> Some (SyncError key source) | Some e \<Rightarrow> Some e), c'))"

definition registry_sync ::
  "'c key_op \<Rightarrow> 'c key_op \<Rightarrow> watchpoint_key btree_set \<Rightarrow> registry \<Rightarrow> 'c
     \<Rightarrow> registry \<times> sync_report \<times> sync_error option \<times> 'c" where
  "registry_sync add remove desired r c =
     (let stale = bs_difference (applied r) desired;
          missing = bs_difference desired (applied r);
          (r1, report1, c1) = sync_stale remove stale (r, default_report, c)
      in sync_missing add missing (r1, report1, None, c1))"

section \<open>The call log\<close>

datatype key_call = CallAdd watchpoint_key bool | CallRemove watchpoint_key bool

definition ok :: "(ttd_error, unit) result \<Rightarrow> bool" where
  "ok res = (case res of Inl _ \<Rightarrow> False | Inr _ \<Rightarrow> True)"

text \<open>A cursor operation that also records each call and whether it succeeded.\<close>

definition logged :: "(watchpoint_key \<Rightarrow> bool \<Rightarrow> key_call) \<Rightarrow> 'c key_op \<Rightarrow> ('c \<times> key_call list) key_op" where
  "logged f op s key = (let (c, log) = s; (c', res) = op c key in ((c', log @ [f key (ok res)]), res))"

fun call_key :: "key_call \<Rightarrow> watchpoint_key" where
  "call_key (CallAdd k _) = k"
| "call_key (CallRemove k _) = k"

fun call_effect :: "key_call \<Rightarrow> watchpoint_key set \<Rightarrow> watchpoint_key set" where
  "call_effect (CallAdd k b) s = (if b then insert k s else s)"
| "call_effect (CallRemove k b) s = (if b then s - {k} else s)"

section \<open>Range lemmas\<close>

lemma valid_range_bounds:
  assumes "valid_watchpoint_range addr sz"
  shows "0 < unat sz" "unat sz \<le> 4096" "unat addr + unat sz < 2 ^ 64"
    "unat addr \<le> 0x7fffffffffff \<or> 0xffff800000000000 \<le> unat addr"
    "unat addr + unat sz \<le> 0x800000000000 \<or> 0xffff800000000000 < unat addr + unat sz"
proof -
  from assms have s: "sz \<noteq> 0" "sz \<le> 4096" and sum: "unat addr + unat sz < 2 ^ 64"
    and can: "canonical_address addr" "canonical_address (addr + sz - 1)"
    by (auto simp: valid_watchpoint_range_def MAX_WATCHPOINT_BYTES_def checked_add_def split: if_splits)
  show sz: "0 < unat sz" "unat sz \<le> 4096"
    using s by (simp_all add: word_le_nat_alt unat_gt_0)
  show "unat addr + unat sz < 2 ^ 64" by (fact sum)
  show "unat addr \<le> 0x7fffffffffff \<or> 0xffff800000000000 \<le> unat addr"
    using can(1) by (simp add: canonical_address_def word_le_nat_alt)
  have "unat (addr + sz) = unat addr + unat sz"
    using sum by (simp add: unat_word_ariths)
  with sz(1) have "unat (addr + sz - 1) = unat addr + unat sz - 1"
    by (subst unat_minus_one) auto
  with can(2) have "unat addr + unat sz - 1 \<le> 0x7fffffffffff \<or> 0xffff800000000000 \<le> unat addr + unat sz - 1"
    by (simp add: canonical_address_def word_le_nat_alt)
  with sz(1) show "unat addr + unat sz \<le> 0x800000000000 \<or> 0xffff800000000000 < unat addr + unat sz"
    by arith
qed

text \<open>Checking the two ends is enough: the whole range is on one side of the canonical hole.\<close>

lemma valid_range_bytes_canonical:
  assumes "valid_watchpoint_range addr sz" and "i < unat sz"
  shows "canonical_address (addr + word_of_nat i)"
proof -
  note b = valid_range_bounds [OF assms(1)]
  have "unat (addr + word_of_nat i) = unat addr + i"
    using b assms(2) by (simp add: unat_word_ariths unsigned_of_nat take_bit_eq_mod)
  with b assms(2) show ?thesis
    unfolding canonical_address_def word_le_nat_alt by simp linarith
qed

section \<open>Registry lemmas\<close>

text \<open>Removals touch only stale keys, and each successful one is recorded at once.\<close>

lemma sync_stale_applied:
  "sync_stale remove keys (r, report, c) = (r', report', c') \<Longrightarrow>
   set (applied r') \<subseteq> set (applied r) \<and> set (applied r) - set keys \<subseteq> set (applied r')
   \<and> (ordered_set (applied r) \<longrightarrow> ordered_set (applied r'))"
proof (induction keys arbitrary: r report c)
  case (Cons key keys)
  obtain c1 res where op: "remove c key = (c1, res)" by fastforce
  let ?r = "if ok res then r\<lparr>applied := bs_remove key (applied r)\<rparr> else r"
  from Cons.prems op obtain rep where step: "sync_stale remove keys (?r, rep, c1) = (r', report', c')"
    by (cases res) (auto simp: ok_def)
  have "set (applied ?r) \<subseteq> set (applied r)" "set (applied r) - {key} \<subseteq> set (applied ?r)"
    "ordered_set (applied r) \<longrightarrow> ordered_set (applied ?r)" by auto
  with Cons.IH [OF step] show ?case by auto
qed simp

lemma sync_missing_applied:
  "sync_missing add keys (r, report, err, c) = (r', report', err', c') \<Longrightarrow>
   set (applied r) \<subseteq> set (applied r') \<and> set (applied r') \<subseteq> set (applied r) \<union> set keys
   \<and> (ordered_set (applied r) \<longrightarrow> ordered_set (applied r'))"
proof (induction keys arbitrary: r report err c)
  case (Cons key keys)
  obtain c1 res where op: "add c key = (c1, res)" by fastforce
  let ?r = "if ok res then r\<lparr>applied := bs_insert key (applied r)\<rparr> else r"
  from Cons.prems op obtain rep e where step: "sync_missing add keys (?r, rep, e, c1) = (r', report', err', c')"
    by (cases res) (auto simp: ok_def)
  have "set (applied r) \<subseteq> set (applied ?r)" "set (applied ?r) \<subseteq> set (applied r) \<union> {key}"
    "ordered_set (applied r) \<longrightarrow> ordered_set (applied ?r)" by auto
  with Cons.IH [OF step] show ?case by auto
qed simp

lemma sync_missing_err_kept:
  "sync_missing add keys (r, report, Some e, c) = (r', report', err', c') \<Longrightarrow> err' = Some e"
  by (induction keys arbitrary: r report c) (auto split: prod.splits sum.splits)

lemma sync_missing_complete:
  "sync_missing add keys (r, report, None, c) = (r', report', None, c') \<Longrightarrow> set keys \<subseteq> set (applied r')"
proof (induction keys arbitrary: r report c)
  case (Cons key keys)
  obtain c1 res where op: "add c key = (c1, res)" by fastforce
  show ?case
  proof (cases res)
    case (Inl e)
    with Cons.prems op show ?thesis by (auto dest: sync_missing_err_kept)
  next
    case (Inr u)
    let ?r = "r\<lparr>applied := bs_insert key (applied r)\<rparr>"
    from Inr Cons.prems op have
      step: "sync_missing add keys (?r, report\<lparr>added := added report + 1\<rparr>, None, c1) = (r', report', None, c')"
      by simp
    from Cons.IH [OF step] sync_missing_applied [OF step] show ?thesis by auto
  qed
qed simp

lemma sync_missing_err:
  "sync_missing add keys (r, report, None, c) = (r', report', Some e, c') \<Longrightarrow> set keys \<inter> set (applied r) = {}
   \<Longrightarrow> distinct keys \<Longrightarrow> se_key e \<in> set keys \<and> se_key e \<notin> set (applied r')"
proof (induction keys arbitrary: r report c)
  case (Cons key keys)
  obtain c1 res where op: "add c key = (c1, res)" by fastforce
  show ?case
  proof (cases res)
    case (Inl src)
    let ?report = "report\<lparr>add_failures := add_failures report + 1\<rparr>"
    from Inl Cons.prems(1) op have
      step: "sync_missing add keys (r, ?report, Some (SyncError key src), c1) = (r', report', Some e, c')"
      by simp
    from sync_missing_err_kept [OF step] sync_missing_applied [OF step] Cons.prems(2,3)
    show ?thesis by auto
  next
    case (Inr u)
    let ?r = "r\<lparr>applied := bs_insert key (applied r)\<rparr>"
    from Inr Cons.prems(1) op have
      step: "sync_missing add keys (?r, report\<lparr>added := added report + 1\<rparr>, None, c1) = (r', report', Some e, c')"
      by simp
    from Cons.IH [OF step] Cons.prems(2,3) show ?thesis by auto
  qed
qed simp

text \<open>What one synchronisation guarantees whatever the cursor does.\<close>

lemma registry_sync_frame:
  assumes "registry_sync add remove desired r c = (r', report, err, c')"
  shows "set desired \<inter> set (applied r) \<subseteq> set (applied r')"
    and "set (applied r') \<subseteq> set (applied r) \<union> set desired"
    and "ordered_set (applied r) \<Longrightarrow> ordered_set (applied r')"
proof -
  obtain r1 rep1 c1 where st: "sync_stale remove (bs_difference (applied r) desired) (r, default_report, c) = (r1, rep1, c1)"
    using prod_cases3 by blast
  with assms have
    ms: "sync_missing add (bs_difference desired (applied r)) (r1, rep1, None, c1) = (r', report, err, c')"
    by (simp add: registry_sync_def Let_def)
  show "set desired \<inter> set (applied r) \<subseteq> set (applied r')"
    and "set (applied r') \<subseteq> set (applied r) \<union> set desired"
    and "ordered_set (applied r) \<Longrightarrow> ordered_set (applied r')"
    using sync_stale_applied [OF st] sync_missing_applied [OF ms] by auto
qed

lemma registry_sync_ok:
  assumes "registry_sync add remove desired r c = (r', report, None, c')"
  shows "set desired \<subseteq> set (applied r')"
proof -
  obtain r1 rep1 c1 where st: "sync_stale remove (bs_difference (applied r) desired) (r, default_report, c) = (r1, rep1, c1)"
    using prod_cases3 by blast
  with assms have
    ms: "sync_missing add (bs_difference desired (applied r)) (r1, rep1, None, c1) = (r', report, None, c')"
    by (simp add: registry_sync_def Let_def)
  from sync_missing_complete [OF ms] registry_sync_frame(1) [OF assms] show ?thesis by auto
qed

lemma registry_sync_error:
  assumes "registry_sync add remove desired r c = (r', report, Some e, c')" and "ordered_set desired"
  shows "se_key e \<in> set desired - set (applied r)" and "se_key e \<notin> set (applied r')"
proof -
  obtain r1 rep1 c1 where st: "sync_stale remove (bs_difference (applied r) desired) (r, default_report, c) = (r1, rep1, c1)"
    using prod_cases3 by blast
  with assms have
    ms: "sync_missing add (bs_difference desired (applied r)) (r1, rep1, None, c1) = (r', report, Some e, c')"
    by (simp add: registry_sync_def Let_def)
  have "distinct (bs_difference desired (applied r))"
    using assms(2) by (simp add: bs_difference_def ordered_set_def strict_sorted_iff)
  moreover have "set (bs_difference desired (applied r)) \<inter> set (applied r1) = {}"
    using sync_stale_applied [OF st] by auto
  ultimately have "se_key e \<in> set (bs_difference desired (applied r)) \<and> se_key e \<notin> set (applied r')"
    using sync_missing_err [OF ms] by blast
  then show "se_key e \<in> set desired - set (applied r)" and "se_key e \<notin> set (applied r')" by auto
qed

lemma registry_sync_settled:
  assumes "set desired = set (applied r)"
  shows "registry_sync add remove desired r c = (r, default_report, None, c)"
  using assms by (simp add: registry_sync_def bs_difference_def)

text \<open>The log of one synchronisation: every removal, then every addition, each in key order.\<close>

lemma logged_step: "op c key = (c', res) \<Longrightarrow> logged f op (c, log) key = ((c', log @ [f key (ok res)]), res)"
  by (simp add: logged_def)

lemma ok_simps [simp]: "\<not> ok (Inl e)" "ok (Inr u)"
  by (simp_all add: ok_def)

lemma sync_stale_log:
  "sync_stale (logged CallRemove remove) keys (r, report, (c, log)) = (r', report', (c', log')) \<Longrightarrow>
   \<exists>bs. length bs = length keys \<and> log' = log @ map2 CallRemove keys bs
     \<and> set (applied r') = fold call_effect (map2 CallRemove keys bs) (set (applied r))"
proof (induction keys arbitrary: r report c log)
  case (Cons key keys)
  obtain c1 res where op: "remove c key = (c1, res)" by fastforce
  let ?r = "if ok res then r\<lparr>applied := bs_remove key (applied r)\<rparr> else r"
  from Cons.prems op obtain rep where
    step: "sync_stale (logged CallRemove remove) keys (?r, rep, (c1, log @ [CallRemove key (ok res)])) = (r', report', (c', log'))"
    by (cases res) (auto simp: logged_step)
  from Cons.IH [OF step] obtain bs where "length bs = length keys"
    "log' = (log @ [CallRemove key (ok res)]) @ map2 CallRemove keys bs"
    "set (applied r') = fold call_effect (map2 CallRemove keys bs) (set (applied ?r))"
    by blast
  then show ?case by (intro exI [of _ "ok res # bs"]) simp
qed simp

lemma sync_missing_log:
  "sync_missing (logged CallAdd add) keys (r, report, err, (c, log)) = (r', report', err', (c', log')) \<Longrightarrow>
   \<exists>bs. length bs = length keys \<and> log' = log @ map2 CallAdd keys bs
     \<and> set (applied r') = fold call_effect (map2 CallAdd keys bs) (set (applied r))"
proof (induction keys arbitrary: r report err c log)
  case (Cons key keys)
  obtain c1 res where op: "add c key = (c1, res)" by fastforce
  let ?r = "if ok res then r\<lparr>applied := bs_insert key (applied r)\<rparr> else r"
  from Cons.prems op obtain rep e where
    step: "sync_missing (logged CallAdd add) keys (?r, rep, e, (c1, log @ [CallAdd key (ok res)])) = (r', report', err', (c', log'))"
    by (cases res) (auto simp: logged_step)
  from Cons.IH [OF step] obtain bs where "length bs = length keys"
    "log' = (log @ [CallAdd key (ok res)]) @ map2 CallAdd keys bs"
    "set (applied r') = fold call_effect (map2 CallAdd keys bs) (set (applied ?r))"
    by blast
  then show ?case by (intro exI [of _ "ok res # bs"]) simp
qed simp

lemma registry_sync_log:
  assumes "registry_sync (logged CallAdd add) (logged CallRemove remove) desired r (c, []) = (r', report, err, (c', log))"
  shows "map call_key log = bs_difference (applied r) desired @ bs_difference desired (applied r)"
    and "set (applied r') = fold call_effect log (set (applied r))"
proof -
  obtain r1 rep1 c1 l1 where
    st: "sync_stale (logged CallRemove remove) (bs_difference (applied r) desired) (r, default_report, (c, [])) = (r1, rep1, (c1, l1))"
    by (metis prod_cases3 surj_pair)
  with assms have
    ms: "sync_missing (logged CallAdd add) (bs_difference desired (applied r)) (r1, rep1, None, (c1, l1)) = (r', report, err, (c', log))"
    by (simp add: registry_sync_def Let_def)
  have keys: "map call_key (map2 CallRemove ks bs) = ks" "map call_key (map2 CallAdd ks bs) = ks"
    if "length bs = length ks" for ks bs
    using that by (induction ks bs rule: list_induct2') auto
  from sync_stale_log [OF st] sync_missing_log [OF ms]
  show "map call_key log = bs_difference (applied r) desired @ bs_difference desired (applied r)"
    and "set (applied r') = fold call_effect log (set (applied r))"
    using keys by fastforce+
qed

text \<open>
  One synchronisation calls the cursor once for every stale key and then once for every missing
  key, each group in ascending key order and nothing else, and the registry afterwards records exactly
  what the successful calls did to it.
\<close>

theorem sync_calls_in_order:
  assumes "registry_sync (logged CallAdd add) (logged CallRemove remove) desired r (c, []) = (r', report, err, (c', log))"
    and "ordered_set desired" and "ordered_set (applied r)"
  shows "\<exists>stale missing. map call_key log = stale @ missing \<and> ordered_set stale \<and> ordered_set missing
    \<and> set stale = set (applied r) - set desired \<and> set missing = set desired - set (applied r)
    \<and> set (applied r') = fold call_effect log (set (applied r))"
  using registry_sync_log [OF assms(1)] assms(2,3)
  by (intro exI [of _ "bs_difference (applied r) desired"] exI [of _ "bs_difference desired (applied r)"]) auto

theorem sync_calls_in_order_witness:
  "let accept = (\<lambda>c k. (c, Inr ())); k1 = WatchpointKey 1 1 4 0; k2 = WatchpointKey 2 1 4 0; k3 = WatchpointKey 3 1 4 0;
       (r', report, err, (c', log)) = registry_sync (logged CallAdd accept) (logged CallRemove accept)
         [k2, k3] \<lparr>applied = [k1, k2]\<rparr> ((), [])
   in log = [CallRemove k1 True, CallAdd k3 True] \<and> set (applied r') = fold call_effect log {k1, k2}"
proof -
  let ?k1 = "WatchpointKey 1 1 4 0" and ?k2 = "WatchpointKey 2 1 4 0" and ?k3 = "WatchpointKey 3 1 4 0"
  let ?run = "registry_sync (logged CallAdd (\<lambda>c k. (c, Inr ()))) (logged CallRemove (\<lambda>c k. (c, Inr ())))
         [?k2, ?k3] \<lparr>applied = [?k1, ?k2]\<rparr> ((), [])"
  obtain r' report err c' log where run: "?run = (r', report, err, (c', log))" by (metis prod_cases4 surj_pair)
  have "snd (snd (snd (snd ?run))) = [CallRemove ?k1 True, CallAdd ?k3 True]" by code_simp
  with run have "log = [CallRemove ?k1 True, CallAdd ?k3 True]" by simp
  moreover have "ordered_set [?k2, ?k3]" "ordered_set [?k1, ?k2]"
    by (simp_all add: ordered_set_def less_watchpoint_key_def key_tuple_def)
  from sync_calls_in_order [OF run] this have "set (applied r') = fold call_effect log {?k1, ?k2}" by auto
  ultimately show ?thesis using run by (simp add: Let_def)
qed

end
