(* ===== verification/Breakpoints.thy ===== *)
theory Breakpoints
  imports Id_Tables Watchpoints
begin

text \<open>
  The logical breakpoints (\<open>target/breakpoint.rs\<close>) and the thread catalog
  (\<open>target/threads.rs\<close>). The manager keeps the breakpoints in a map ordered by id; a watchpoint
  hit is attributed to the matching breakpoint restricted to the hitting thread with the lowest id,
  and only then to an unrestricted one. The manager is an instance of \<open>id_table\<close>.
\<close>

section \<open>Thread catalog\<close>

record thread_table =
  os_to_uid :: "u32 \<rightharpoonup> u32"

definition from_engine_threads :: "thread_info list \<Rightarrow> thread_table" where
  "from_engine_threads threads =
     \<lparr>os_to_uid = fold (\<lambda>t m. m(Id t \<mapsto> UniqueId t)) threads Map.empty\<rparr>"

definition contains_os_tid :: "thread_table \<Rightarrow> u32 \<Rightarrow> bool" where
  "contains_os_tid t os_tid \<longleftrightarrow> os_to_uid t os_tid \<noteq> None"

definition uid_for_os_tid :: "thread_table \<Rightarrow> u32 \<Rightarrow> u32 option" where
  "uid_for_os_tid t os_tid = os_to_uid t os_tid"

section \<open>Breakpoints\<close>

datatype breakpoint_kind = BkExecute | BkRead | BkWrite | BkAccess

record breakpoint =
  bp_id :: u64
  bp_addr :: u64
  bp_size :: u64
  bp_access :: access_mask
  bp_kind :: breakpoint_kind
  bp_thread :: "u64 option"

record breakpoint_manager =
  breakpoints :: "(u64, breakpoint) btree_map"
  next_id :: u64

definition manager_new :: breakpoint_manager where
  "manager_new = \<lparr>breakpoints = [], next_id = 1\<rparr>"

definition manager_add ::
  "breakpoint_manager \<Rightarrow> u64 \<Rightarrow> u64 \<Rightarrow> access_mask \<Rightarrow> breakpoint_kind \<Rightarrow> u64 option
     \<Rightarrow> breakpoint_manager \<times> u64" where
  "manager_add m addr sz access kind thread_id =
     (let i = next_id m;
          bp = \<lparr>bp_id = i, bp_addr = addr, bp_size = sz, bp_access = access, bp_kind = kind,
                bp_thread = thread_id\<rparr>
      in (m\<lparr>next_id := next_id m + 1, breakpoints := bt_insert i bp (breakpoints m)\<rparr>, i))"

definition manager_remove :: "breakpoint_manager \<Rightarrow> u64 \<Rightarrow> breakpoint_manager \<times> bool" where
  "manager_remove m i =
     (m\<lparr>breakpoints := bt_remove i (breakpoints m)\<rparr>, bt_get (breakpoints m) i \<noteq> None)"

definition manager_remove_exact ::
  "breakpoint_manager \<Rightarrow> u64 \<Rightarrow> u64 \<Rightarrow> access_mask \<Rightarrow> breakpoint_manager \<times> bool" where
  "manager_remove_exact m addr sz access =
     (let before = length (breakpoints m);
          kept = bt_retain (\<lambda>_ bp. \<not> (bp_addr bp = addr \<and> bp_size bp = sz \<and> bp_access bp = access))
                   (breakpoints m)
      in (m\<lparr>breakpoints := kept\<rparr>, length kept \<noteq> before))"

definition manager_get :: "breakpoint_manager \<Rightarrow> u64 \<Rightarrow> breakpoint option" where
  "manager_get m i = bt_get (breakpoints m) i"

definition manager_active :: "breakpoint_manager \<Rightarrow> breakpoint list" where
  "manager_active m = bt_values (breakpoints m)"

definition matches_addr :: "u64 \<Rightarrow> u64 \<Rightarrow> access_mask \<Rightarrow> breakpoint \<Rightarrow> bool" where
  "matches_addr addr sz access bp =
     (if \<not> intersects (bp_access bp) access then False
      else if bp_kind bp = BkExecute then addr = bp_addr bp
      else let bp_end = saturating_add (bp_addr bp) (bp_size bp);
               hit_end = saturating_add addr (max sz 1)
           in addr < bp_end \<and> bp_addr bp < hit_end)"

definition find_by_hit ::
  "breakpoint_manager \<Rightarrow> u64 \<Rightarrow> u64 \<Rightarrow> access_mask \<Rightarrow> u64 \<Rightarrow> breakpoint option" where
  "find_by_hit m addr sz access thread_id =
     (let candidates = filter (matches_addr addr sz access) (manager_active m)
      in case find (\<lambda>bp. bp_thread bp = Some thread_id) candidates of
           Some bp \<Rightarrow> Some bp
         | None \<Rightarrow> find (\<lambda>bp. bp_thread bp = None) candidates)"

section \<open>Well-formedness\<close>

definition wf_manager :: "breakpoint_manager \<Rightarrow> bool" where
  "wf_manager m \<longleftrightarrow> ordered_map (breakpoints m) \<and> 0 < next_id m
     \<and> (\<forall>(i, bp) \<in> set (breakpoints m). bp_id bp = i \<and> 0 < i \<and> i < next_id m)"

lemma wf_manager_new: "wf_manager manager_new"
  by (simp add: wf_manager_def manager_new_def)

lemma set_bt_insert: "set (bt_insert k v m) \<subseteq> insert (k, v) (set m)"
  by (induction k v m rule: bt_insert.induct) auto

lemma wf_manager_add:
  assumes "wf_manager m" and "next_id m \<noteq> u64_max"
  shows "wf_manager (fst (manager_add m addr sz access kind tid))"
proof -
  have lt: "next_id m < next_id m + 1" by (rule less_next [OF assms(2)])
  let ?m = "fst (manager_add m addr sz access kind tid)"
  have "bp_id bp = i \<and> 0 < i \<and> i < next_id ?m" if "(i, bp) \<in> set (breakpoints ?m)" for i bp
  proof -
    from that set_bt_insert have "bp_id bp = i \<and> (i = next_id m \<or> (i, bp) \<in> set (breakpoints m))"
      using assms(1) by (fastforce simp: manager_add_def Let_def wf_manager_def)
    with assms lt show ?thesis
      by (fastforce simp: manager_add_def Let_def wf_manager_def)
  qed
  with assms(1) lt show ?thesis
    by (auto simp: wf_manager_def manager_add_def Let_def)
qed

lemma wf_manager_filter:
  "wf_manager m \<Longrightarrow> wf_manager (m\<lparr>breakpoints := filter p (breakpoints m)\<rparr>)"
  by (auto simp: wf_manager_def)

lemma wf_manager_remove: "wf_manager m \<Longrightarrow> wf_manager (fst (manager_remove m i))"
  by (simp add: manager_remove_def bt_remove_def wf_manager_filter)

lemma wf_manager_remove_exact: "wf_manager m \<Longrightarrow> wf_manager (fst (manager_remove_exact m a s c))"
  by (simp add: manager_remove_exact_def bt_retain_def Let_def wf_manager_filter)

section \<open>The manager as an id table\<close>

type_synonym add_request = "u64 \<times> u64 \<times> access_mask \<times> breakpoint_kind \<times> u64 option"

definition manager_alloc :: "breakpoint_manager \<Rightarrow> add_request \<Rightarrow> breakpoint_manager \<times> u64" where
  "manager_alloc m v = (let (addr, sz, access, kind, tid) = v in manager_add m addr sz access kind tid)"

definition requested :: "u64 \<Rightarrow> add_request \<Rightarrow> breakpoint" where
  "requested i v = (let (addr, sz, access, kind, tid) = v in
     \<lparr>bp_id = i, bp_addr = addr, bp_size = sz, bp_access = access, bp_kind = kind, bp_thread = tid\<rparr>)"

lemma manager_get_below: "wf_manager m \<Longrightarrow> manager_get m i \<noteq> None \<Longrightarrow> i < next_id m"
  by (auto simp: wf_manager_def manager_get_def bt_get_Some_iff)

interpretation mgr: id_table manager_alloc manager_get manager_remove next_id wf_manager requested
proof unfold_locales
  fix m i j and v :: add_request
  obtain addr sz access kind tid where v: "v = (addr, sz, access, kind, tid)"
    using prod_cases5 by blast
  show "snd (manager_alloc m v) = next_id m" "next_id (fst (manager_alloc m v)) = next_id m + 1"
    by (simp_all add: v manager_alloc_def manager_add_def Let_def)
  show "manager_get (fst (manager_alloc m v)) i
      = (if i = next_id m then Some (requested i v) else manager_get m i)"
    by (simp add: v manager_alloc_def manager_add_def Let_def requested_def manager_get_def)
  show "manager_get (fst (manager_remove m i)) j = (if j = i then None else manager_get m j)"
    by (simp add: manager_get_def manager_remove_def)
  show "snd (manager_remove m i) \<longleftrightarrow> manager_get m i \<noteq> None"
    by (simp add: manager_get_def manager_remove_def)
  show "next_id (fst (manager_remove m i)) = next_id m"
    by (simp add: manager_remove_def)
  show "wf_manager m \<Longrightarrow> manager_get m i \<noteq> None \<Longrightarrow> i < next_id m"
    by (rule manager_get_below)
  show "wf_manager m \<Longrightarrow> next_id m \<noteq> u64_max \<Longrightarrow> wf_manager (fst (manager_alloc m v))"
    by (simp add: v manager_alloc_def wf_manager_add)
  show "wf_manager m \<Longrightarrow> wf_manager (fst (manager_remove m i))"
    by (rule wf_manager_remove)
qed

lemma manager_add_alloc:
  "manager_add m addr sz access kind tid = manager_alloc m (addr, sz, access, kind, tid)"
  by (simp add: manager_alloc_def)

lemma manager_add_active:
  assumes "wf_manager m"
  shows "manager_active (fst (manager_add m addr sz access kind tid))
    = manager_active m @ [requested (next_id m) (addr, sz, access, kind, tid)]"
proof -
  have "bt_insert (next_id m) bp (breakpoints m) = breakpoints m @ [(next_id m, bp)]" for bp
    using assms by (intro bt_insert_above) (auto simp: wf_manager_def)
  then show ?thesis
    by (simp add: manager_active_def bt_values_def manager_add_def Let_def requested_def)
qed

lemma manager_remove_undoes_add:
  assumes "wf_manager m"
  shows "breakpoints (fst (manager_remove (fst (manager_add m addr sz access kind tid))
           (snd (manager_add m addr sz access kind tid)))) = breakpoints m"
proof -
  have "bt_insert (next_id m) bp (breakpoints m) = breakpoints m @ [(next_id m, bp)]" for bp
    using assms by (intro bt_insert_above) (auto simp: wf_manager_def)
  moreover have "filter (\<lambda>(k, _). k \<noteq> next_id m) (breakpoints m) = breakpoints m"
    using assms by (intro filter_True) (auto simp: wf_manager_def)
  ultimately show ?thesis
    by (simp add: manager_add_def manager_remove_def Let_def bt_remove_def)
qed

section \<open>Attribution of hits\<close>

lemma manager_active_ascending: "wf_manager m \<Longrightarrow> sorted_wrt (<) (map bp_id (manager_active m))"
proof -
  assume wf: "wf_manager m"
  then have "map bp_id (manager_active m) = map fst (breakpoints m)"
    by (auto simp: manager_active_def bt_values_def wf_manager_def)
  with wf show ?thesis by (simp add: wf_manager_def ordered_map_def)
qed

lemma filter_ascending: "sorted_wrt (<) (map f xs) \<Longrightarrow> sorted_wrt (<) (map f (filter p xs))"
  for f :: "'a \<Rightarrow> 'k::linorder"
  by (induction xs) auto

definition attributed :: "breakpoint_manager \<Rightarrow> (breakpoint \<Rightarrow> bool) \<Rightarrow> breakpoint \<Rightarrow> bool" where
  "attributed m p bp \<longleftrightarrow> bp \<in> set (manager_active m) \<and> p bp
     \<and> (\<forall>b\<in>set (manager_active m). p b \<longrightarrow> bp_id bp \<le> bp_id b)"

text \<open>
  C26. A hit is attributed to the breakpoint of lowest id among those that match it and are
  restricted to the hitting thread; if there is none, to the one of lowest id among those that match
  it and are restricted to no thread; and to no breakpoint otherwise.
\<close>

theorem find_by_hit_spec:
  assumes "wf_manager m"
  shows "find_by_hit m addr sz access tid = Some bp \<longleftrightarrow>
     attributed m (\<lambda>b. matches_addr addr sz access b \<and> bp_thread b = Some tid) bp
     \<or> (\<forall>b\<in>set (manager_active m). matches_addr addr sz access b \<longrightarrow> bp_thread b \<noteq> Some tid)
       \<and> attributed m (\<lambda>b. matches_addr addr sz access b \<and> bp_thread b = None) bp"
proof -
  let ?c = "filter (matches_addr addr sz access) (manager_active m)"
  have "sorted_wrt (<) (map bp_id ?c)"
    using manager_active_ascending [OF assms] by (rule filter_ascending)
  then have least: "find p ?c = Some b \<longleftrightarrow> attributed m (\<lambda>b. matches_addr addr sz access b \<and> p b) b" for p b
    unfolding attributed_def by (subst find_least) auto
  show ?thesis
  proof (cases "find (\<lambda>bp. bp_thread bp = Some tid) ?c")
    case None
    then have no: "\<forall>b\<in>set (manager_active m). matches_addr addr sz access b \<longrightarrow> bp_thread b \<noteq> Some tid"
      by (auto simp: find_None_all)
    then have "\<not> attributed m (\<lambda>b. matches_addr addr sz access b \<and> bp_thread b = Some tid) bp"
      by (auto simp: attributed_def)
    with None no least [of "\<lambda>b. bp_thread b = None" bp] show ?thesis by (simp add: find_by_hit_def)
  next
    case (Some b)
    then have b: "attributed m (\<lambda>b. matches_addr addr sz access b \<and> bp_thread b = Some tid) b"
      by (rule least [THEN iffD1])
    then have "\<not> (\<forall>b\<in>set (manager_active m). matches_addr addr sz access b \<longrightarrow> bp_thread b \<noteq> Some tid)"
      by (auto simp: attributed_def)
    with Some least [of "\<lambda>b. bp_thread b = Some tid" bp] show ?thesis
      by (simp add: find_by_hit_def) blast
  qed
qed

lemma word_less_sum:
  "unat a + unat b < 2 ^ 64 \<Longrightarrow> x < saturating_add a b \<longleftrightarrow> unat x < unat a + unat b"
  by (simp add: word_less_nat_alt unat_saturating_add)

text \<open>
  C35. For a data breakpoint on a range the engine accepts, and a hit whose bytes do not reach the end
  of the address space, the match is exactly that the access kinds overlap and some byte is in both
  ranges; a hit reported with size zero counts as one byte.
\<close>

theorem data_match_is_overlap:
  assumes "valid_watchpoint_range (bp_addr bp) (bp_size bp)" and "bp_kind bp \<noteq> BkExecute"
    and "unat addr + unat (max sz 1) < 2 ^ 64"
  shows "matches_addr addr sz access bp \<longleftrightarrow> intersects (bp_access bp) access
     \<and> {unat addr ..< unat addr + unat (max sz 1)} \<inter> {unat (bp_addr bp) ..< unat (bp_addr bp) + unat (bp_size bp)} \<noteq> {}"
proof -
  note r = valid_range_bounds [OF assms(1)]
  have one: "0 < unat (max sz 1)" by (auto simp: unat_gt_0 max_def)
  have "{a ..< a + m} \<inter> {b ..< b + n} \<noteq> {} \<longleftrightarrow> a < b + n \<and> b < a + m" if "0 < m" "0 < n" for a m b n :: nat
    using that by (auto simp: disjoint_iff not_less intro!: exI [where x = "max a b"])
  with r one assms show ?thesis
    by (simp add: matches_addr_def Let_def word_less_sum)
qed

section \<open>Witnesses and histories of ids\<close>

definition sample_manager :: breakpoint_manager where
  "sample_manager = fst (run_table manager_alloc manager_remove
     [Alloc (0x1000, 1, ACCESS_EXECUTE, BkExecute, None), Alloc (0x2000, 8, ACCESS_WRITE, BkWrite, None),
      Alloc (0x1000, 1, ACCESS_EXECUTE, BkExecute, Some 7), Drop 2, Alloc (0x1000, 1, ACCESS_EXECUTE, BkExecute, Some 7)]
     manager_new)"

lemma sample_manager_wf: "wf_manager sample_manager"
  unfolding sample_manager_def
  by (rule mgr.run_ascending [OF wf_manager_new, THEN conjunct1]) (simp add: manager_new_def)

theorem find_by_hit_spec_witness:
  "map_option bp_id (find_by_hit sample_manager 0x1000 1 ACCESS_EXECUTE 7) = Some 3
   \<and> (\<exists>bp. attributed sample_manager (\<lambda>b. matches_addr 0x1000 1 ACCESS_EXECUTE b \<and> bp_thread b = Some 7) bp \<and> bp_id bp = 3)"
proof -
  have run: "map_option (\<lambda>bp. (bp_id bp, bp_thread bp)) (find_by_hit sample_manager 0x1000 1 ACCESS_EXECUTE 7) = Some (3, Some 7)"
    by code_simp
  then obtain bp where bp: "find_by_hit sample_manager 0x1000 1 ACCESS_EXECUTE 7 = Some bp" "bp_id bp = 3" "bp_thread bp = Some 7"
    by auto
  with find_by_hit_spec [OF sample_manager_wf, of "0x1000" 1 ACCESS_EXECUTE 7 bp] show ?thesis
    by (auto simp: attributed_def)
qed

theorem data_match_is_overlap_witness:
  "matches_addr 0x1ffe 4 ACCESS_WRITE (requested 2 (0x2000, 8, ACCESS_WRITE, BkWrite, None))
   \<and> \<not> matches_addr 0x1ffe 2 ACCESS_WRITE (requested 2 (0x2000, 8, ACCESS_WRITE, BkWrite, None))"
proof -
  let ?bp = "requested 2 (0x2000, 8, ACCESS_WRITE, BkWrite, None)"
  have v: "valid_watchpoint_range (bp_addr ?bp) (bp_size ?bp)" "bp_kind ?bp \<noteq> BkExecute" by code_simp+
  have "matches_addr 0x1ffe 4 ACCESS_WRITE ?bp"
    using data_match_is_overlap [OF v, of "0x1ffe" 4 ACCESS_WRITE]
    by (simp add: requested_def intersects_def access_defs max_def word_le_nat_alt)
  moreover have "\<not> matches_addr 0x1ffe 2 ACCESS_WRITE ?bp" by code_simp
  ultimately show ?thesis by simp
qed

text \<open>
  Over any history of insertions and removals, fewer than \<open>2 ^ 64\<close> of them, the manager hands out
  strictly ascending ids, so an id a client has seen never comes to name another breakpoint.
\<close>

theorem breakpoint_ids_never_reused:
  assumes "length ops < 2 ^ 64 - 1"
  shows "sorted_wrt (<) (snd (run_table manager_alloc manager_remove ops manager_new))"
  using mgr.run_ascending [OF wf_manager_new, of ops] assms by (simp add: manager_new_def)

theorem breakpoint_ids_never_reused_witness:
  "snd (run_table manager_alloc manager_remove
     [Alloc (0x1000, 1, ACCESS_EXECUTE, BkExecute, None), Drop 1, Alloc (0x1000, 1, ACCESS_EXECUTE, BkExecute, None)] manager_new) = [1, 2]
   \<and> sorted_wrt (<) (snd (run_table manager_alloc manager_remove
     [Alloc (0x1000, 1, ACCESS_EXECUTE, BkExecute, None), Drop 1, Alloc (0x1000, 1, ACCESS_EXECUTE, BkExecute, None)] manager_new))"
proof
  show "snd (run_table manager_alloc manager_remove
     [Alloc (0x1000, 1, ACCESS_EXECUTE, BkExecute, None), Drop 1, Alloc (0x1000, 1, ACCESS_EXECUTE, BkExecute, None)] manager_new) = [1, 2]"
    by code_simp
  show "sorted_wrt (<) (snd (run_table manager_alloc manager_remove
     [Alloc (0x1000, 1, ACCESS_EXECUTE, BkExecute, None), Drop 1, Alloc (0x1000, 1, ACCESS_EXECUTE, BkExecute, None)] manager_new))"
    by (rule breakpoint_ids_never_reused) simp
qed

end
