(* ===== verification/Breakpoint_State.thy ===== *)
theory Breakpoint_State
  imports Breakpoints
begin

text \<open>
  Breakpoint and watchpoint state (\<open>target/breakpoint_state.rs\<close>): the logical table, the physical
  registry and the counters, kept in step on a cursor passed in as its add and remove operations.
  The invariant \<open>backed\<close> says that every logical breakpoint has its physical watchpoint applied;
  every operation keeps it for every cursor, failing ones included, because a failed registration
  is rolled back.
\<close>

section \<open>State and operations\<close>

record watchpoint_stats =
  adds :: u64
  removes :: u64

text \<open>The \<open>WatchpointCursor\<close> trait: the two operations the state needs of a cursor.\<close>

record 'c watchpoint_cursor =
  add_watchpoint :: "'c key_op"
  remove_watchpoint :: "'c key_op"

record breakpoint_state =
  manager :: breakpoint_manager
  watchpoints :: registry
  threads :: thread_table
  watchpoint_adds :: u64
  watchpoint_removes :: u64

definition state_new :: "thread_table \<Rightarrow> breakpoint_state" where
  "state_new tt = \<lparr>manager = manager_new, watchpoints = registry_new, threads = tt,
     watchpoint_adds = 0, watchpoint_removes = 0\<rparr>"

definition state_find_by_hit ::
  "breakpoint_state \<Rightarrow> u64 \<Rightarrow> u64 \<Rightarrow> access_mask \<Rightarrow> u64 \<Rightarrow> breakpoint option" where
  "state_find_by_hit s addr sz access thread_id = find_by_hit (manager s) addr sz access thread_id"

definition state_get :: "breakpoint_state \<Rightarrow> u64 \<Rightarrow> breakpoint option" where
  "state_get s i = manager_get (manager s) i"

definition state_watchpoint_stats :: "breakpoint_state \<Rightarrow> watchpoint_stats" where
  "state_watchpoint_stats s = \<lparr>adds = watchpoint_adds s, removes = watchpoint_removes s\<rparr>"

definition watchpoint_tid :: "thread_table \<Rightarrow> u64 option \<Rightarrow> u32" where
  "watchpoint_tid tt thread_id =
     (case Option.bind (Option.bind thread_id narrow) (uid_for_os_tid tt) of
        None \<Rightarrow> 0 | Some uid \<Rightarrow> uid)"

definition breakpoint_key :: "thread_table \<Rightarrow> breakpoint \<Rightarrow> watchpoint_key" where
  "breakpoint_key tt bp = WatchpointKey (bp_addr bp) (bp_size bp) (bp_access bp) (watchpoint_tid tt (bp_thread bp))"

definition desired_watchpoints :: "breakpoint_state \<Rightarrow> watchpoint_key btree_set" where
  "desired_watchpoints s = bs_collect (map (breakpoint_key (threads s)) (manager_active (manager s)))"

definition state_sync ::
  "'c watchpoint_cursor \<Rightarrow> breakpoint_state \<Rightarrow> 'c \<Rightarrow> breakpoint_state \<times> 'c \<times> (debug_error, unit) result" where
  "state_sync w s c =
     (let desired = desired_watchpoints s;
          (r, report, first_error, c') =
            registry_sync (add_watchpoint w) (remove_watchpoint w) desired (watchpoints s) c;
          s' = s\<lparr>watchpoints := r,
                 watchpoint_adds := watchpoint_adds s + added report,
                 watchpoint_removes := watchpoint_removes s + removed report\<rparr>
      in (s', c', case first_error of
                    Some err \<Rightarrow> Inl (BreakpointRegister (wk_addr (se_key err)) (se_source err))
                  | None \<Rightarrow> Inr ()))"

text \<open>The common tail of both registrations: synchronise, and on failure take the id out again.\<close>

definition register ::
  "'c watchpoint_cursor \<Rightarrow> breakpoint_manager \<times> u64 \<Rightarrow> breakpoint_state \<Rightarrow> 'c
     \<Rightarrow> breakpoint_state \<times> 'c \<times> (debug_error, u64) result" where
  "register w fresh s c =
     (let (m, i) = fresh; (s1, c1, res) = state_sync w (s\<lparr>manager := m\<rparr>) c
      in case res of
           Inr _ \<Rightarrow> (s1, c1, Inr i)
         | Inl e \<Rightarrow>
             let s2 = s1\<lparr>manager := fst (manager_remove (manager s1) i)\<rparr>;
                 (s3, c3, _) = state_sync w s2 c1
             in (s3, c3, Inl e))"

definition set_breakpoint ::
  "'c watchpoint_cursor \<Rightarrow> u64 \<Rightarrow> u64 option \<Rightarrow> breakpoint_state \<Rightarrow> 'c
     \<Rightarrow> breakpoint_state \<times> 'c \<times> (debug_error, u64) result" where
  "set_breakpoint w addr thread_id s c =
     register w (manager_add (manager s) addr 1 ACCESS_EXECUTE BkExecute thread_id) s c"

fun kind_access :: "breakpoint_kind \<Rightarrow> access_mask" where
  "kind_access BkExecute = ACCESS_EXECUTE"
| "kind_access BkRead = ACCESS_READ"
| "kind_access BkWrite = ACCESS_WRITE"
| "kind_access BkAccess = ACCESS_READ_WRITE"

definition set_data_breakpoint ::
  "'c watchpoint_cursor \<Rightarrow> u64 \<Rightarrow> u64 \<Rightarrow> breakpoint_kind \<Rightarrow> breakpoint_state \<Rightarrow> 'c
     \<Rightarrow> breakpoint_state \<times> 'c \<times> (debug_error, u64) result" where
  "set_data_breakpoint w addr sz kind s c =
     register w (manager_add (manager s) addr sz (kind_access kind) kind None) s c"

definition state_remove_breakpoint ::
  "'c watchpoint_cursor \<Rightarrow> u64 \<Rightarrow> breakpoint_state \<Rightarrow> 'c \<Rightarrow> breakpoint_state \<times> 'c \<times> bool" where
  "state_remove_breakpoint w i s c =
     (let (m, gone) = manager_remove (manager s) i; s1 = s\<lparr>manager := m\<rparr>
      in if gone then let (s2, c2, _) = state_sync w s1 c in (s2, c2, gone)
         else (s1, c, gone))"

definition state_remove_exact ::
  "'c watchpoint_cursor \<Rightarrow> u64 \<Rightarrow> u64 \<Rightarrow> access_mask \<Rightarrow> breakpoint_state \<Rightarrow> 'c
     \<Rightarrow> breakpoint_state \<times> 'c \<times> bool" where
  "state_remove_exact w addr sz access s c =
     (let (m, gone) = manager_remove_exact (manager s) addr sz access; s1 = s\<lparr>manager := m\<rparr>
      in if gone then let (s2, c2, _) = state_sync w s1 c in (s2, c2, gone)
         else (s1, c, gone))"

section \<open>The invariant\<close>

definition backed :: "breakpoint_state \<Rightarrow> bool" where
  "backed s \<longleftrightarrow> set (desired_watchpoints s) \<subseteq> set (applied (watchpoints s))"

definition wf_state :: "breakpoint_state \<Rightarrow> bool" where
  "wf_state s \<longleftrightarrow> wf_manager (manager s) \<and> ordered_set (applied (watchpoints s)) \<and> backed s"

lemma wf_state_new: "wf_state (state_new tt)"
  using wf_manager_new
  by (auto simp: wf_state_def state_new_def registry_new_def backed_def
      desired_watchpoints_def manager_active_def manager_new_def bt_values_def)

lemma state_sync_frame:
  assumes "state_sync w s c = (s', c', res)"
  shows "manager s' = manager s" "threads s' = threads s"
    and "desired_watchpoints s' = desired_watchpoints s"
    and "set (desired_watchpoints s) \<inter> set (applied (watchpoints s)) \<subseteq> set (applied (watchpoints s'))"
    and "ordered_set (applied (watchpoints s)) \<Longrightarrow> ordered_set (applied (watchpoints s'))"
    and "res = Inr () \<Longrightarrow> backed s'"
    and "res = Inl (BreakpointRegister a e) \<Longrightarrow>
      \<exists>k\<in>set (desired_watchpoints s) - set (applied (watchpoints s)). wk_addr k = a"
proof -
  obtain r report err c1 where
    rs: "registry_sync (add_watchpoint w) (remove_watchpoint w) (desired_watchpoints s) (watchpoints s) c
      = (r, report, err, c1)"
    using prod_cases4 by blast
  with assms have s': "s' = s\<lparr>watchpoints := r, watchpoint_adds := watchpoint_adds s + added report,
      watchpoint_removes := watchpoint_removes s + removed report\<rparr>"
    and res: "res = (case err of Some e \<Rightarrow> Inl (BreakpointRegister (wk_addr (se_key e)) (se_source e)) | None \<Rightarrow> Inr ())"
    by (auto simp: state_sync_def Let_def)
  show "manager s' = manager s" "threads s' = threads s"
    and d: "desired_watchpoints s' = desired_watchpoints s"
    by (simp_all add: s' desired_watchpoints_def)
  show "set (desired_watchpoints s) \<inter> set (applied (watchpoints s)) \<subseteq> set (applied (watchpoints s'))"
    and "ordered_set (applied (watchpoints s)) \<Longrightarrow> ordered_set (applied (watchpoints s'))"
    using registry_sync_frame [OF rs] by (simp_all add: s')
  show "res = Inr () \<Longrightarrow> backed s'"
    using res rs d registry_sync_ok [of "add_watchpoint w" "remove_watchpoint w" "desired_watchpoints s"]
    by (fastforce simp: backed_def s' split: option.splits)
  show "\<exists>k\<in>set (desired_watchpoints s) - set (applied (watchpoints s)). wk_addr k = a"
    if "res = Inl (BreakpointRegister a e)"
  proof -
    from that res obtain se where "err = Some se" "wk_addr (se_key se) = a"
      by (auto split: option.splits)
    moreover have "ordered_set (desired_watchpoints s)" by (simp add: desired_watchpoints_def)
    ultimately show ?thesis
      using registry_sync_error(1) [OF rs [unfolded \<open>err = Some se\<close>]] by (intro bexI [of _ "se_key se"])
  qed
qed

lemma state_sync_error_shape:
  "state_sync w s c = (s', c', Inl err) \<Longrightarrow> \<exists>a e. err = BreakpointRegister a e"
  by (auto simp: state_sync_def Let_def split: prod.splits option.splits)

lemma backed_shrinks:
  assumes "backed s" and "state_sync w (s\<lparr>manager := m\<rparr>) c = (s', c', res)"
    and "set (manager_active m) \<subseteq> set (manager_active (manager s))"
  shows "backed s'"
proof -
  have "set (desired_watchpoints (s\<lparr>manager := m\<rparr>)) \<subseteq> set (desired_watchpoints s)"
    using assms(3) by (auto simp: desired_watchpoints_def)
  with assms(1) state_sync_frame(3,4) [OF assms(2)] show ?thesis
    unfolding backed_def by fastforce
qed

lemma backed_manager_cong: "breakpoints m = breakpoints (manager s) \<Longrightarrow> backed (s\<lparr>manager := m\<rparr>) = backed s"
  by (simp add: backed_def desired_watchpoints_def manager_active_def)

lemma desired_add:
  assumes "wf_manager (manager s)" and "m = fst (manager_add (manager s) addr sz access kind tid)"
  shows "set (desired_watchpoints (s\<lparr>manager := m\<rparr>))
    = insert (WatchpointKey addr sz access (watchpoint_tid (threads s) tid)) (set (desired_watchpoints s))"
  using assms by (simp add: desired_watchpoints_def manager_add_active breakpoint_key_def requested_def)

text \<open>
  What a registration leaves behind, whatever the cursor answers: on success the new breakpoint is in
  the table under the returned id and all others are unchanged; on failure the table is exactly the
  old one, and the reported address is the one that was asked for.
\<close>

lemma register_cases:
  assumes wf: "wf_state s"
    and m: "manager_add (manager s) addr sz access kind tid = (m, i)"
    and call: "register w (m, i) s c = (s', c', res)"
  shows "(res = Inr i \<and> manager s' = m \<or>
          (\<exists>e. res = Inl (BreakpointRegister addr e)
             \<and> breakpoints (manager s') = breakpoints (manager s) \<and> next_id (manager s') = next_id (manager s) + 1))"
    and "backed s'" and "ordered_set (applied (watchpoints s'))" and "threads s' = threads s"
proof -
  from wf have wfm: "wf_manager (manager s)" and ord: "ordered_set (applied (watchpoints s))" and b: "backed s"
    by (auto simp: wf_state_def)
  let ?t = "s\<lparr>manager := m\<rparr>"
  obtain s1 c1 r1 where sy: "state_sync w ?t c = (s1, c1, r1)" using prod_cases3 by blast
  note f1 = state_sync_frame [OF sy]
  have des: "set (desired_watchpoints ?t) = insert (WatchpointKey addr sz access (watchpoint_tid (threads s) tid))
      (set (desired_watchpoints s))"
    using desired_add [OF wfm] m by (metis fst_conv)
  have "(res = Inr i \<and> manager s' = m \<or>
          (\<exists>e. res = Inl (BreakpointRegister addr e)
             \<and> breakpoints (manager s') = breakpoints (manager s) \<and> next_id (manager s') = next_id (manager s) + 1))
        \<and> backed s' \<and> ordered_set (applied (watchpoints s')) \<and> threads s' = threads s"
  proof (cases r1)
    case (Inr u)
    with call sy have "s' = s1" "res = Inr i" by (auto simp: register_def Let_def)
    with Inr f1 ord show ?thesis by (cases u) simp
  next
    case (Inl err)
    let ?m2 = "fst (manager_remove (manager s1) i)"
    obtain s3 c3 r3 where sy2: "state_sync w (s1\<lparr>manager := ?m2\<rparr>) c1 = (s3, c3, r3)" using prod_cases3 by blast
    from Inl call sy sy2 have s': "s' = s3" and res: "res = Inl err" by (auto simp: register_def Let_def)
    note f2 = state_sync_frame [OF sy2]
    obtain a e where err: "err = BreakpointRegister a e"
      using state_sync_error_shape [OF sy [unfolded Inl]] by blast
    have "a = addr"
      using f1(7) [of a e] Inl err des b by (auto simp: backed_def)
    moreover have bp: "breakpoints ?m2 = breakpoints (manager s)"
      using manager_remove_undoes_add [OF wfm, of addr sz access kind tid] m f1(1) by simp
    moreover have "next_id ?m2 = next_id (manager s) + 1"
      using m f1(1) mgr.alloc_counter [of "manager s" "(addr, sz, access, kind, tid)"]
      by (simp add: mgr.drop_counter manager_add_alloc)
    moreover have "backed s3"
    proof -
      have "set (desired_watchpoints (s1\<lparr>manager := ?m2\<rparr>)) = set (desired_watchpoints s)"
        using bp f1(2) by (simp add: desired_watchpoints_def manager_active_def)
      moreover have "set (desired_watchpoints s) \<subseteq> set (applied (watchpoints s1))"
        using f1(4) des b by (auto simp: backed_def)
      ultimately show ?thesis using f2(3,4) by (auto simp: backed_def)
    qed
    ultimately show ?thesis using s' res err f1 f2 ord by simp
  qed
  then show "(res = Inr i \<and> manager s' = m \<or>
          (\<exists>e. res = Inl (BreakpointRegister addr e)
             \<and> breakpoints (manager s') = breakpoints (manager s) \<and> next_id (manager s') = next_id (manager s) + 1))"
    "backed s'" "ordered_set (applied (watchpoints s'))" "threads s' = threads s"
    by blast+
qed

lemma wf_register:
  assumes "wf_state s" and "next_id (manager s) \<noteq> u64_max"
    and "register w (manager_add (manager s) addr sz access kind tid) s c = (s', c', res)"
  shows "wf_state s'"
proof -
  obtain m i where m: "manager_add (manager s) addr sz access kind tid = (m, i)" by fastforce
  note r = register_cases [OF assms(1) m assms(3) [unfolded m]]
  from assms(1) have wfm: "wf_manager (manager s)" by (simp add: wf_state_def)
  have wm: "wf_manager m" using wf_manager_add [OF wfm assms(2)] m by (metis fst_conv)
  have "next_id (manager s) < next_id (manager s) + 1" by (rule less_next [OF assms(2)])
  then have "wf_manager n" if "breakpoints n = breakpoints (manager s)" "next_id n = next_id (manager s) + 1" for n
    using that wfm by (fastforce simp: wf_manager_def)
  with r wm show ?thesis by (auto simp: wf_state_def)
qed

lemma wf_remove_sync:
  assumes "wf_state s" and "wf_manager m" and "set (manager_active m) \<subseteq> set (manager_active (manager s))"
    and "state_sync w (s\<lparr>manager := m\<rparr>) c = (s', c', res)"
  shows "wf_state s'"
  using assms backed_shrinks [of s w m c s' c' res] state_sync_frame [OF assms(4)]
  by (auto simp: wf_state_def)

lemma wf_drop_manager:
  assumes "wf_state s" and "wf_manager m" and "set (manager_active m) \<subseteq> set (manager_active (manager s))"
  shows "wf_state (s\<lparr>manager := m\<rparr>)"
  using assms by (force simp: wf_state_def backed_def desired_watchpoints_def)

lemma active_remove: "set (manager_active (fst (manager_remove m i))) \<subseteq> set (manager_active m)"
  by (auto simp: manager_remove_def bt_remove_def manager_active_def bt_values_def)

lemma active_remove_exact: "set (manager_active (fst (manager_remove_exact m a n x))) \<subseteq> set (manager_active m)"
  by (auto simp: manager_remove_exact_def bt_retain_def manager_active_def bt_values_def Let_def)

lemma wf_remove_breakpoint:
  assumes "wf_state s" and "state_remove_breakpoint w i s c = (s', c', b)"
  shows "wf_state s'"
proof -
  let ?m = "fst (manager_remove (manager s) i)"
  have m: "wf_manager ?m" using assms(1) by (simp add: wf_state_def wf_manager_remove)
  obtain s2 c2 r where "state_sync w (s\<lparr>manager := ?m\<rparr>) c = (s2, c2, r)" using prod_cases3 by blast
  with assms(2) wf_remove_sync [OF assms(1) m active_remove] wf_drop_manager [OF assms(1) m active_remove]
  show ?thesis by (auto simp: state_remove_breakpoint_def Let_def split_beta split: if_splits)
qed

lemma wf_remove_exact:
  assumes "wf_state s" and "state_remove_exact w a n x s c = (s', c', b)"
  shows "wf_state s'"
proof -
  let ?m = "fst (manager_remove_exact (manager s) a n x)"
  have m: "wf_manager ?m" using assms(1) by (simp add: wf_state_def wf_manager_remove_exact)
  obtain s2 c2 r where "state_sync w (s\<lparr>manager := ?m\<rparr>) c = (s2, c2, r)" using prod_cases3 by blast
  with assms(2) wf_remove_sync [OF assms(1) m active_remove_exact] wf_drop_manager [OF assms(1) m active_remove_exact]
  show ?thesis by (auto simp: state_remove_exact_def Let_def split_beta split: if_splits)
qed

section \<open>Histories\<close>

datatype breakpoint_call =
    SetCode u64 "u64 option"
  | SetData u64 u64 breakpoint_kind
  | RemoveId u64
  | RemoveExact u64 u64 access_mask

fun breakpoint_step :: "'c watchpoint_cursor \<Rightarrow> breakpoint_call \<Rightarrow> breakpoint_state \<times> 'c \<Rightarrow> breakpoint_state \<times> 'c" where
  "breakpoint_step w (SetCode addr tid) (s, c) = (let (s', c', _) = set_breakpoint w addr tid s c in (s', c'))"
| "breakpoint_step w (SetData addr sz kind) (s, c) = (let (s', c', _) = set_data_breakpoint w addr sz kind s c in (s', c'))"
| "breakpoint_step w (RemoveId i) (s, c) = (let (s', c', _) = state_remove_breakpoint w i s c in (s', c'))"
| "breakpoint_step w (RemoveExact addr sz access) (s, c) = (let (s', c', _) = state_remove_exact w addr sz access s c in (s', c'))"

lemma register_next_id:
  assumes "wf_state s" and "register w (manager_add (manager s) addr sz access kind tid) s c = (s', c', res)"
  shows "next_id (manager s') = next_id (manager s) + 1"
proof -
  obtain m i where m: "manager_add (manager s) addr sz access kind tid = (m, i)" by fastforce
  then have "next_id m = next_id (manager s) + 1" by (auto simp: manager_add_def Let_def)
  with register_cases(1) [OF assms(1) m assms(2) [unfolded m]] show ?thesis by auto
qed

lemma remove_next_id:
  "state_remove_breakpoint w i s c = (s', c', b) \<Longrightarrow> next_id (manager s') = next_id (manager s)"
  "state_remove_exact w addr sz access s c = (s', c', b) \<Longrightarrow> next_id (manager s') = next_id (manager s)"
  using state_sync_frame(1)
  by (fastforce simp: state_remove_breakpoint_def state_remove_exact_def manager_remove_def
      manager_remove_exact_def Let_def split: if_splits prod.splits)+

lemma breakpoint_step_wf:
  assumes "wf_state s" and "next_id (manager s) \<noteq> u64_max" and "breakpoint_step w call (s, c) = (s', c')"
  shows "wf_state s' \<and> next_id (manager s') \<in> {next_id (manager s), next_id (manager s) + 1}"
proof (cases call)
  case (SetCode addr tid)
  with assms(3) obtain res where "set_breakpoint w addr tid s c = (s', c', res)"
    by (auto split: prod.splits)
  note this [unfolded set_breakpoint_def]
  from wf_register [OF assms(1,2) this] register_next_id [OF assms(1) this] show ?thesis by simp
next
  case (SetData addr sz kind)
  with assms(3) obtain res where "set_data_breakpoint w addr sz kind s c = (s', c', res)"
    by (auto split: prod.splits)
  note this [unfolded set_data_breakpoint_def]
  from wf_register [OF assms(1,2) this] register_next_id [OF assms(1) this] show ?thesis by simp
next
  case (RemoveId i)
  with assms(3) obtain b where "state_remove_breakpoint w i s c = (s', c', b)"
    by (auto split: prod.splits)
  from wf_remove_breakpoint [OF assms(1) this] remove_next_id(1) [OF this] show ?thesis by simp
next
  case (RemoveExact addr sz access)
  with assms(3) obtain b where "state_remove_exact w addr sz access s c = (s', c', b)"
    by (auto split: prod.splits)
  from wf_remove_exact [OF assms(1) this] remove_next_id(2) [OF this] show ?thesis by simp
qed

lemma breakpoint_history_wf:
  assumes "wf_state s" and "unat (next_id (manager s)) + length calls < 2 ^ 64"
  shows "wf_state (fst (fold (breakpoint_step w) calls (s, c)))"
  using assms
proof (induction calls arbitrary: s c)
  case (Cons call calls)
  obtain s' c' where st: "breakpoint_step w call (s, c) = (s', c')" by fastforce
  have "next_id (manager s) \<noteq> u64_max" using Cons.prems(2) by (auto dest: arg_cong [where f = unat])
  note step = breakpoint_step_wf [OF Cons.prems(1) this st]
  have "unat (next_id (manager s')) + length calls < 2 ^ 64"
    using step Cons.prems(2) by (auto simp: unat_word_ariths)
  with step Cons.IH [of s' c'] st show ?case by simp
qed simp

text \<open>
  C5. Whatever sequence of insertions and removals a client makes, and whichever of the engine's
  calls fail, every breakpoint in the logical table has its physical watchpoint applied, and the
  table keeps its ids distinct, ascending and below the next one to be handed out.
\<close>

theorem breakpoints_always_backed:
  assumes "length calls < 2 ^ 64 - 1"
  shows "wf_state (fst (fold (breakpoint_step w) calls (state_new tt, c)))"
  using assms breakpoint_history_wf [OF wf_state_new, of tt calls w c]
  by (simp add: state_new_def manager_new_def)

definition accept_below :: "u64 \<Rightarrow> nat watchpoint_cursor" where
  "accept_below limit = \<lparr>
     add_watchpoint = (\<lambda>c k. (c + 1, if wk_addr k < limit then Inr () else Inl (InvalidWatchpoint (wk_addr k) (wk_size k)))),
     remove_watchpoint = (\<lambda>c k. (c + 1, if even c then Inr () else Inl (InvalidWatchpoint (wk_addr k) (wk_size k))))\<rparr>"

theorem breakpoints_always_backed_witness:
  "wf_state (fst (fold (breakpoint_step (accept_below 0x2000))
     [SetCode 0x1000 None, SetData 0x3000 4 BkWrite, SetCode 0x1000 (Some 7), RemoveId 1, RemoveExact 0x1000 1 ACCESS_EXECUTE]
     (state_new \<lparr>os_to_uid = [7 \<mapsto> 2]\<rparr>, 0)))"
  by (rule breakpoints_always_backed) simp

text \<open>
  C24. A registration either succeeds and adds exactly the requested breakpoint under the id it
  returns, or fails with the requested address and leaves the logical table as it was.
\<close>

theorem set_breakpoint_all_or_nothing:
  assumes "wf_state s" and "set_breakpoint w addr tid s c = (s', c', res)"
  shows "case res of
      Inr i \<Rightarrow> i = next_id (manager s)
        \<and> state_get s' = (state_get s)(i \<mapsto> requested i (addr, 1, ACCESS_EXECUTE, BkExecute, tid))
    | Inl e \<Rightarrow> (\<exists>src. e = BreakpointRegister addr src) \<and> state_get s' = state_get s"
proof -
  obtain m i where m: "manager_add (manager s) addr 1 ACCESS_EXECUTE BkExecute tid = (m, i)" by fastforce
  note al = mgr.alloc_id [of "manager s" "(addr, 1, ACCESS_EXECUTE, BkExecute, tid)"]
    mgr.alloc_lookup [of "manager s" "(addr, 1, ACCESS_EXECUTE, BkExecute, tid)"]
  from assms(2) m have "register w (m, i) s c = (s', c', res)" by (simp add: set_breakpoint_def)
  from register_cases(1) [OF assms(1) m this] show ?thesis
    using al m by (auto simp: manager_add_alloc state_get_def manager_get_def fun_eq_iff)
qed

theorem set_breakpoint_all_or_nothing_witness:
  "case snd (snd (set_breakpoint (accept_below 0x2000) 0x3000 None (state_new \<lparr>os_to_uid = Map.empty\<rparr>) 0)) of
      Inr i \<Rightarrow> False | Inl e \<Rightarrow> \<exists>src. e = BreakpointRegister 0x3000 src"
proof -
  let ?s = "state_new \<lparr>os_to_uid = Map.empty\<rparr>"
  obtain s' c' res where call: "set_breakpoint (accept_below 0x2000) 0x3000 None ?s 0 = (s', c', res)"
    using prod_cases3 by blast
  have "isl (snd (snd (set_breakpoint (accept_below 0x2000) 0x3000 None ?s 0)))" by code_simp
  with set_breakpoint_all_or_nothing [OF wf_state_new call] call show ?thesis
    by (cases res) auto
qed

end
