(* ===== verification/Cursor.thy ===== *)
theory Cursor
  imports Breakpoint_State
begin

text \<open>
  The replay cursor and engine wrappers (\<open>ttd/cursor.rs\<close>, \<open>ttd/engine.rs\<close>). The C++ SDK behind them
  is the record of operations \<open>cursor_api\<close> over an arbitrary cursor state and \<open>engine_api\<close> over an
  arbitrary engine state; the wrappers call these fields and nothing else. A replay reports, beside
  its outcome, the list of watchpoint hits it passed to the installed callback, in order; the installed
  callback is an argument of the replay operations.
\<close>

section \<open>The SDK's operations\<close>

datatype hit = Hit (hit_address: u64) (hit_size: u64) (hit_access: u8) (hit_thread: u32)

type_synonym shim = "u64 \<Rightarrow> u64 \<Rightarrow> u8 \<Rightarrow> u32 \<Rightarrow> bool"
type_synonym 'c replay_call = "'c \<Rightarrow> shim option \<Rightarrow> position \<Rightarrow> u64 \<Rightarrow> 'c \<times> replay_outcome \<times> hit list"

record 'c cursor_api =
  SetPosition :: "'c \<Rightarrow> position \<Rightarrow> 'c"
  GetPosition :: "'c \<Rightarrow> position"
  GetThreadInfo :: "'c \<Rightarrow> thread_info"
  ProgramCounter :: "'c \<Rightarrow> u64"
  StackPointer :: "'c \<Rightarrow> u64"
  TebAddress :: "'c \<Rightarrow> u32 \<Rightarrow> u64"
  ActiveThreadCount :: "'c \<Rightarrow> nat"
  ActiveThreadAt :: "'c \<Rightarrow> nat \<Rightarrow> active_thread"
  AddMemoryWatchpoint :: "'c \<Rightarrow> u64 \<Rightarrow> u64 \<Rightarrow> u8 \<Rightarrow> u32 \<Rightarrow> 'c \<times> bool"
  RemoveMemoryWatchpoint :: "'c \<Rightarrow> u64 \<Rightarrow> u64 \<Rightarrow> u8 \<Rightarrow> u32 \<Rightarrow> 'c \<times> bool"
  SetEventMask :: "'c \<Rightarrow> u32 \<Rightarrow> 'c"
  SetExceptionMask :: "'c \<Rightarrow> u32 \<Rightarrow> 'c"
  InterruptReplay :: "'c \<Rightarrow> 'c"
  ReplayForward :: "'c replay_call"
  ReplayBackward :: "'c replay_call"
  QueryMemory :: "'c \<Rightarrow> u64 \<Rightarrow> u8 list \<Rightarrow> u8 list \<times> nat"
  QueryMemoryWithRanges :: "'c \<Rightarrow> u64 \<Rightarrow> u8 list \<Rightarrow> memory_range list \<Rightarrow> u8 list \<times> memory_range list \<times> u64 \<times> u64"
  GetAmd64Context :: "'c \<Rightarrow> u32 \<Rightarrow> u8 list"

record ('e, 'c) engine_api =
  NewEngine :: "'e option"
  EngineIsValid :: "'e \<Rightarrow> bool"
  Load :: "'e \<Rightarrow> string \<Rightarrow> 'e \<times> bool"
  EngineArchitecture :: "'e \<Rightarrow> u8"
  EngineLifetime :: "'e \<Rightarrow> position_range"
  IndexStatus :: "'e \<Rightarrow> u8"
  BuildIndex :: "'e \<Rightarrow> 'e \<times> u8"
  ThreadCount :: "'e \<Rightarrow> nat"
  ThreadAt :: "'e \<Rightarrow> nat \<Rightarrow> thread_info"
  ModuleCount :: "'e \<Rightarrow> nat"
  ModuleAt :: "'e \<Rightarrow> nat \<Rightarrow> u64 \<times> u64"
  ModuleName :: "'e \<Rightarrow> nat \<Rightarrow> string"
  ExceptionCount :: "'e \<Rightarrow> nat"
  ExceptionAt :: "'e \<Rightarrow> nat \<Rightarrow> exception_info"
  NewCursor :: "'e \<Rightarrow> 'c option"
  CursorIsValid :: "'c \<Rightarrow> bool"

section \<open>Engine\<close>

datatype architecture = ArchX64 | ArchX86 | ArchUnknown

definition architecture_of :: "u8 \<Rightarrow> architecture" where
  "architecture_of raw = (if raw = 9 then ArchX64 else if raw = 0 then ArchX86 else ArchUnknown)"

definition engine_inner_new :: "('e, 'c) engine_api \<Rightarrow> 'e option" where
  "engine_inner_new ea = (case NewEngine ea of None \<Rightarrow> None | Some e \<Rightarrow> if EngineIsValid ea e then Some e else None)"

text \<open>\<open>ReplayEngine::open\<close>; the path is a string, so it is always valid UTF-8.\<close>

definition engine_open :: "('e, 'c) engine_api \<Rightarrow> string \<Rightarrow> (ttd_error, 'e) result" where
  "engine_open ea path =
     (case engine_inner_new ea of
        None \<Rightarrow> Inl (Ffi ''create replay engine'')
      | Some inner \<Rightarrow>
          (case Load ea inner path of (e, loaded) \<Rightarrow> if loaded then Inr e else Inl (TraceLoadFailed path)))"

definition engine_index_state :: "('e, 'c) engine_api \<Rightarrow> 'e \<Rightarrow> index_status" where
  "engine_index_state ea e = index_status_from_u8 (IndexStatus ea e)"

definition build_index :: "('e, 'c) engine_api \<Rightarrow> 'e \<Rightarrow> 'e \<times> (ttd_error, index_status) result" where
  "build_index ea e =
     (let (e', raw) = BuildIndex ea e; status = index_status_from_u8 raw
      in (e', if status = IndexLoaded then Inr status else Inl IndexBuildFailed))"

definition engine_threads :: "('e, 'c) engine_api \<Rightarrow> 'e \<Rightarrow> thread_info list" where
  "engine_threads ea e = map (ThreadAt ea e) [0..<ThreadCount ea e]"

definition engine_modules :: "('e, 'c) engine_api \<Rightarrow> 'e \<Rightarrow> replay_module list" where
  "engine_modules ea e =
     map (\<lambda>i. ReplayModule (ModuleName ea e i) (fst (ModuleAt ea e i)) (snd (ModuleAt ea e i))) [0..<ModuleCount ea e]"

definition engine_exception_events :: "('e, 'c) engine_api \<Rightarrow> 'e \<Rightarrow> exception_info list" where
  "engine_exception_events ea e = map (ExceptionAt ea e) [0..<ExceptionCount ea e]"

section \<open>Cursor\<close>

type_synonym watchpoint_fn = "u64 \<Rightarrow> u64 \<Rightarrow> access_mask \<Rightarrow> u32 \<Rightarrow> bool"

record 'c replay_cursor =
  rc_sdk :: 'c
  rc_arch :: u8
  rc_callback :: "watchpoint_fn option"

definition cursor_new :: "'c cursor_api \<Rightarrow> ('e, 'c) engine_api \<Rightarrow> 'e \<Rightarrow> (ttd_error, 'c replay_cursor) result" where
  "cursor_new ca ea e =
     (case NewCursor ea e of
        None \<Rightarrow> Inl CursorCreationFailed
      | Some c \<Rightarrow>
          if \<not> CursorIsValid ea c then Inl CursorCreationFailed
          else Inr \<lparr>rc_sdk = SetPosition ca c (Min (EngineLifetime ea e)), rc_arch = EngineArchitecture ea e,
                    rc_callback = None\<rparr>)"

definition cursor_position :: "'c cursor_api \<Rightarrow> 'c replay_cursor \<Rightarrow> position" where
  "cursor_position ca c = GetPosition ca (rc_sdk c)"

definition cursor_set_position :: "'c cursor_api \<Rightarrow> 'c replay_cursor \<Rightarrow> position \<Rightarrow> 'c replay_cursor" where
  "cursor_set_position ca c pos = c\<lparr>rc_sdk := SetPosition ca (rc_sdk c) pos\<rparr>"

definition cursor_interrupt_replay :: "'c cursor_api \<Rightarrow> 'c replay_cursor \<Rightarrow> 'c replay_cursor" where
  "cursor_interrupt_replay ca c = c\<lparr>rc_sdk := InterruptReplay ca (rc_sdk c)\<rparr>"

definition STEP_COUNT_MAX :: u64 where
  "STEP_COUNT_MAX = u64_max - 1"

definition max_position :: position where
  "max_position = position_new u64_max STEP_COUNT_MAX"

definition min_position :: position where
  "min_position = position_new 0 0"

text \<open>
  \<open>watchpoint_shim\<close>: the SDK's access type becomes an access mask. A callback is a function here, so the
  panic guard around it and around the replay call has nothing to catch; \<open>Callbacks\<close> models the guard.
\<close>

definition watchpoint_shim :: "watchpoint_fn \<Rightarrow> shim" where
  "watchpoint_shim callback address sz access thread =
     callback address sz (access_type_mask (access_type_from_u8 access)) thread"

definition cursor_replay ::
  "'c cursor_api \<Rightarrow> 'c replay_cursor \<Rightarrow> position \<Rightarrow> u64 \<Rightarrow> bool
     \<Rightarrow> 'c replay_cursor \<times> (ttd_error, replay_result) result \<times> hit list" where
  "cursor_replay ca c limit n forward =
     (let hook = map_option watchpoint_shim (rc_callback c);
          (sdk, raw, hits) = (if forward then ReplayForward ca (rc_sdk c) hook limit n
                              else ReplayBackward ca (rc_sdk c) hook limit n)
      in (c\<lparr>rc_sdk := sdk\<rparr>,
          if ro_stop_reason raw = 255 then Inl (Ffi ''replay'') else Inr (replay_result_from raw),
          hits))"

definition replay_forward where
  "replay_forward ca c limit = cursor_replay ca c limit STEP_COUNT_MAX True"

definition replay_backward where
  "replay_backward ca c limit = cursor_replay ca c limit STEP_COUNT_MAX False"

definition replay_forward_steps where
  "replay_forward_steps ca c n = cursor_replay ca c max_position n True"

definition replay_backward_steps where
  "replay_backward_steps ca c n = cursor_replay ca c min_position n False"

definition cursor_read_memory :: "'c cursor_api \<Rightarrow> 'c replay_cursor \<Rightarrow> u64 \<Rightarrow> nat \<Rightarrow> u8 list" where
  "cursor_read_memory ca c address sz =
     (let (buffer, read) = QueryMemory ca (rc_sdk c) address (replicate sz 0) in take read buffer)"

definition cursor_read_memory_ranges ::
  "'c cursor_api \<Rightarrow> 'c replay_cursor \<Rightarrow> u64 \<Rightarrow> nat \<Rightarrow> nat \<Rightarrow> u8 list \<times> memory_range list" where
  "cursor_read_memory_ranges ca c address sz max_ranges =
     (let (buffer, ranges, read, range_count) =
            QueryMemoryWithRanges ca (rc_sdk c) address (replicate sz 0)
              (replicate (max max_ranges 1) (MemoryRange 0 0 0))
      in (take (unat read) buffer, take (unat range_count) ranges))"

definition amd64_context :: "'c cursor_api \<Rightarrow> 'c replay_cursor \<Rightarrow> u32 \<Rightarrow> (ttd_error, x64_regs) result" where
  "amd64_context ca c thread =
     (if architecture_of (rc_arch c) \<noteq> ArchX64 then Inl UnsupportedArchitecture
      else case decode_amd64_context (GetAmd64Context ca (rc_sdk c) thread) of
             None \<Rightarrow> Inl (Ffi ''register context'')
           | Some regs \<Rightarrow> Inr regs)"

definition extended_context :: "'c cursor_api \<Rightarrow> 'c replay_cursor \<Rightarrow> u32 \<Rightarrow> (ttd_error, xmm_save_area) result" where
  "extended_context ca c thread = map_sum id FltSave (amd64_context ca c thread)"

definition cursor_active_thread :: "'c cursor_api \<Rightarrow> 'c replay_cursor \<Rightarrow> nat \<Rightarrow> active_thread option" where
  "cursor_active_thread ca c index =
     (if index \<ge> ActiveThreadCount ca (rc_sdk c) then None else Some (ActiveThreadAt ca (rc_sdk c) index))"

definition set_event_mask :: "'c cursor_api \<Rightarrow> u32 \<Rightarrow> 'c replay_cursor \<Rightarrow> 'c replay_cursor" where
  "set_event_mask ca bits c = c\<lparr>rc_sdk := SetEventMask ca (rc_sdk c) bits\<rparr>"

definition set_exception_mask :: "'c cursor_api \<Rightarrow> u32 \<Rightarrow> 'c replay_cursor \<Rightarrow> 'c replay_cursor" where
  "set_exception_mask ca bits c = c\<lparr>rc_sdk := SetExceptionMask ca (rc_sdk c) bits\<rparr>"

definition cursor_watchpoint ::
  "'c cursor_api \<Rightarrow> 'c replay_cursor \<Rightarrow> u64 \<Rightarrow> u64 \<Rightarrow> access_mask \<Rightarrow> u32 \<Rightarrow> 'c replay_cursor \<times> bool" where
  "cursor_watchpoint ca c address sz access thread =
     (let (sdk, accepted) = AddMemoryWatchpoint ca (rc_sdk c) address sz access thread
      in (c\<lparr>rc_sdk := sdk\<rparr>, accepted))"

definition cursor_remove_watchpoint ::
  "'c cursor_api \<Rightarrow> 'c replay_cursor \<Rightarrow> u64 \<Rightarrow> u64 \<Rightarrow> access_mask \<Rightarrow> u32 \<Rightarrow> 'c replay_cursor \<times> bool" where
  "cursor_remove_watchpoint ca c address sz access thread =
     (let (sdk, accepted) = RemoveMemoryWatchpoint ca (rc_sdk c) address sz access thread
      in (c\<lparr>rc_sdk := sdk\<rparr>, accepted))"

definition clear_watchpoint_callback :: "'c replay_cursor \<Rightarrow> 'c replay_cursor" where
  "clear_watchpoint_callback c = c\<lparr>rc_callback := None\<rparr>"

definition install_borrowed_callback :: "watchpoint_fn \<Rightarrow> 'c replay_cursor \<Rightarrow> 'c replay_cursor" where
  "install_borrowed_callback callback c = (clear_watchpoint_callback c)\<lparr>rc_callback := Some callback\<rparr>"

section \<open>The cursor as a watchpoint sink\<close>

text \<open>\<open>impl WatchpointCursor for RefCell<ReplayCursor>\<close>: the range is checked before the engine sees it.\<close>

definition sink_add :: "'c cursor_api \<Rightarrow> 'c replay_cursor key_op" where
  "sink_add ca c key =
     (if \<not> valid_watchpoint_range (wk_addr key) (wk_size key)
      then (c, Inl (InvalidWatchpoint (wk_addr key) (wk_size key)))
      else let (c', accepted) = cursor_watchpoint ca c (wk_addr key) (wk_size key) (wk_access key) (wk_tid key)
           in (c', if accepted then Inr ()
                   else Inl (WatchpointError ''add_watchpoint'' (wk_addr key) (wk_size key) (wk_access key))))"

definition sink_remove :: "'c cursor_api \<Rightarrow> 'c replay_cursor key_op" where
  "sink_remove ca c key =
     (if \<not> valid_watchpoint_range (wk_addr key) (wk_size key)
      then (c, Inl (InvalidWatchpoint (wk_addr key) (wk_size key)))
      else let (c', accepted) = cursor_remove_watchpoint ca c (wk_addr key) (wk_size key) (wk_access key) (wk_tid key)
           in (c', if accepted then Inr ()
                   else Inl (WatchpointError ''remove_watchpoint'' (wk_addr key) (wk_size key) (wk_access key))))"

definition cursor_sink :: "'c cursor_api \<Rightarrow> 'c replay_cursor watchpoint_cursor" where
  "cursor_sink ca = \<lparr>add_watchpoint = sink_add ca, remove_watchpoint = sink_remove ca\<rparr>"

end
