(* ===== verification/Sim_Engine.thy ===== *)
theory Sim_Engine
  imports Cursor
begin

text \<open>
  A small replay engine that satisfies the cursor interface, on which the witnesses of the
  properties evaluate. It records nine positions of one thread, one instruction each, at the
  addresses \<open>0x1000\<close> to \<open>0x1008\<close>; an exception is recorded at the positions in \<open>sim_faults\<close>. It is
  not a model of the SDK: the program's theorems quantify over every engine.
\<close>

record sim =
  sim_at :: nat
  sim_keys :: "watchpoint_key list"
  sim_events :: u32
  sim_faults :: "nat list"

definition sim_addr :: "nat \<Rightarrow> u64" where
  "sim_addr k = 0x1000 + word_of_nat k"

definition sim_position :: "nat \<Rightarrow> position" where
  "sim_position k = Position 1 (word_of_nat (min k 8))"

definition sim_thread :: thread_info where
  "sim_thread = ThreadInfo 2 7 (PositionRange (sim_position 0) (sim_position 8)) (PositionRange (sim_position 0) (sim_position 8))"

definition sim_watched :: "sim \<Rightarrow> u64 \<Rightarrow> bool" where
  "sim_watched c a \<longleftrightarrow> (\<exists>k\<in>set (sim_keys c). intersects (wk_access k) ACCESS_EXECUTE \<and> wk_addr k = a)"

text \<open>One instruction forward or backward, or nothing at the end of the trace.\<close>

definition sim_next :: "bool \<Rightarrow> sim \<Rightarrow> sim option" where
  "sim_next forward c =
     (if forward then if sim_at c \<ge> 8 then None else Some (c\<lparr>sim_at := sim_at c + 1\<rparr>)
      else if sim_at c = 0 then None else Some (c\<lparr>sim_at := min (sim_at c) 8 - 1\<rparr>))"

definition sim_stops :: "shim option \<Rightarrow> u64 \<Rightarrow> bool" where
  "sim_stops hook a = (case hook of Some f \<Rightarrow> f a 1 2 7 | None \<Rightarrow> True)"

definition sim_hits :: "shim option \<Rightarrow> sim \<Rightarrow> hit list" where
  "sim_hits hook c = (if sim_watched c (sim_addr (sim_at c)) \<and> hook \<noteq> None then [Hit (sim_addr (sim_at c)) 1 2 7] else [])"

fun sim_run :: "bool \<Rightarrow> shim option \<Rightarrow> nat \<Rightarrow> sim \<Rightarrow> sim \<times> u8 \<times> hit list" where
  "sim_run forward hook 0 c = (c, 5, [])"
| "sim_run forward hook (Suc n) c =
     (case sim_next forward c of
        None \<Rightarrow> (c, 6, [])
      | Some c1 \<Rightarrow>
          if sim_at c1 \<in> set (sim_faults c1) then (c1, 2, [])
          else if sim_watched c1 (sim_addr (sim_at c1)) \<and> sim_stops hook (sim_addr (sim_at c1))
          then (c1, 0, sim_hits hook c1)
          else let (c2, e, hs) = sim_run forward hook n c1 in (c2, e, sim_hits hook c1 @ hs))"

declare sim_run.simps(2) [simp del]

definition sim_replay :: "bool \<Rightarrow> sim replay_call" where
  "sim_replay forward c hook limit n =
     (let (c', e, hs) = sim_run forward hook (if unat n < 9 then unat n else 9) c
      in (c', \<lparr>ro_stop_reason = e, ro_steps = n, ro_instructions = n, ro_wp_address = sim_addr (sim_at c'),
               ro_wp_size = 1, ro_wp_access = 2\<rparr>, hs))"

definition sim_regs :: "nat \<Rightarrow> x64_regs" where
  "sim_regs k = default_regs\<lparr>Rip := sim_addr (min k 8)\<rparr>"

definition sim_SetPosition :: "sim \<Rightarrow> position \<Rightarrow> sim" where
  "sim_SetPosition c p = c\<lparr>sim_at := (if p < sim_position 0 then 0 else if sim_position 8 < p then 8 else unat (steps p))\<rparr>"

definition sim_GetPosition :: "sim \<Rightarrow> position" where
  "sim_GetPosition c = sim_position (sim_at c)"

definition sim_GetThreadInfo :: "sim \<Rightarrow> thread_info" where
  "sim_GetThreadInfo c = sim_thread"

definition sim_ProgramCounter :: "sim \<Rightarrow> u64" where
  "sim_ProgramCounter c = sim_addr (sim_at c)"

definition sim_StackPointer :: "sim \<Rightarrow> u64" where
  "sim_StackPointer c = 0x7000"

definition sim_TebAddress :: "sim \<Rightarrow> u32 \<Rightarrow> u64" where
  "sim_TebAddress c t = 0x9000"

definition sim_ActiveThreadCount :: "sim \<Rightarrow> nat" where
  "sim_ActiveThreadCount c = 1"

definition sim_ActiveThreadAt :: "sim \<Rightarrow> nat \<Rightarrow> active_thread" where
  "sim_ActiveThreadAt c i = ActiveThread sim_thread (sim_position (sim_at c))"

definition sim_AddMemoryWatchpoint :: "sim \<Rightarrow> u64 \<Rightarrow> u64 \<Rightarrow> u8 \<Rightarrow> u32 \<Rightarrow> sim \<times> bool" where
  "sim_AddMemoryWatchpoint c a n x t = (c\<lparr>sim_keys := WatchpointKey a n x t # sim_keys c\<rparr>, True)"

definition sim_RemoveMemoryWatchpoint :: "sim \<Rightarrow> u64 \<Rightarrow> u64 \<Rightarrow> u8 \<Rightarrow> u32 \<Rightarrow> sim \<times> bool" where
  "sim_RemoveMemoryWatchpoint c a n x t = (c\<lparr>sim_keys := filter (\<lambda>k. k \<noteq> WatchpointKey a n x t) (sim_keys c)\<rparr>, True)"

definition sim_SetEventMask :: "sim \<Rightarrow> u32 \<Rightarrow> sim" where
  "sim_SetEventMask c m = c\<lparr>sim_events := m\<rparr>"

definition sim_SetExceptionMask :: "sim \<Rightarrow> u32 \<Rightarrow> sim" where
  "sim_SetExceptionMask c m = c"

definition sim_QueryMemory :: "sim \<Rightarrow> u64 \<Rightarrow> u8 list \<Rightarrow> u8 list \<times> nat" where
  "sim_QueryMemory c a b = (map (\<lambda>i. ucast (a + word_of_nat i)) [0..<length b], length b)"

definition sim_QueryMemoryWithRanges :: "sim \<Rightarrow> u64 \<Rightarrow> u8 list \<Rightarrow> memory_range list \<Rightarrow> u8 list \<times> memory_range list \<times> u64 \<times> u64" where
  "sim_QueryMemoryWithRanges c a b r = (map (\<lambda>i. ucast (a + word_of_nat i)) [0..<length b],
     MemoryRange a (word_of_nat (length b)) 1 # tl r, word_of_nat (length b), 1)"

definition sim_GetAmd64Context :: "sim \<Rightarrow> u32 \<Rightarrow> u8 list" where
  "sim_GetAmd64Context c t = get_amd64_context (sim_regs (sim_at c))"

definition sim_api :: "sim cursor_api" where
  "sim_api = \<lparr>
     SetPosition = sim_SetPosition,
     GetPosition = sim_GetPosition,
     GetThreadInfo = sim_GetThreadInfo,
     ProgramCounter = sim_ProgramCounter,
     StackPointer = sim_StackPointer,
     TebAddress = sim_TebAddress,
     ActiveThreadCount = sim_ActiveThreadCount,
     ActiveThreadAt = sim_ActiveThreadAt,
     AddMemoryWatchpoint = sim_AddMemoryWatchpoint,
     RemoveMemoryWatchpoint = sim_RemoveMemoryWatchpoint,
     SetEventMask = sim_SetEventMask,
     SetExceptionMask = sim_SetExceptionMask,
     InterruptReplay = id,
     ReplayForward = sim_replay True,
     ReplayBackward = sim_replay False,
     QueryMemory = sim_QueryMemory,
     QueryMemoryWithRanges = sim_QueryMemoryWithRanges,
     GetAmd64Context = sim_GetAmd64Context\<rparr>"

definition sim_start :: sim where
  "sim_start = \<lparr>sim_at = 0, sim_keys = [], sim_events = 0, sim_faults = []\<rparr>"

definition sim_cursor :: "sim replay_cursor" where
  "sim_cursor = \<lparr>rc_sdk = sim_start, rc_arch = 9, rc_callback = None\<rparr>"

lemma sim_api_watch:
  "AddMemoryWatchpoint sim_api c a n x t = (c\<lparr>sim_keys := WatchpointKey a n x t # sim_keys c\<rparr>, True)"
  "RemoveMemoryWatchpoint sim_api c a n x t =
     (c\<lparr>sim_keys := filter (\<lambda>k. k \<noteq> WatchpointKey a n x t) (sim_keys c)\<rparr>, True)"
  by (simp_all only: sim_api_def cursor_api.simps sim_AddMemoryWatchpoint_def sim_RemoveMemoryWatchpoint_def)

lemma sim_position_mono: "k \<le> l \<Longrightarrow> sim_position k \<le> sim_position l"
  by (simp add: sim_position_def less_eq_position_def word_le_nat_alt unsigned_of_nat take_bit_eq_mod min_def)

lemma sim_next_at:
  "sim_next forward c = Some c1 \<Longrightarrow>
   if forward then sim_at c < sim_at c1 \<and> sim_at c1 \<le> 8 else sim_at c1 < min (sim_at c) 8"
  by (auto simp: sim_next_def split: if_splits)

lemma sim_run_step:
  assumes "sim_next forward c = Some c1"
  shows "fst (sim_run forward hook (Suc n) c) \<in> {c1, fst (sim_run forward hook n c1)}"
    and "fst (sim_run forward hook (Suc n) c) = c1 \<or> fst (snd (sim_run forward hook (Suc n) c)) = fst (snd (sim_run forward hook n c1))"
  using assms by (simp_all add: sim_run.simps(2) split_beta Let_def)

lemma sim_run_direction:
  "if forward then sim_at c \<le> sim_at (fst (sim_run forward hook n c)) else sim_at (fst (sim_run forward hook n c)) \<le> sim_at c"
proof (induction n arbitrary: c)
  case (Suc n)
  show ?case
  proof (cases "sim_next forward c")
    case (Some c1)
    from sim_run_step(1) [OF Some, of hook n] sim_next_at [OF Some] Suc [of c1] show ?thesis
      by (cases forward) auto
  qed (cases forward; simp add: sim_run.simps(2))
qed simp

lemma sim_run_fault:
  "fst (snd (sim_run forward hook n c)) = 2 \<Longrightarrow>
   if forward then sim_at c < sim_at (fst (sim_run forward hook n c)) \<and> sim_at c < 8
   else sim_at (fst (sim_run forward hook n c)) < min (sim_at c) 8"
proof (induction n arbitrary: c)
  case (Suc n)
  show ?case
  proof (cases "sim_next forward c")
    case None
    with Suc.prems show ?thesis by (simp add: sim_run.simps(2))
  next
    case (Some c1)
    have "if forward then sim_at c1 \<le> sim_at (fst (sim_run forward hook (Suc n) c))
          else sim_at (fst (sim_run forward hook (Suc n) c)) \<le> sim_at c1"
      using sim_run_step(1) [OF Some, of hook n] sim_run_direction [of forward c1 hook n] by (cases forward) auto
    with sim_next_at [OF Some] show ?thesis by (cases forward) auto
  qed
qed simp

lemma sim_position_less: "k < l \<Longrightarrow> k < 8 \<Longrightarrow> sim_position k \<noteq> sim_position l"
  by (auto simp: sim_position_def word_unat_eq_iff unsigned_of_nat take_bit_eq_mod min_def)

end
