(* ===== verification/Watch_Sync.thy ===== *)
theory Watch_Sync
  imports Sim_Engine
begin

text \<open>
  Breakpoint state on the replay cursor: for an engine that answers truthfully, the registry, the
  engine's own watchpoint set and the logical table agree after every history, and the engine is
  never left with a range it cannot handle.
\<close>

section \<open>What the engine is asked to watch\<close>

text \<open>
  The SDK's side of the watchpoint contract, for an observation \<open>watched\<close> of a cursor's state: an
  accepted addition or removal changes the watched set by that key, a refused one leaves it alone.
\<close>

definition honours_watchpoints :: "'c cursor_api \<Rightarrow> ('c \<Rightarrow> watchpoint_key set) \<Rightarrow> bool" where
  "honours_watchpoints ca watched \<longleftrightarrow>
     (\<forall>c a n x t. watched (fst (AddMemoryWatchpoint ca c a n x t)) =
        (if snd (AddMemoryWatchpoint ca c a n x t) then insert (WatchpointKey a n x t) (watched c) else watched c))
   \<and> (\<forall>c a n x t. watched (fst (RemoveMemoryWatchpoint ca c a n x t)) =
        (if snd (RemoveMemoryWatchpoint ca c a n x t) then watched c - {WatchpointKey a n x t} else watched c))"

definition keys_valid :: "watchpoint_key set \<Rightarrow> bool" where
  "keys_valid K \<longleftrightarrow> (\<forall>k\<in>K. valid_watchpoint_range (wk_addr k) (wk_size k))"

text \<open>The cursor and the registry agree: the registry records exactly what the engine watches.\<close>

definition in_step :: "('c \<Rightarrow> watchpoint_key set) \<Rightarrow> breakpoint_state \<Rightarrow> 'c replay_cursor \<Rightarrow> bool" where
  "in_step watched s c \<longleftrightarrow> set (applied (watchpoints s)) = watched (rc_sdk c) \<and> keys_valid (watched (rc_sdk c))"

lemma honours_add:
  assumes "honours_watchpoints ca watched"
  shows "watched (fst (AddMemoryWatchpoint ca c (wk_addr k) (wk_size k) (wk_access k) (wk_tid k))) =
    (if snd (AddMemoryWatchpoint ca c (wk_addr k) (wk_size k) (wk_access k) (wk_tid k))
     then insert k (watched c) else watched c)"
  using assms unfolding honours_watchpoints_def by (metis watchpoint_key.collapse)

lemma honours_remove:
  assumes "honours_watchpoints ca watched"
  shows "watched (fst (RemoveMemoryWatchpoint ca c (wk_addr k) (wk_size k) (wk_access k) (wk_tid k))) =
    (if snd (RemoveMemoryWatchpoint ca c (wk_addr k) (wk_size k) (wk_access k) (wk_tid k))
     then watched c - {k} else watched c)"
  using assms unfolding honours_watchpoints_def by (metis watchpoint_key.collapse)

lemma sink_add_watched:
  assumes "honours_watchpoints ca watched" and "sink_add ca c k = (c', res)"
  shows "watched (rc_sdk c') = (if ok res then insert k (watched (rc_sdk c)) else watched (rc_sdk c))"
    and "ok res \<Longrightarrow> valid_watchpoint_range (wk_addr k) (wk_size k)"
proof -
  from assms(2) have c': "c' = fst (sink_add ca c k)" and res: "res = snd (sink_add ca c k)" by simp_all
  show "watched (rc_sdk c') = (if ok res then insert k (watched (rc_sdk c)) else watched (rc_sdk c))"
    by (simp add: c' res sink_add_def cursor_watchpoint_def split_beta honours_add [OF assms(1)])
  show "ok res \<Longrightarrow> valid_watchpoint_range (wk_addr k) (wk_size k)"
    by (simp add: res sink_add_def split_beta split: if_splits)
qed

lemma sink_remove_watched:
  assumes "honours_watchpoints ca watched" and "sink_remove ca c k = (c', res)"
  shows "watched (rc_sdk c') = (if ok res then watched (rc_sdk c) - {k} else watched (rc_sdk c))"
proof -
  from assms(2) have c': "c' = fst (sink_remove ca c k)" and res: "res = snd (sink_remove ca c k)" by simp_all
  show ?thesis
    by (simp add: c' res sink_remove_def cursor_remove_watchpoint_def split_beta honours_remove [OF assms(1)])
qed

lemma sync_stale_watched:
  assumes "honours_watchpoints ca watched"
  shows "sync_stale (sink_remove ca) keys (r, rep, c) = (r', rep', c') \<Longrightarrow>
    set (applied r) = watched (rc_sdk c) \<Longrightarrow> keys_valid (watched (rc_sdk c)) \<Longrightarrow>
    set (applied r') = watched (rc_sdk c') \<and> keys_valid (watched (rc_sdk c'))"
proof (induction keys arbitrary: r rep c)
  case (Cons key keys)
  obtain c1 res where op: "sink_remove ca c key = (c1, res)" by fastforce
  let ?r = "if ok res then r\<lparr>applied := bs_remove key (applied r)\<rparr> else r"
  from Cons.prems(1) op obtain rep1 where "sync_stale (sink_remove ca) keys (?r, rep1, c1) = (r', rep', c')"
    by (cases res) auto
  moreover have "set (applied ?r) = watched (rc_sdk c1)" "keys_valid (watched (rc_sdk c1))"
    using Cons.prems sink_remove_watched [OF assms op] by (auto simp: keys_valid_def)
  ultimately show ?case by (rule Cons.IH)
qed simp

lemma sync_missing_watched:
  assumes "honours_watchpoints ca watched"
  shows "sync_missing (sink_add ca) keys (r, rep, err, c) = (r', rep', err', c') \<Longrightarrow>
    set (applied r) = watched (rc_sdk c) \<Longrightarrow> keys_valid (watched (rc_sdk c)) \<Longrightarrow>
    set (applied r') = watched (rc_sdk c') \<and> keys_valid (watched (rc_sdk c'))"
proof (induction keys arbitrary: r rep err c)
  case (Cons key keys)
  obtain c1 res where op: "sink_add ca c key = (c1, res)" by fastforce
  let ?r = "if ok res then r\<lparr>applied := bs_insert key (applied r)\<rparr> else r"
  from Cons.prems(1) op obtain rep1 err1 where "sync_missing (sink_add ca) keys (?r, rep1, err1, c1) = (r', rep', err', c')"
    by (cases res) auto
  moreover have "set (applied ?r) = watched (rc_sdk c1)" "keys_valid (watched (rc_sdk c1))"
    using Cons.prems sink_add_watched [OF assms op] by (auto simp: keys_valid_def)
  ultimately show ?case by (rule Cons.IH)
qed simp

lemma state_sync_in_step:
  assumes "honours_watchpoints ca watched" and "state_sync (cursor_sink ca) s c = (s', c', res)"
    and "in_step watched s c"
  shows "in_step watched s' c'"
proof -
  let ?stale = "bs_difference (applied (watchpoints s)) (desired_watchpoints s)"
  let ?missing = "bs_difference (desired_watchpoints s) (applied (watchpoints s))"
  obtain r1 rep1 c1 where st: "sync_stale (sink_remove ca) ?stale (watchpoints s, default_report, c) = (r1, rep1, c1)"
    using prod_cases3 by blast
  obtain r2 rep2 err c2 where ms: "sync_missing (sink_add ca) ?missing (r1, rep1, None, c1) = (r2, rep2, err, c2)"
    using prod_cases4 by blast
  from assms(2) st ms have "watchpoints s' = r2" "c' = c2"
    by (auto simp: state_sync_def registry_sync_def cursor_sink_def Let_def)
  moreover note sync_stale_watched [OF assms(1) st]
  moreover note sync_missing_watched [OF assms(1) ms]
  ultimately show ?thesis using assms(3) by (simp add: in_step_def)
qed

lemma in_step_manager [simp]: "in_step watched (s\<lparr>manager := m\<rparr>) c = in_step watched s c"
  by (simp add: in_step_def)

lemma register_in_step:
  assumes "honours_watchpoints ca watched" and "register (cursor_sink ca) fresh s c = (s', c', res)" and "in_step watched s c"
  shows "in_step watched s' c'"
proof -
  obtain m i where m: "fresh = (m, i)" by fastforce
  obtain s1 c1 r1 where sy: "state_sync (cursor_sink ca) (s\<lparr>manager := m\<rparr>) c = (s1, c1, r1)" using prod_cases3 by blast
  obtain s3 c3 r3 where sy2:
    "state_sync (cursor_sink ca) (s1\<lparr>manager := fst (manager_remove (manager s1) i)\<rparr>) c1 = (s3, c3, r3)"
    using prod_cases3 by blast
  have one: "in_step watched s1 c1" using state_sync_in_step [OF assms(1) sy] assms(3) by simp
  then have "in_step watched s3 c3" using state_sync_in_step [OF assms(1) sy2] by simp
  with one assms(2) m sy sy2 show ?thesis by (auto simp: register_def Let_def split: sum.splits)
qed

lemma breakpoint_step_in_step:
  assumes "honours_watchpoints ca watched" and "in_step watched s c"
    and "breakpoint_step (cursor_sink ca) call (s, c) = (s', c')"
  shows "in_step watched s' c'"
proof -
  have sync: "in_step watched s1 c1"
    if "state_sync (cursor_sink ca) (s\<lparr>manager := m\<rparr>) c = (s1, c1, res)" for m s1 c1 res
    using state_sync_in_step [OF assms(1) that] assms(2) by simp
  have "in_step watched s1 c1" if "register (cursor_sink ca) fresh s c = (s1, c1, res)" for fresh s1 c1 res
    by (rule register_in_step [OF assms(1) that assms(2)])
  with sync assms(2,3) show ?thesis
    by (cases call) (auto simp: set_breakpoint_def set_data_breakpoint_def state_remove_breakpoint_def
        state_remove_exact_def Let_def split: prod.splits if_splits)
qed

lemma breakpoint_history_in_step:
  assumes "honours_watchpoints ca watched"
  shows "in_step watched s c \<Longrightarrow> fold (breakpoint_step (cursor_sink ca)) calls (s, c) = (s', c') \<Longrightarrow> in_step watched s' c'"
proof (induction calls arbitrary: s c)
  case (Cons call calls)
  obtain s1 c1 where "breakpoint_step (cursor_sink ca) call (s, c) = (s1, c1)" by fastforce
  with Cons.prems Cons.IH [OF breakpoint_step_in_step [OF assms Cons.prems(1) this]] show ?case by simp
qed simp

text \<open>
  C25. With an engine that reports truthfully which watchpoints it accepted, then after any history of
  insertions and removals the registry records exactly the watchpoints the engine has, every logical
  breakpoint is among them, and every watchpoint the engine was ever left with has a safe range: non-empty,
  at most 4096 bytes, not wrapping, and canonical at both ends.
\<close>

theorem engine_watches_every_breakpoint:
  assumes "honours_watchpoints ca watched" and "watched (rc_sdk c) = {}" and "length calls < 2 ^ 64 - 1"
    and "fold (breakpoint_step (cursor_sink ca)) calls (state_new tt, c) = (s, c')"
  shows "breakpoint_key (threads s) ` set (manager_active (manager s)) \<subseteq> watched (rc_sdk c')
    \<and> set (applied (watchpoints s)) = watched (rc_sdk c') \<and> keys_valid (watched (rc_sdk c'))"
proof -
  have "in_step watched (state_new tt) c"
    using assms(2) by (simp add: in_step_def keys_valid_def state_new_def registry_new_def)
  from breakpoint_history_in_step [OF assms(1) this assms(4)] have step: "in_step watched s c'" .
  have "wf_state s"
    using breakpoint_history_wf [OF wf_state_new, of tt calls "cursor_sink ca" c] assms(3,4)
    by (simp add: state_new_def manager_new_def)
  with step show ?thesis
    by (simp add: wf_state_def backed_def desired_watchpoints_def in_step_def)
qed

theorem engine_watches_every_breakpoint_witness:
  "\<exists>s c'. fold (breakpoint_step (cursor_sink sim_api))
       [SetCode 0x1003 None, SetData 0x8000000000000000 4 BkWrite, SetData 0x1005 2 BkAccess, RemoveId 1]
       (state_new \<lparr>os_to_uid = Map.empty\<rparr>, sim_cursor) = (s, c')
     \<and> map bp_id (manager_active (manager s)) = [3]
     \<and> breakpoint_key (threads s) ` set (manager_active (manager s)) \<subseteq> set (sim_keys (rc_sdk c'))
     \<and> set (applied (watchpoints s)) = set (sim_keys (rc_sdk c')) \<and> keys_valid (set (sim_keys (rc_sdk c')))"
proof -
  let ?calls = "[SetCode 0x1003 None, SetData 0x8000000000000000 4 BkWrite, SetData 0x1005 2 BkAccess, RemoveId 1]"
  let ?run = "fold (breakpoint_step (cursor_sink sim_api)) ?calls (state_new \<lparr>os_to_uid = Map.empty\<rparr>, sim_cursor)"
  have hon: "honours_watchpoints sim_api (\<lambda>c. set (sim_keys c))"
    unfolding honours_watchpoints_def sim_api_watch by auto
  have ids: "map bp_id (manager_active (manager (fst ?run))) = [3]" by code_simp
  obtain s c' where run: "?run = (s, c')" by fastforce
  have "set (sim_keys (rc_sdk sim_cursor)) = {}" by (simp add: sim_cursor_def sim_start_def)
  note all = engine_watches_every_breakpoint [OF hon this _ run, simplified length_Cons list.size]
  show ?thesis
    by (intro exI [of _ s] exI [of _ c'] conjI all [THEN conjunct1] all [THEN conjunct2, THEN conjunct1]
        all [THEN conjunct2, THEN conjunct2] run ids [unfolded run fst_conv]) simp_all
qed

end
