(* ===== verification/Trace_Metadata.thy ===== *)
theory Trace_Metadata
  imports Watch_Sync
begin

text \<open>
  Stop reasons (\<open>target/stop_reason.rs\<close>), the flat records served to frontends
  (\<open>target/stats.rs\<close>, \<open>target/diagnostics.rs\<close>, \<open>target/module_info.rs\<close>,
  \<open>target/thread_extra_info.rs\<close>) and the immutable trace tables (\<open>target/trace_metadata.rs\<close>), with
  the exception lookup that both the continue loop and the stop enrichment use.
\<close>

section \<open>Stop reasons\<close>

datatype stop_reason =
    Breakpoint u64 u64
  | Watchpoint u64 u64 access_mask
  | StepComplete
  | TraceEnd
  | ProcessExit
  | TraceStart
  | Interrupted
  | Exception u32 u64
  | PositionReached

definition stop_reason_try_from :: "replay_result \<Rightarrow> (ttd_error, stop_reason) result" where
  "stop_reason_try_from r =
     (case stop_event r of
        EvMemoryWatchpoint \<Rightarrow> Inr (Watchpoint 0 (wp_address r) (access_type_mask (wp_access_type r)))
      | EvStepCount \<Rightarrow> Inr StepComplete
      | EvPosition \<Rightarrow> Inr PositionReached
      | EvPositionWatchpoint \<Rightarrow> Inr PositionReached
      | EvProcess \<Rightarrow> Inr ProcessExit
      | EvThread \<Rightarrow> Inr TraceEnd
      | EvException \<Rightarrow> Inr (Exception 0 0)
      | EvInterrupted \<Rightarrow> Inr Interrupted
      | EvGap \<Rightarrow> Inr StepComplete
      | EvError \<Rightarrow> Inl ReplayFailed
      | EvCount \<Rightarrow> Inl (UnsupportedEvent (stop_event r))
      | EvUnknown _ \<Rightarrow> Inl (UnsupportedEvent (stop_event r)))"

section \<open>Records for frontends\<close>

record target_stats =
  queries :: u64
  cursor_seeks :: u64
  steps_done :: u64
  replays :: u64
  stat_watchpoint_adds :: u64
  stat_watchpoint_removes :: u64

definition default_stats :: target_stats where
  "default_stats = \<lparr>queries = 0, cursor_seeks = 0, steps_done = 0, replays = 0,
     stat_watchpoint_adds = 0, stat_watchpoint_removes = 0\<rparr>"

datatype module_info = ModuleInfo (base_addr: u64) (mod_size: u64) (mod_name: string)

datatype thread_extra_info =
  ThreadExtraInfo (tei_unique_id: u32) (tei_current_position: position) (tei_teb: u64)

datatype thread_diagnostics =
  ThreadDiagnostics (td_unique_id: u32) (td_os_thread_id: u32) (td_active_time: "position \<times> position")

record target_diagnostics =
  diag_first :: position
  diag_last :: position
  diag_current :: position
  diag_threads :: "thread_diagnostics list"
  diag_exception_count :: u32
  diag_module_count :: u32
  diag_index_status :: index_status

section \<open>Trace metadata\<close>

record trace_metadata =
  first_position :: position
  last_position :: position
  md_threads :: thread_table
  md_thread_diagnostics :: "thread_diagnostics list"
  md_modules :: "module_info list"
  md_exceptions :: "exception_info list"
  md_index_status :: index_status

definition metadata_new ::
  "thread_info list \<Rightarrow> module_info list \<Rightarrow> exception_info list \<Rightarrow> position \<Rightarrow> position \<Rightarrow> trace_metadata" where
  "metadata_new ts modules exceptions first_pos last_pos =
     \<lparr>first_position = first_pos, last_position = last_pos,
      md_threads = from_engine_threads ts,
      md_thread_diagnostics =
        map (\<lambda>t. ThreadDiagnostics (UniqueId t) (Id t) (Min (ActiveTime t), Max (ActiveTime t))) ts,
      md_modules = modules,
      md_exceptions = sort_key ex_position exceptions,
      md_index_status = IndexLoaded\<rparr>"

definition with_index_status :: "trace_metadata \<Rightarrow> index_status \<Rightarrow> trace_metadata" where
  "with_index_status md status = md\<lparr>md_index_status := status\<rparr>"

definition metadata_from_engine :: "('e, 'c) engine_api \<Rightarrow> 'e \<Rightarrow> trace_metadata" where
  "metadata_from_engine ea e =
     with_index_status
       (metadata_new (engine_threads ea e)
          (map (\<lambda>m. ModuleInfo (rm_address m) (rm_size m) (rm_name m)) (engine_modules ea e))
          (engine_exception_events ea e)
          (Min (EngineLifetime ea e)) (Max (EngineLifetime ea e)))
       (engine_index_state ea e)"

definition metadata_lifetime :: "trace_metadata \<Rightarrow> position \<times> position" where
  "metadata_lifetime md = (first_position md, last_position md)"

definition first_os_tid :: "trace_metadata \<Rightarrow> u64 option" where
  "first_os_tid md =
     (case md_thread_diagnostics md of [] \<Rightarrow> None | t # _ \<Rightarrow> Some (ucast (td_os_thread_id t)))"

definition last_opt :: "'a list \<Rightarrow> 'a option" where
  "last_opt xs = (if xs = [] then None else Some (last xs))"

definition exception_at :: "trace_metadata \<Rightarrow> position \<Rightarrow> exception_info option" where
  "exception_at md pos =
     last_opt (filter (\<lambda>e. seq_id (ex_position e) = seq_id pos)
                 (takeWhile (\<lambda>e. ex_position e \<le> pos) (md_exceptions md)))"

definition exception_code_at :: "trace_metadata \<Rightarrow> position \<Rightarrow> u32 option" where
  "exception_code_at md pos = map_option code (exception_at md pos)"

text \<open>\<open>count_u32\<close> panics on a length that does not fit; that is the value \<open>None\<close>.\<close>

definition count_u32 :: "nat \<Rightarrow> u32 option" where
  "count_u32 len = (if len < 2 ^ 32 then Some (word_of_nat len) else None)"

definition metadata_diagnostics :: "trace_metadata \<Rightarrow> position \<Rightarrow> target_diagnostics option" where
  "metadata_diagnostics md current =
     (case (count_u32 (length (md_exceptions md)), count_u32 (length (md_modules md))) of
        (Some ne, Some nm) \<Rightarrow>
          Some \<lparr>diag_first = first_position md, diag_last = last_position md, diag_current = current,
                diag_threads = md_thread_diagnostics md, diag_exception_count = ne,
                diag_module_count = nm, diag_index_status = md_index_status md\<rparr>
      | _ \<Rightarrow> None)"

section \<open>The exception lookup\<close>

definition exceptions_sorted :: "trace_metadata \<Rightarrow> bool" where
  "exceptions_sorted md \<longleftrightarrow> sorted (map ex_position (md_exceptions md))"

lemma exceptions_sorted_new [simp]: "exceptions_sorted (metadata_new ts ms es a b)"
  by (simp add: exceptions_sorted_def metadata_new_def)

lemma exceptions_sorted_from_engine [simp]: "exceptions_sorted (metadata_from_engine ea e)"
  by (simp add: metadata_from_engine_def with_index_status_def exceptions_sorted_def metadata_new_def)

lemma takeWhile_sorted:
  fixes f :: "'a \<Rightarrow> 'k::linorder"
  shows "sorted (map f xs) \<Longrightarrow> takeWhile (\<lambda>x. f x \<le> k) xs = filter (\<lambda>x. f x \<le> k) xs"
proof (induction xs)
  case (Cons x xs)
  then show ?case
  proof (cases "f x \<le> k")
    case False
    with Cons.prems have "\<forall>y\<in>set xs. \<not> f y \<le> k" by auto
    with False show ?thesis by (simp add: filter_empty_conv)
  qed simp
qed simp

lemma last_greatest:
  fixes f :: "'a \<Rightarrow> 'k::linorder"
  shows "sorted (map f xs) \<Longrightarrow> x \<in> set xs \<Longrightarrow> f x \<le> f (last xs)"
  by (induction xs) (auto split: if_splits)

lemma exception_at_filter:
  assumes "exceptions_sorted md"
  shows "exception_at md pos =
    last_opt (filter (\<lambda>e. ex_position e \<le> pos \<and> seq_id (ex_position e) = seq_id pos) (md_exceptions md))"
  using assms by (simp add: exception_at_def exceptions_sorted_def takeWhile_sorted conj_commute)

text \<open>
  The exception attached to a stop is the latest recorded one at or before the stop within the
  stop's own sequence: no recorded event of that sequence lies strictly between the two, and the
  answer is empty exactly when the sequence has no event up to the stop.
\<close>

theorem exception_at_latest:
  assumes "exceptions_sorted md"
  shows "case exception_at md pos of
      None \<Rightarrow> \<forall>e\<in>set (md_exceptions md). seq_id (ex_position e) = seq_id pos \<longrightarrow> pos < ex_position e
    | Some e \<Rightarrow> e \<in> set (md_exceptions md) \<and> seq_id (ex_position e) = seq_id pos \<and> ex_position e \<le> pos
        \<and> (\<forall>e'\<in>set (md_exceptions md). seq_id (ex_position e') = seq_id pos \<and> ex_position e' \<le> pos
             \<longrightarrow> ex_position e' \<le> ex_position e)"
proof -
  let ?xs = "filter (\<lambda>e. ex_position e \<le> pos \<and> seq_id (ex_position e) = seq_id pos) (md_exceptions md)"
  have at: "exception_at md pos = last_opt ?xs" by (rule exception_at_filter [OF assms])
  show ?thesis
  proof (cases "?xs = []")
    case True
    then show ?thesis by (auto simp: at last_opt_def filter_empty_conv not_le)
  next
    case False
    then have "last ?xs \<in> set ?xs" by (rule last_in_set)
    moreover have "sorted (map ex_position ?xs)"
      using assms by (simp add: exceptions_sorted_def sorted_filter)
    ultimately show ?thesis
      using False last_greatest [of ex_position ?xs] by (auto simp: at last_opt_def)
  qed
qed

theorem exception_at_latest_witness:
  "exception_at (metadata_new [] []
     [ExceptionInfo (Position 5 9) 3 0 0, ExceptionInfo (Position 5 2) 2 0 0, ExceptionInfo (Position 3 0) 1 0 0]
     (Position 0 0) (Position 9 0)) (Position 5 4) = Some (ExceptionInfo (Position 5 2) 2 0 0)
   \<and> exceptions_sorted (metadata_new [] [] [ExceptionInfo (Position 5 9) 3 0 0] (Position 0 0) (Position 9 0))"
  using exception_at_latest [of "metadata_new [] []
     [ExceptionInfo (Position 5 9) 3 0 0, ExceptionInfo (Position 5 2) 2 0 0, ExceptionInfo (Position 3 0) 1 0 0]
     (Position 0 0) (Position 9 0)" "Position 5 4"]
  by (simp add: metadata_new_def exception_at_def last_opt_def less_eq_position_def exceptions_sorted_def)

end
