(* ===== verification/Cursors.thy ===== *)
theory Cursors
  imports Trace_Metadata
begin

text \<open>
  Lazily positioned cursors (\<open>target/cursors.rs\<close>): a cursor with the position it is known to be at,
  and the pair a process owns, one that carries the client's watchpoints and serves queries, one
  that only steps. The cache is \<open>coherent\<close> when the position it remembers, if any, is the engine's.
\<close>

section \<open>Operations\<close>

record 'c positioned_cursor =
  pc_cursor :: "'c replay_cursor"
  pc_at :: "position option"

definition seek :: "'c cursor_api \<Rightarrow> 'c replay_cursor \<Rightarrow> position \<Rightarrow> 'c replay_cursor" where
  "seek ca c pos = cursor_set_position ca c pos"

definition replay_to ::
  "'c cursor_api \<Rightarrow> 'c replay_cursor \<Rightarrow> position \<Rightarrow> bool
     \<Rightarrow> 'c replay_cursor \<times> (ttd_error, replay_result) result \<times> hit list" where
  "replay_to ca c limit forward = (if forward then replay_forward ca c limit else replay_backward ca c limit)"

definition position_of :: "'c cursor_api \<Rightarrow> 'c replay_cursor \<Rightarrow> position" where
  "position_of ca c = cursor_position ca c"

definition current_tid :: "'c cursor_api \<Rightarrow> 'c replay_cursor \<Rightarrow> u32" where
  "current_tid ca c = Id (GetThreadInfo ca (rc_sdk c))"

definition positioned_new :: "'c replay_cursor \<Rightarrow> 'c positioned_cursor" where
  "positioned_new c = \<lparr>pc_cursor = c, pc_at = None\<rparr>"

definition prepare :: "'c cursor_api \<Rightarrow> position \<Rightarrow> 'c positioned_cursor \<Rightarrow> 'c positioned_cursor \<times> bool" where
  "prepare ca pos pc =
     (if pc_at pc = Some pos then (pc, False)
      else let c = seek ca (pc_cursor pc) pos
           in (pc\<lparr>pc_cursor := c, pc_at := Some (position_of ca c)\<rparr>, True))"

definition invalidate :: "'c positioned_cursor \<Rightarrow> 'c positioned_cursor" where
  "invalidate pc = pc\<lparr>pc_at := None\<rparr>"

definition note_position :: "position \<Rightarrow> 'c positioned_cursor \<Rightarrow> 'c positioned_cursor" where
  "note_position pos pc = pc\<lparr>pc_at := Some pos\<rparr>"

text \<open>
  The callback is installed for the duration of \<open>f\<close>; \<open>f\<close> may not return, which is the value \<open>None\<close>.
\<close>

definition with_watchpoint_callback ::
  "watchpoint_fn \<Rightarrow> ('c replay_cursor \<Rightarrow> ('c replay_cursor \<times> 'r) option) \<Rightarrow> 'c positioned_cursor
     \<Rightarrow> ('c positioned_cursor \<times> 'r) option" where
  "with_watchpoint_callback cb f pc =
     (case f (install_borrowed_callback cb (pc_cursor pc)) of
        None \<Rightarrow> None
      | Some (c, r) \<Rightarrow> Some (pc\<lparr>pc_cursor := clear_watchpoint_callback c\<rparr>, r))"

record 'c cursor_pair =
  persistent :: "'c positioned_cursor"
  step_cursor :: "'c positioned_cursor"

definition EXCEPTION_MASK :: u32 where
  "EXCEPTION_MASK = EXCEPTION_MASK_ALL"

definition cursor_pair_new ::
  "'c cursor_api \<Rightarrow> ('e, 'c) engine_api \<Rightarrow> 'e \<Rightarrow> (ttd_error, 'c cursor_pair) result" where
  "cursor_pair_new ca ea e =
     (case cursor_new ca ea e of
        Inl _ \<Rightarrow> Inl CursorCreationFailed
      | Inr p \<Rightarrow>
          (case cursor_new ca ea e of
             Inl _ \<Rightarrow> Inl CursorCreationFailed
           | Inr s \<Rightarrow>
               Inr \<lparr>persistent = positioned_new p,
                    step_cursor = positioned_new (set_event_mask ca EVENT_EXCEPTION (set_exception_mask ca EXCEPTION_MASK s))\<rparr>))"

section \<open>Cache coherence\<close>

definition coherent :: "'c cursor_api \<Rightarrow> 'c positioned_cursor \<Rightarrow> bool" where
  "coherent ca pc \<longleftrightarrow> (case pc_at pc of None \<Rightarrow> True | Some pos \<Rightarrow> position_of ca (pc_cursor pc) = pos)"

lemma coherent_new [simp]: "coherent ca (positioned_new c)"
  by (simp add: coherent_def positioned_new_def)

lemma coherent_invalidate [simp]: "coherent ca (invalidate pc)"
  by (simp add: coherent_def invalidate_def)

lemma coherent_note [simp]:
  "coherent ca (note_position pos pc) \<longleftrightarrow> position_of ca (pc_cursor pc) = pos"
  by (auto simp: coherent_def note_position_def)

lemma prepare_coherent: "coherent ca pc \<Longrightarrow> coherent ca (fst (prepare ca pos pc))"
  by (auto simp: prepare_def coherent_def Let_def split: option.splits)

lemma prepare_at:
  assumes "coherent ca pc"
  shows "position_of ca (pc_cursor (fst (prepare ca pos pc))) =
    (if pc_at pc = Some pos then pos else position_of ca (seek ca (pc_cursor pc) pos))"
  using assms by (auto simp: prepare_def coherent_def Let_def split: option.splits)

lemma cursor_pair_new_coherent:
  "cursor_pair_new ca ea e = Inr pair \<Longrightarrow> coherent ca (persistent pair) \<and> coherent ca (step_cursor pair)"
  by (auto simp: cursor_pair_new_def split: sum.splits)

text \<open>
  What the engine documents of its positions: moving to a position where a cursor has been lands
  exactly there (only other positions are rounded), and watchpoints and masks do not move a cursor.
\<close>

definition lands :: "'c cursor_api \<Rightarrow> bool" where
  "lands ca \<longleftrightarrow> (\<forall>c c'. GetPosition ca (SetPosition ca c (GetPosition ca c')) = GetPosition ca c')"

definition position_stable :: "'c cursor_api \<Rightarrow> bool" where
  "position_stable ca \<longleftrightarrow>
     (\<forall>c a n x t. GetPosition ca (fst (AddMemoryWatchpoint ca c a n x t)) = GetPosition ca c)
   \<and> (\<forall>c a n x t. GetPosition ca (fst (RemoveMemoryWatchpoint ca c a n x t)) = GetPosition ca c)
   \<and> (\<forall>c m. GetPosition ca (SetEventMask ca c m) = GetPosition ca c)
   \<and> (\<forall>c m. GetPosition ca (SetExceptionMask ca c m) = GetPosition ca c)"

definition valid_position :: "'c cursor_api \<Rightarrow> position \<Rightarrow> bool" where
  "valid_position ca pos \<longleftrightarrow> (\<exists>c. GetPosition ca c = pos)"

lemma prepare_valid:
  assumes "lands ca" and "coherent ca pc" and "valid_position ca pos"
  shows "position_of ca (pc_cursor (fst (prepare ca pos pc))) = pos"
proof -
  from assms have "position_of ca (seek ca (pc_cursor pc) pos) = pos"
    by (auto simp: seek_def cursor_set_position_def position_of_def cursor_position_def lands_def valid_position_def)
  with prepare_at [OF assms(2)] show ?thesis by simp
qed

lemma position_of_valid: "valid_position ca (position_of ca c)"
  by (auto simp: valid_position_def position_of_def cursor_position_def)

lemma masks_keep_position:
  assumes "position_stable ca"
  shows "position_of ca (set_event_mask ca m c) = position_of ca c"
    "position_of ca (set_exception_mask ca m c) = position_of ca c"
  using assms by (simp_all add: position_of_def cursor_position_def set_event_mask_def
      set_exception_mask_def position_stable_def)

end
