(* ===== verification/Process.thy ===== *)
theory Process
  imports Cursors
begin

text \<open>
  The debug engine (\<open>target/process.rs\<close>, \<open>target/process/execution.rs\<close>,
  \<open>target/process/target_impl.rs\<close>). A method that takes \<open>&self\<close> still moves the persistent cursor and
  counts, so every operation returns the process. A verb may return, panic, or keep replaying for
  ever: the constructors of \<open>run\<close>.
\<close>

datatype 'a run = Ret 'a | Panic string | Spin

section \<open>State\<close>

text \<open>
  What the interrupt slot holds: no address, or that of the cursor being replayed. The process publishes
  its persistent cursor and no other, and that cursor is boxed, so its address never changes.
\<close>

datatype replay_handle = NoReplay | PersistentCursor

record 'c ttd_process =
  tp_cursors :: "'c cursor_pair"
  tp_stats :: target_stats
  tp_position :: position
  tp_lifetime :: "position \<times> position"
  ends_with_process_exit :: bool
  current_thread_id :: "u64 option"
  metadata :: trace_metadata
  tp_breakpoints :: breakpoint_state
  active_replay :: replay_handle
  interrupt_epoch :: u64

type_synonym ('c, 'a) verb = "'c ttd_process \<Rightarrow> ('c ttd_process \<times> (debug_error, 'a) result) run"

definition bump :: "(target_stats \<Rightarrow> target_stats) \<Rightarrow> 'c ttd_process \<Rightarrow> 'c ttd_process" where
  "bump f p = p\<lparr>tp_stats := f (tp_stats p)\<rparr>"

definition map_persistent ::
  "('c positioned_cursor \<Rightarrow> 'c positioned_cursor) \<Rightarrow> 'c ttd_process \<Rightarrow> 'c ttd_process" where
  "map_persistent f p = p\<lparr>tp_cursors := (tp_cursors p)\<lparr>persistent := f (persistent (tp_cursors p))\<rparr>\<rparr>"

definition map_step ::
  "('c positioned_cursor \<Rightarrow> 'c positioned_cursor) \<Rightarrow> 'c ttd_process \<Rightarrow> 'c ttd_process" where
  "map_step f p = p\<lparr>tp_cursors := (tp_cursors p)\<lparr>step_cursor := f (step_cursor (tp_cursors p))\<rparr>\<rparr>"

abbreviation persistent_cursor :: "'c ttd_process \<Rightarrow> 'c replay_cursor" where
  "persistent_cursor p \<equiv> pc_cursor (persistent (tp_cursors p))"

section \<open>The interrupt slot\<close>

definition publish :: "'c ttd_process \<Rightarrow> 'c ttd_process" where
  "publish p = p\<lparr>active_replay := PersistentCursor\<rparr>"

definition clear_slot :: "'c ttd_process \<Rightarrow> 'c ttd_process" where
  "clear_slot p = p\<lparr>active_replay := NoReplay\<rparr>"

definition slot_interrupt :: "'c cursor_api \<Rightarrow> 'c ttd_process \<Rightarrow> 'c ttd_process" where
  "slot_interrupt ca p =
     (case active_replay p of
        NoReplay \<Rightarrow> p
      | PersistentCursor \<Rightarrow> map_persistent (\<lambda>pc. pc\<lparr>pc_cursor := cursor_interrupt_replay ca (pc_cursor pc)\<rparr>) p)"

section \<open>Cursor plumbing\<close>

text \<open>\<open>at_position\<close>, for a read \<open>f\<close> of the positioned cursor.\<close>

definition at_position ::
  "'c cursor_api \<Rightarrow> position \<Rightarrow> ('c replay_cursor \<Rightarrow> 'r) \<Rightarrow> 'c ttd_process \<Rightarrow> 'c ttd_process \<times> 'r" where
  "at_position ca pos f p =
     (let (pc, seeked) = prepare ca pos (persistent (tp_cursors p));
          p1 = map_persistent (\<lambda>_. pc) p;
          p2 = (if seeked then bump (\<lambda>s. s\<lparr>cursor_seeks := cursor_seeks s + 1\<rparr>) p1 else p1)
      in (p2, f (persistent_cursor p2)))"

definition with_cursor ::
  "'c cursor_api \<Rightarrow> ('c replay_cursor \<Rightarrow> 'r) \<Rightarrow> 'c ttd_process \<Rightarrow> 'c ttd_process \<times> 'r" where
  "with_cursor ca f p = at_position ca (tp_position p) f (bump (\<lambda>s. s\<lparr>queries := queries s + 1\<rparr>) p)"

definition os_tid :: "u64 option \<Rightarrow> 'c ttd_process \<Rightarrow> u32 option" where
  "os_tid thread_id p =
     (case thread_id of Some i \<Rightarrow> narrow i | None \<Rightarrow> Option.bind (current_thread_id p) narrow)"

definition resolve_step_range_tid :: "u64 option \<Rightarrow> u64 option \<Rightarrow> thread_table \<Rightarrow> u32" where
  "resolve_step_range_tid thread_id current tt =
     (case Option.bind thread_id (\<lambda>i. Option.bind (narrow i) (\<lambda>t. if contains_os_tid tt t then Some t else None)) of
        Some t \<Rightarrow> t
      | None \<Rightarrow> (case Option.bind current narrow of Some t \<Rightarrow> t | None \<Rightarrow> 0))"

definition step_range_tid :: "u64 option \<Rightarrow> 'c ttd_process \<Rightarrow> u32" where
  "step_range_tid thread_id p = resolve_step_range_tid thread_id (current_thread_id p) (md_threads (metadata p))"

definition adopt_cursor_position :: "'c cursor_api \<Rightarrow> 'c ttd_process \<Rightarrow> 'c ttd_process" where
  "adopt_cursor_position ca p =
     (let pos = position_of ca (persistent_cursor p);
          tid = current_tid ca (persistent_cursor p)
      in (map_persistent (note_position pos) (p\<lparr>tp_position := pos\<rparr>))
           \<lparr>current_thread_id := (if tid = 0 then None else Some (ucast tid))\<rparr>)"

section \<open>Replay\<close>

definition FIRST_CHANCE_EXCEPTION_CODES :: "u32 list" where
  "FIRST_CHANCE_EXCEPTION_CODES = [0xE06D7363, 0x20474343]"

text \<open>
  The loop of \<open>replay_past_transparent_exceptions\<close>: \<open>previous\<close> is the position of the last exception
  that was passed over, \<open>hits\<close> what the callback has been given so far.
\<close>

partial_function (option) replay_past ::
  "'c cursor_api \<Rightarrow> trace_metadata \<Rightarrow> position \<Rightarrow> bool \<Rightarrow> position option \<Rightarrow> hit list \<Rightarrow> 'c replay_cursor
     \<Rightarrow> ('c replay_cursor \<times> (ttd_error, replay_result) result \<times> hit list) option" where
  "replay_past ca md limit forward previous hits c =
     (case replay_to ca c limit forward of (c', res, hs) \<Rightarrow>
        (case res of
           Inl _ \<Rightarrow> Some (c', Inl (Ffi ''replay failed''), hits @ hs)
         | Inr result \<Rightarrow>
             if stop_event result \<noteq> EvException then Some (c', Inr result, hits @ hs)
             else if previous = Some (position_of ca c') then Some (c', Inr result, hits @ hs)
             else (case exception_code_at md (position_of ca c') of
                     None \<Rightarrow> Some (c', Inr result, hits @ hs)
                   | Some ecode \<Rightarrow>
                       if ecode \<notin> set FIRST_CHANCE_EXCEPTION_CODES then Some (c', Inr result, hits @ hs)
                       else replay_past ca md limit forward (Some (position_of ca c')) (hits @ hs) c')))"

declare replay_past.simps [code]

definition classify_continue_stop ::
  "replay_result \<Rightarrow> u64 \<Rightarrow> breakpoint option \<Rightarrow> bool \<Rightarrow> position \<Rightarrow> position \<times> position \<Rightarrow> bool
     \<Rightarrow> stop_reason option" where
  "classify_continue_stop result hit_bp_id bp forward pos lifetime ends_with_exit =
     (if hit_bp_id \<noteq> 0 then
        (let addr = (case bp of None \<Rightarrow> wp_address result | Some b \<Rightarrow> bp_addr b)
         in Some (case bp of
                Some b \<Rightarrow> if bp_kind b = BkExecute then Breakpoint hit_bp_id addr
                          else Watchpoint hit_bp_id addr (bp_access b)
              | None \<Rightarrow> Watchpoint hit_bp_id addr (access_type_mask (wp_access_type result))))
      else if forward \<and> ends_with_exit \<and> pos \<ge> snd lifetime then Some ProcessExit
      else if forward \<and> stop_event result = EvProcess then Some ProcessExit
      else if \<not> forward \<and> pos \<le> fst lifetime then Some TraceStart
      else if forward \<and> pos \<ge> snd lifetime then Some TraceEnd
      else None)"

definition enrich_exception :: "'c ttd_process \<Rightarrow> stop_reason \<Rightarrow> stop_reason" where
  "enrich_exception p reason =
     (case reason of
        Exception c a \<Rightarrow>
          if c = 0 then
            (case exception_at (metadata p) (tp_position p) of
               None \<Rightarrow> reason
             | Some ev \<Rightarrow> Exception (code ev) (record_address ev))
          else reason
      | _ \<Rightarrow> reason)"

text \<open>The watchpoint callback: its answer, and the id it stores, for one reported hit.\<close>

definition hit_breakpoint :: "breakpoint_state \<Rightarrow> u64 \<Rightarrow> u64 \<Rightarrow> access_mask \<Rightarrow> u32 \<Rightarrow> breakpoint option" where
  "hit_breakpoint bs addr sz access thread_id = state_find_by_hit bs addr sz access (ucast thread_id)"

definition hit_callback :: "breakpoint_state \<Rightarrow> watchpoint_fn" where
  "hit_callback bs addr sz access thread_id = (hit_breakpoint bs addr sz access thread_id \<noteq> None)"

definition store_hit :: "breakpoint_state \<Rightarrow> hit \<Rightarrow> u64 \<Rightarrow> u64" where
  "store_hit bs h stored =
     (case hit_breakpoint bs (hit_address h) (hit_size h)
             (access_type_mask (access_type_from_u8 (hit_access h))) (hit_thread h) of
        Some bp \<Rightarrow> bp_id bp | None \<Rightarrow> stored)"

text \<open>
  The replay behind a continue. The slot names the cursor exactly while the loop runs: the guard
  clears it on every way out. What an interrupt during the replay does is the engine's answer, an
  outcome of \<open>ReplayForward\<close> or \<open>ReplayBackward\<close>. The callback is a table look-up and cannot panic, so
  the branch that re-raises a panic of the replay is never taken.
\<close>

definition replay_watchpoint_filtered ::
  "'c cursor_api \<Rightarrow> position \<Rightarrow> bool \<Rightarrow> ('c, replay_result \<times> u64) verb" where
  "replay_watchpoint_filtered ca limit forward p =
     (let p1 = map_persistent (\<lambda>pc. pc\<lparr>pc_cursor := set_exception_mask ca EXCEPTION_MASK (pc_cursor pc)\<rparr>) p;
          (p2, _) = at_position ca (tp_position p1) (\<lambda>_. ()) p1;
          p3 = bump (\<lambda>s. s\<lparr>replays := replays s + 1\<rparr>) p2;
          bs = tp_breakpoints p3;
          p4 = publish p3
      in case with_watchpoint_callback (hit_callback bs)
                (\<lambda>c. replay_past ca (metadata p4) limit forward None []
                       (set_event_mask ca (EVENT_MEMORY_WATCHPOINT OR EVENT_EXCEPTION) c))
                (persistent (tp_cursors p4)) of
           None \<Rightarrow> Spin
         | Some (pc, Inl e, hits) \<Rightarrow> Ret (map_persistent (\<lambda>_. invalidate pc) (clear_slot p4), Inl (Ttd e))
         | Some (pc, Inr r, hits) \<Rightarrow> Ret (map_persistent (\<lambda>_. pc) (clear_slot p4), Inr (r, fold (store_hit bs) hits 0)))"

definition resolve_continue_stop ::
  "replay_result \<Rightarrow> u64 \<Rightarrow> bool \<Rightarrow> 'c ttd_process \<Rightarrow> (debug_error, stop_reason) result" where
  "resolve_continue_stop result hit_bp_id forward p =
     (let bp = (if hit_bp_id \<noteq> 0 then state_get (tp_breakpoints p) hit_bp_id else None)
      in case classify_continue_stop result hit_bp_id bp forward (tp_position p) (tp_lifetime p)
                (ends_with_process_exit p) of
           Some reason \<Rightarrow> Inr reason
         | None \<Rightarrow> (case stop_reason_try_from result of
                      Inl e \<Rightarrow> Inl (Ttd e)
                    | Inr reason \<Rightarrow> Inr (enrich_exception p reason)))"

definition watchpoint_replay :: "'c cursor_api \<Rightarrow> position \<Rightarrow> bool \<Rightarrow> ('c, stop_reason) verb" where
  "watchpoint_replay ca limit forward p =
     (case replay_watchpoint_filtered ca limit forward p of
        Ret (p1, Inr (result, hit_bp_id)) \<Rightarrow>
          let p2 = adopt_cursor_position ca p1 in Ret (p2, resolve_continue_stop result hit_bp_id forward p2)
      | Ret (p1, Inl e) \<Rightarrow> Ret (p1, Inl e)
      | Panic s \<Rightarrow> Panic s
      | Spin \<Rightarrow> Spin)"

text \<open>
  One step on the watchpoint-free cursor. The argument of \<open>unwrap_or\<close> is evaluated first, so an event
  that has no stop reason is an error even at a trace boundary.
\<close>

definition step_on_step_cursor ::
  "'c cursor_api \<Rightarrow> bool \<Rightarrow> 'c ttd_process \<Rightarrow> 'c ttd_process \<times> (debug_error, stop_reason) result" where
  "step_on_step_cursor ca backward p =
     (let (sc, seeked) = prepare ca (tp_position p) (step_cursor (tp_cursors p));
          (c, res, _) = (if backward then replay_backward_steps ca (pc_cursor sc) 1
                         else replay_forward_steps ca (pc_cursor sc) 1);
          sc' = sc\<lparr>pc_cursor := c\<rparr>
      in case res of
           Inl _ \<Rightarrow>
             (map_step (\<lambda>_. invalidate sc') p,
              Inl (Ttd (Ffi (if backward then ''step_backward failed'' else ''step_forward failed''))))
         | Inr result \<Rightarrow>
             let pos = position_of ca c; tid = current_tid ca c;
                 p1 = map_step (\<lambda>_. sc') p;
                 p2 = (if seeked then bump (\<lambda>s. s\<lparr>cursor_seeks := cursor_seeks s + 1\<rparr>) p1 else p1);
                 p3 = (map_step (note_position pos) p2)\<lparr>tp_position := pos\<rparr>;
                 p4 = bump (\<lambda>s. s\<lparr>steps_done := steps_done s + 1\<rparr>) p3;
                 p5 = (if tid \<noteq> 0 then p4\<lparr>current_thread_id := Some (ucast tid)\<rparr> else p4)
             in case stop_reason_try_from result of
                  Inl e \<Rightarrow> (p5, Inl (Ttd e))
                | Inr fallback \<Rightarrow>
                    (p5, Inr (enrich_exception p5
                       (case classify_continue_stop result 0 None (\<not> backward) (tp_position p5) (tp_lifetime p5)
                               (ends_with_process_exit p5) of
                          Some reason \<Rightarrow> reason | None \<Rightarrow> fallback))))"

section \<open>The verbs of \<open>DebugTarget\<close>\<close>

definition tp_step :: "'c cursor_api \<Rightarrow> ('c, stop_reason) verb" where
  "tp_step ca p = Ret (step_on_step_cursor ca False p)"

definition tp_step_back :: "'c cursor_api \<Rightarrow> ('c, stop_reason) verb" where
  "tp_step_back ca p = Ret (step_on_step_cursor ca True p)"

text \<open>
  The range-step loop. \<open>arrived i\<close> is the number of interrupt requests other threads have made by the
  loop's i-th poll of the epoch; a request it sees stays counted until the next resume. The loop ends for every engine: each further iteration has moved strictly
  forward.
\<close>

function step_range_loop ::
  "'c cursor_api \<Rightarrow> (nat \<Rightarrow> u64) \<Rightarrow> u32 \<Rightarrow> u64 \<Rightarrow> u64 \<Rightarrow> nat \<Rightarrow> position \<Rightarrow> 'c ttd_process
     \<Rightarrow> 'c ttd_process \<times> (debug_error, stop_reason) result" where
  "step_range_loop ca arrived tid start stop i previous p =
     (if interrupt_epoch p + arrived i \<noteq> 0
      then (p\<lparr>interrupt_epoch := interrupt_epoch p + arrived i\<rparr>, Inr Interrupted)
      else case step_on_step_cursor ca False p of
             (p1, Inl e) \<Rightarrow> (p1, Inl e)
           | (p1, Inr reason) \<Rightarrow>
               if reason \<noteq> StepComplete then (p1, Inr reason)
               else let pc = (case amd64_context ca (pc_cursor (step_cursor (tp_cursors p1))) tid of
                                Inl _ \<Rightarrow> 0 | Inr regs \<Rightarrow> Rip regs)
                    in if \<not> (start \<le> pc \<and> pc < stop) then (p1, Inr StepComplete)
                       else if tp_position p1 \<le> previous then (p1, Inr StepComplete)
                       else step_range_loop ca arrived tid start stop (i + 1) (tp_position p1) p1)"
  by pat_completeness auto

termination
  by (relation "measure (\<lambda>(ca, arrived, tid, start, stop, i, previous, p). 2 ^ 128 - rank previous)")
    (use rank_bound in \<open>auto simp: not_le rank_less_iff intro!: diff_less_mono2\<close>)

declare step_range_loop.simps [simp del]

definition tp_step_range ::
  "'c cursor_api \<Rightarrow> (nat \<Rightarrow> u64) \<Rightarrow> u64 option \<Rightarrow> u64 \<Rightarrow> u64 \<Rightarrow> ('c, stop_reason) verb" where
  "tp_step_range ca arrived thread_id start stop p =
     Ret (if start \<ge> stop then step_on_step_cursor ca False p
          else step_range_loop ca arrived (step_range_tid thread_id p) start stop 0 (tp_position p) p)"

definition tp_continue_forward :: "'c cursor_api \<Rightarrow> ('c, stop_reason) verb" where
  "tp_continue_forward ca p = watchpoint_replay ca (snd (tp_lifetime p)) True p"

definition tp_continue_backward :: "'c cursor_api \<Rightarrow> ('c, stop_reason) verb" where
  "tp_continue_backward ca p = watchpoint_replay ca (fst (tp_lifetime p)) False p"

text \<open>\<open>Ord::clamp\<close> panics when the lifetime is empty.\<close>

definition tp_goto :: "'c cursor_api \<Rightarrow> position \<Rightarrow> ('c, stop_reason) verb" where
  "tp_goto ca target p =
     (if snd (tp_lifetime p) < fst (tp_lifetime p) then Panic ''assertion failed: min <= max''
      else let pos = clamp target (fst (tp_lifetime p)) (snd (tp_lifetime p));
               p1 = p\<lparr>tp_position := pos\<rparr>;
               (p2, _) = at_position ca pos (\<lambda>_. ()) p1
           in Ret (adopt_cursor_position ca p2, Inr PositionReached))"

section \<open>Breakpoints\<close>

text \<open>The breakpoint methods delegate to \<open>BreakpointState\<close> on the persistent cursor.\<close>

definition on_breakpoints ::
  "(breakpoint_state \<Rightarrow> 'c replay_cursor \<Rightarrow> breakpoint_state \<times> 'c replay_cursor \<times> 'r)
     \<Rightarrow> 'c ttd_process \<Rightarrow> 'c ttd_process \<times> 'r" where
  "on_breakpoints f p =
     (let (bs, c, r) = f (tp_breakpoints p) (persistent_cursor p)
      in (map_persistent (\<lambda>pc. pc\<lparr>pc_cursor := c\<rparr>) (p\<lparr>tp_breakpoints := bs\<rparr>), r))"

definition tp_set_breakpoint where
  "tp_set_breakpoint ca addr thread_id = on_breakpoints (set_breakpoint (cursor_sink ca) addr thread_id)"

definition tp_set_data_breakpoint where
  "tp_set_data_breakpoint ca addr sz kind = on_breakpoints (set_data_breakpoint (cursor_sink ca) addr sz kind)"

definition tp_remove_breakpoint where
  "tp_remove_breakpoint ca i = on_breakpoints (state_remove_breakpoint (cursor_sink ca) i)"

definition tp_remove_breakpoint_exact where
  "tp_remove_breakpoint_exact ca addr sz access = on_breakpoints (state_remove_exact (cursor_sink ca) addr sz access)"

section \<open>Queries\<close>

text \<open>A caller's buffer is its length on the way in and its contents on the way out.\<close>

definition read_into :: "'c cursor_api \<Rightarrow> 'c replay_cursor \<Rightarrow> u64 \<Rightarrow> u8 list \<Rightarrow> u8 list \<times> nat" where
  "read_into ca c addr buf =
     (if buf = [] then (buf, 0)
      else copy_into buf (cursor_read_memory ca c addr (length buf)))"

definition read_ranges_into ::
  "'c cursor_api \<Rightarrow> 'c replay_cursor \<Rightarrow> u64 \<Rightarrow> u8 list \<Rightarrow> u32 \<Rightarrow> u8 list \<times> nat \<times> memory_range list" where
  "read_ranges_into ca c addr buf max_ranges =
     (if buf = [] then (buf, 0, [])
      else let (bytes, runs) = cursor_read_memory_ranges ca c addr (length buf) (unat max_ranges);
               (buf', n) = copy_into buf bytes;
               received = (word_of_nat n :: u64)
           in (buf', n,
               filter (\<lambda>run. mr_size run > 0
                 \<and> (case checked_sub (mr_address run) addr of None \<Rightarrow> False | Some offset \<Rightarrow> offset < received)) runs))"

definition tp_read_memory :: "'c cursor_api \<Rightarrow> u64 \<Rightarrow> u8 list \<Rightarrow> 'c ttd_process \<Rightarrow> 'c ttd_process \<times> u8 list \<times> nat" where
  "tp_read_memory ca addr buf = with_cursor ca (\<lambda>c. read_into ca c addr buf)"

definition tp_read_memory_ranges ::
  "'c cursor_api \<Rightarrow> u64 \<Rightarrow> u8 list \<Rightarrow> u32 \<Rightarrow> 'c ttd_process \<Rightarrow> 'c ttd_process \<times> u8 list \<times> nat \<times> memory_range list" where
  "tp_read_memory_ranges ca addr buf max_ranges = with_cursor ca (\<lambda>c. read_ranges_into ca c addr buf max_ranges)"

definition active_entries :: "'c cursor_api \<Rightarrow> 'c replay_cursor \<Rightarrow> active_thread list" where
  "active_entries ca c = List.map_filter (cursor_active_thread ca c) [0..<ActiveThreadCount ca (rc_sdk c)]"

definition tp_active_thread_ids :: "'c cursor_api \<Rightarrow> 'c ttd_process \<Rightarrow> 'c ttd_process \<times> u64 list" where
  "tp_active_thread_ids ca = with_cursor ca (\<lambda>c.
     map (\<lambda>entry. ucast (Id (at_thread entry)))
       (filter (\<lambda>entry. Id (at_thread entry) \<noteq> 0) (active_entries ca c)))"

definition tp_thread_state ::
  "'c cursor_api \<Rightarrow> u64 option \<Rightarrow> 'c ttd_process \<Rightarrow> 'c ttd_process \<times> (x64_regs \<times> u64) option" where
  "tp_thread_state ca thread_id p =
     (case os_tid thread_id p of
        None \<Rightarrow> (p, None)
      | Some tid \<Rightarrow>
          if \<not> contains_os_tid (md_threads (metadata p)) tid then (p, None)
          else with_cursor ca (\<lambda>c.
                 Some ((case amd64_context ca c tid of Inl _ \<Rightarrow> default_regs | Inr regs \<Rightarrow> regs),
                       TebAddress ca (rc_sdk c) tid)) p)"

definition tp_thread_info ::
  "'c cursor_api \<Rightarrow> u64 \<Rightarrow> 'c ttd_process \<Rightarrow> 'c ttd_process \<times> thread_extra_info option" where
  "tp_thread_info ca thread_id p =
     (case (narrow thread_id :: u32 option) of
        None \<Rightarrow> (p, None)
      | Some os \<Rightarrow>
          with_cursor ca (\<lambda>c.
            map_option
              (\<lambda>entry. ThreadExtraInfo (UniqueId (at_thread entry)) (current_position entry) (TebAddress ca (rc_sdk c) os))
              (find (\<lambda>entry. Id (at_thread entry) \<noteq> 0 \<and> ucast (Id (at_thread entry)) = thread_id)
                 (active_entries ca c))) p)"

definition tp_set_current_thread :: "u64 \<Rightarrow> 'c ttd_process \<Rightarrow> 'c ttd_process" where
  "tp_set_current_thread i p = p\<lparr>current_thread_id := Some i\<rparr>"

definition tp_main_module :: "'c ttd_process \<Rightarrow> module_info option" where
  "tp_main_module p = (case md_modules (metadata p) of [] \<Rightarrow> None | m # _ \<Rightarrow> Some m)"

definition tp_stats_snapshot :: "'c ttd_process \<Rightarrow> target_stats" where
  "tp_stats_snapshot p =
     (let w = state_watchpoint_stats (tp_breakpoints p)
      in (tp_stats p)\<lparr>stat_watchpoint_adds := adds w, stat_watchpoint_removes := removes w\<rparr>)"

definition tp_diagnostics :: "'c ttd_process \<Rightarrow> target_diagnostics run" where
  "tp_diagnostics p =
     (case metadata_diagnostics (metadata p) (tp_position p) of
        None \<Rightarrow> Panic ''TTD reports counts as u32, so the list length fits''
      | Some d \<Rightarrow> Ret d)"

definition tp_begin_resume :: "'c ttd_process \<Rightarrow> 'c ttd_process" where
  "tp_begin_resume p = p\<lparr>interrupt_epoch := 0\<rparr>"

text \<open>What the interrupt handle does when it is fired, and what dropping the process does.\<close>

definition tp_interrupt :: "'c cursor_api \<Rightarrow> 'c ttd_process \<Rightarrow> 'c ttd_process" where
  "tp_interrupt ca p = slot_interrupt ca (p\<lparr>interrupt_epoch := interrupt_epoch p + 1\<rparr>)"

definition tp_drop :: "'c ttd_process \<Rightarrow> 'c ttd_process" where
  "tp_drop p = clear_slot p"

end
