(* ===== verification/Execution.thy ===== *)
theory Execution
  imports Process
begin

text \<open>
  What the execution verbs guarantee: a continue returns on every engine that replays in the
  direction it was asked to, never stops on a first-chance exception, and attributes a breakpoint
  stop to a breakpoint in the table that matched on the hitting thread; a step does not depend on
  breakpoints; a range step ends outside its range, or without progress, or on request; a jump lands
  inside the trace.
\<close>

section \<open>Field lemmas\<close>

lemma map_persistent_simps [simp]:
  "persistent (tp_cursors (map_persistent f p)) = f (persistent (tp_cursors p))"
  "step_cursor (tp_cursors (map_persistent f p)) = step_cursor (tp_cursors p)"
  "tp_stats (map_persistent f p) = tp_stats p" "tp_position (map_persistent f p) = tp_position p"
  "tp_lifetime (map_persistent f p) = tp_lifetime p" "metadata (map_persistent f p) = metadata p"
  "ends_with_process_exit (map_persistent f p) = ends_with_process_exit p"
  "current_thread_id (map_persistent f p) = current_thread_id p"
  "tp_breakpoints (map_persistent f p) = tp_breakpoints p"
  "interrupt_epoch (map_persistent f p) = interrupt_epoch p" "active_replay (map_persistent f p) = active_replay p"
  by (simp_all add: map_persistent_def)

lemma map_step_simps [simp]:
  "step_cursor (tp_cursors (map_step f p)) = f (step_cursor (tp_cursors p))"
  "persistent (tp_cursors (map_step f p)) = persistent (tp_cursors p)"
  "tp_stats (map_step f p) = tp_stats p" "tp_position (map_step f p) = tp_position p"
  "tp_lifetime (map_step f p) = tp_lifetime p" "metadata (map_step f p) = metadata p"
  "ends_with_process_exit (map_step f p) = ends_with_process_exit p"
  "current_thread_id (map_step f p) = current_thread_id p"
  "tp_breakpoints (map_step f p) = tp_breakpoints p"
  "interrupt_epoch (map_step f p) = interrupt_epoch p" "active_replay (map_step f p) = active_replay p"
  by (simp_all add: map_step_def)

lemma bump_simps [simp]:
  "tp_cursors (bump f p) = tp_cursors p" "tp_stats (bump f p) = f (tp_stats p)"
  "tp_position (bump f p) = tp_position p" "tp_lifetime (bump f p) = tp_lifetime p"
  "metadata (bump f p) = metadata p" "ends_with_process_exit (bump f p) = ends_with_process_exit p"
  "current_thread_id (bump f p) = current_thread_id p" "tp_breakpoints (bump f p) = tp_breakpoints p"
  "interrupt_epoch (bump f p) = interrupt_epoch p" "active_replay (bump f p) = active_replay p"
  by (simp_all add: bump_def)

lemma slot_simps [simp]:
  "tp_cursors (publish p) = tp_cursors p" "tp_stats (publish p) = tp_stats p" "tp_position (publish p) = tp_position p"
  "tp_lifetime (publish p) = tp_lifetime p" "metadata (publish p) = metadata p"
  "ends_with_process_exit (publish p) = ends_with_process_exit p" "current_thread_id (publish p) = current_thread_id p"
  "tp_breakpoints (publish p) = tp_breakpoints p" "interrupt_epoch (publish p) = interrupt_epoch p"
  "tp_cursors (clear_slot p) = tp_cursors p" "tp_stats (clear_slot p) = tp_stats p" "tp_position (clear_slot p) = tp_position p"
  "tp_lifetime (clear_slot p) = tp_lifetime p" "metadata (clear_slot p) = metadata p"
  "ends_with_process_exit (clear_slot p) = ends_with_process_exit p" "current_thread_id (clear_slot p) = current_thread_id p"
  "tp_breakpoints (clear_slot p) = tp_breakpoints p" "interrupt_epoch (clear_slot p) = interrupt_epoch p"
  "active_replay (publish p) = PersistentCursor" "active_replay (clear_slot p) = NoReplay"
  by (simp_all add: publish_def clear_slot_def)

text \<open>The fields no verb changes; and a verb that finds the interrupt slot empty leaves it empty.\<close>

definition same_trace :: "'c ttd_process \<Rightarrow> 'c ttd_process \<Rightarrow> bool" where
  "same_trace p q \<longleftrightarrow> tp_lifetime q = tp_lifetime p \<and> metadata q = metadata p
     \<and> ends_with_process_exit q = ends_with_process_exit p
     \<and> (active_replay p = NoReplay \<longrightarrow> active_replay q = NoReplay)"

lemma at_position_spec:
  assumes "at_position ca pos f p = (q, v)"
  shows "persistent (tp_cursors q) = fst (prepare ca pos (persistent (tp_cursors p)))"
    and "v = f (persistent_cursor q)" and "step_cursor (tp_cursors q) = step_cursor (tp_cursors p)"
    and "tp_position q = tp_position p" and "tp_breakpoints q = tp_breakpoints p"
    and "same_trace p q" and "current_thread_id q = current_thread_id p" and "interrupt_epoch q = interrupt_epoch p"
    and "cursor_seeks (tp_stats q) = cursor_seeks (tp_stats p)
           + (if snd (prepare ca pos (persistent (tp_cursors p))) then 1 else 0)"
    and "queries (tp_stats q) = queries (tp_stats p)"
  using assms by (auto simp: at_position_def Let_def same_trace_def split: prod.splits if_splits)

lemma adopt_simps [simp]:
  "tp_position (adopt_cursor_position ca p) = position_of ca (persistent_cursor p)"
  "persistent (tp_cursors (adopt_cursor_position ca p))
     = note_position (position_of ca (persistent_cursor p)) (persistent (tp_cursors p))"
  "step_cursor (tp_cursors (adopt_cursor_position ca p)) = step_cursor (tp_cursors p)"
  "tp_lifetime (adopt_cursor_position ca p) = tp_lifetime p" "metadata (adopt_cursor_position ca p) = metadata p"
  "ends_with_process_exit (adopt_cursor_position ca p) = ends_with_process_exit p"
  "tp_breakpoints (adopt_cursor_position ca p) = tp_breakpoints p"
  "interrupt_epoch (adopt_cursor_position ca p) = interrupt_epoch p" "tp_stats (adopt_cursor_position ca p) = tp_stats p"
  "active_replay (adopt_cursor_position ca p) = active_replay p"
  by (simp_all add: adopt_cursor_position_def Let_def map_persistent_def)

lemma note_position_cursor [simp]: "pc_cursor (note_position pos pc) = pc_cursor pc"
  by (simp add: note_position_def)

section \<open>The continue loop returns\<close>

text \<open>
  What the engine documents of a replay: forward never moves backward, backward never moves forward.
\<close>

definition replays_in_direction :: "'c cursor_api \<Rightarrow> bool" where
  "replays_in_direction ca \<longleftrightarrow>
     (\<forall>c hook limit n. GetPosition ca c \<le> GetPosition ca (fst (ReplayForward ca c hook limit n)))
   \<and> (\<forall>c hook limit n. GetPosition ca (fst (ReplayBackward ca c hook limit n)) \<le> GetPosition ca c)"

lemma replay_to_sdk:
  assumes "replay_to ca c limit forward = (c', res, hs)"
  shows "rc_sdk c' = fst (if forward then ReplayForward ca (rc_sdk c) (map_option watchpoint_shim (rc_callback c)) limit STEP_COUNT_MAX
                          else ReplayBackward ca (rc_sdk c) (map_option watchpoint_shim (rc_callback c)) limit STEP_COUNT_MAX)"
    and "rc_callback c' = rc_callback c" and "rc_arch c' = rc_arch c"
  using assms by (auto simp: replay_to_def replay_forward_def replay_backward_def cursor_replay_def Let_def split: prod.splits if_splits)

definition distance :: "bool \<Rightarrow> position \<Rightarrow> nat" where
  "distance forward pos = (if forward then 2 ^ 128 - rank pos else rank pos)"

lemma distance_less:
  "if forward then p < q else q < p \<Longrightarrow> distance forward q < distance forward p"
  using rank_bound [of p] rank_bound [of q] by (auto simp: distance_def rank_less_iff [symmetric] split: if_splits)

lemma replay_to_direction:
  assumes "replays_in_direction ca" and "replay_to ca c limit forward = (c', res, hs)"
  shows "if forward then position_of ca c \<le> position_of ca c' else position_of ca c' \<le> position_of ca c"
  using assms(1) replay_to_sdk(1) [OF assms(2)]
  by (auto simp: replays_in_direction_def position_of_def cursor_position_def split: if_splits)

lemma replay_past_returns_from:
  assumes "replays_in_direction ca" and "previous = Some (position_of ca c)"
  shows "\<exists>r. replay_past ca md limit forward previous hits c = Some r"
  using assms(2)
proof (induction "distance forward (position_of ca c)" arbitrary: previous hits c rule: less_induct)
  case less
  obtain c' res hs where rt: "replay_to ca c limit forward = (c', res, hs)" using prod_cases3 by blast
  note dir = replay_to_direction [OF assms(1) rt]
  have "\<exists>r. replay_past ca md limit forward (Some (position_of ca c')) (hits @ hs) c' = Some r"
    if "position_of ca c' \<noteq> position_of ca c"
    using that dir by (intro less.hyps distance_less) (auto split: if_splits)
  with less.prems show ?case
    by (subst replay_past.simps) (auto simp: rt split: sum.splits option.splits)
qed

lemma replay_past_returns:
  assumes "replays_in_direction ca"
  shows "\<exists>r. replay_past ca md limit forward previous hits c = Some r"
proof -
  obtain c' res hs where rt: "replay_to ca c limit forward = (c', res, hs)" using prod_cases3 by blast
  have "\<exists>r. replay_past ca md limit forward (Some (position_of ca c')) (hits @ hs) c' = Some r"
    by (rule replay_past_returns_from [OF assms refl])
  then show ?thesis
    by (subst replay_past.simps) (auto simp: rt split: sum.splits option.splits)
qed

text \<open>
  C9. A continue in either direction returns, on every engine whose replays go the way they were
  asked to: the loop that passes over first-chance exceptions cannot spin.
\<close>

theorem continue_returns:
  assumes "replays_in_direction ca"
  shows "\<exists>p' r. watchpoint_replay ca limit forward p = Ret (p', r)"
proof -
  have "\<exists>p' r. replay_watchpoint_filtered ca limit forward p = Ret (p', r)"
  proof -
    let ?p1 = "map_persistent (\<lambda>pc. pc\<lparr>pc_cursor := set_exception_mask ca EXCEPTION_MASK (pc_cursor pc)\<rparr>) p"
    obtain p2 u where "at_position ca (tp_position ?p1) (\<lambda>_. ()) ?p1 = (p2, u)" by (rule prod.exhaust)
    then show ?thesis
      using replay_past_returns [OF assms, of "metadata (bump (\<lambda>s. s\<lparr>replays := replays s + 1\<rparr>) p2)" limit forward None "[]"
          "set_event_mask ca (EVENT_MEMORY_WATCHPOINT OR EVENT_EXCEPTION)
             (install_borrowed_callback (hit_callback (tp_breakpoints p2)) (persistent_cursor p2))"]
      by (auto simp: replay_watchpoint_filtered_def Let_def with_watchpoint_callback_def
          split: option.splits sum.splits)
  qed
  then obtain p1 r where f: "replay_watchpoint_filtered ca limit forward p = Ret (p1, r)" by blast
  show ?thesis by (cases r) (auto simp: watchpoint_replay_def f Let_def split: prod.splits)
qed

section \<open>A simulated process\<close>

definition sim_metadata :: trace_metadata where
  "sim_metadata = metadata_new [sim_thread] [ModuleInfo 0x1000 0x1000 ''app.exe'']
     [ExceptionInfo (sim_position 3) 0x20474343 0x1003 0x1003, ExceptionInfo (sim_position 6) 0xC0000005 0x1006 0x1006]
     (sim_position 0) (sim_position 8)"

text \<open>The two cursors of a process opened on the simulated trace, with exceptions at the third and sixth instruction.\<close>

definition sim_process :: "sim ttd_process" where
  "sim_process =
     (let c = sim_cursor\<lparr>rc_sdk := sim_start\<lparr>sim_faults := [3, 6]\<rparr>\<rparr>
      in \<lparr>tp_cursors = \<lparr>persistent = positioned_new c, step_cursor = positioned_new c\<rparr>,
          tp_stats = default_stats, tp_position = sim_position 0,
          tp_lifetime = (sim_position 0, sim_position 8), ends_with_process_exit = True,
          current_thread_id = Some 7, metadata = sim_metadata,
          tp_breakpoints = state_new (md_threads sim_metadata), active_replay = NoReplay,
          interrupt_epoch = 0\<rparr>)"

lemma sim_api_replay:
  "ReplayForward sim_api = sim_replay True" "ReplayBackward sim_api = sim_replay False"
  "GetPosition sim_api c = sim_position (sim_at c)"
  by (simp_all add: sim_api_def sim_GetPosition_def)

lemma sim_replay_sdk: "fst (sim_replay forward c hook limit n) = fst (sim_run forward hook (if unat n < 9 then unat n else 9) c)"
  by (simp add: sim_replay_def split_beta)

lemma sim_in_direction: "replays_in_direction sim_api"
  using sim_run_direction [of True] sim_run_direction [of False]
  by (simp add: replays_in_direction_def sim_api_replay sim_replay_sdk sim_position_mono)

theorem continue_returns_witness:
  "replays_in_direction sim_api \<and> (\<exists>p' r. watchpoint_replay sim_api (sim_position 8) True sim_process = Ret (p', r))"
  using continue_returns [OF sim_in_direction] sim_in_direction by blast

section \<open>First-chance exceptions\<close>

text \<open>A replay that ends in an exception has moved off the position it started from.\<close>

definition exceptions_advance :: "'c cursor_api \<Rightarrow> bool" where
  "exceptions_advance ca \<longleftrightarrow>
     (\<forall>c hook limit n. ro_stop_reason (fst (snd (ReplayForward ca c hook limit n))) = 2 \<longrightarrow>
        GetPosition ca (fst (ReplayForward ca c hook limit n)) \<noteq> GetPosition ca c)
   \<and> (\<forall>c hook limit n. ro_stop_reason (fst (snd (ReplayBackward ca c hook limit n))) = 2 \<longrightarrow>
        GetPosition ca (fst (ReplayBackward ca c hook limit n)) \<noteq> GetPosition ca c)"

lemma event_exception_iff: "event_type_from_u8 v = EvException \<longleftrightarrow> v = 2"
  by (simp add: event_type_from_u8_def)

lemma replay_to_exception_moves:
  assumes "exceptions_advance ca" and "replay_to ca c limit forward = (c', Inr r, hs)" and "stop_event r = EvException"
  shows "position_of ca c' \<noteq> position_of ca c"
  using assms
  by (auto simp: replay_to_def replay_forward_def replay_backward_def cursor_replay_def Let_def exceptions_advance_def
      replay_result_from_def event_exception_iff position_of_def cursor_position_def
      split: prod.splits if_splits) (metis fst_conv snd_conv)+

definition transparent_at :: "trace_metadata \<Rightarrow> position \<Rightarrow> bool" where
  "transparent_at md pos \<longleftrightarrow> (\<exists>ecode. exception_code_at md pos = Some ecode \<and> ecode \<in> set FIRST_CHANCE_EXCEPTION_CODES)"

lemma replay_past_not_transparent:
  "replay_past ca md limit forward previous hits c = Some y \<Longrightarrow> exceptions_advance ca \<Longrightarrow>
    previous \<in> {None, Some (position_of ca c)} \<Longrightarrow> fst (snd y) = Inr r \<Longrightarrow> stop_event r = EvException \<Longrightarrow>
    \<not> transparent_at md (position_of ca (fst y))"
proof (induction ca md limit forward previous hits c y rule: replay_past.raw_induct [rotated, consumes 1])
  case (1 f ca md limit forward previous hits c y)
  obtain d res gs where rt: "replay_to ca c limit forward = (d, res, gs)" using prod_cases3 by blast
  have moves: "position_of ca d \<noteq> position_of ca c" if "res = Inr q" "stop_event q = EvException" for q
    using replay_to_exception_moves [OF 1(3) rt [unfolded that(1)] that(2)] .
  show ?case
    using 1 moves by (auto simp: rt transparent_at_def split: sum.splits if_splits option.splits)
qed

section \<open>The shape of a continue\<close>

text \<open>The cursor a continue replays from: masked, positioned, with the matching callback installed.\<close>

definition continue_cursor :: "'c cursor_api \<Rightarrow> 'c ttd_process \<Rightarrow> 'c replay_cursor" where
  "continue_cursor ca p =
     (let pc = persistent (tp_cursors p);
          pc1 = fst (prepare ca (tp_position p) (pc\<lparr>pc_cursor := set_exception_mask ca EXCEPTION_MASK (pc_cursor pc)\<rparr>))
      in set_event_mask ca (EVENT_MEMORY_WATCHPOINT OR EVENT_EXCEPTION)
           (install_borrowed_callback (hit_callback (tp_breakpoints p)) (pc_cursor pc1)))"

lemma watchpoint_replay_shape:
  assumes "watchpoint_replay ca limit forward p = Ret (p', res)"
  obtains c rr hits where
    "replay_past ca (metadata p) limit forward None [] (continue_cursor ca p) = Some (c, rr, hits)"
    "same_trace p p'" "tp_breakpoints p' = tp_breakpoints p"
    "step_cursor (tp_cursors p') = step_cursor (tp_cursors p)" "interrupt_epoch p' = interrupt_epoch p"
    "persistent_cursor p' = clear_watchpoint_callback c"
    "case rr of
       Inl e \<Rightarrow> res = Inl (Ttd e) \<and> tp_position p' = tp_position p \<and> pc_at (persistent (tp_cursors p')) = None
     | Inr r \<Rightarrow> tp_position p' = position_of ca c \<and> pc_at (persistent (tp_cursors p')) = Some (position_of ca c)
         \<and> res = resolve_continue_stop r (fold (store_hit (tp_breakpoints p)) hits 0) forward p'"
proof -
  let ?p1 = "map_persistent (\<lambda>pc. pc\<lparr>pc_cursor := set_exception_mask ca EXCEPTION_MASK (pc_cursor pc)\<rparr>) p"
  obtain p2 u where at: "at_position ca (tp_position ?p1) (\<lambda>_. ()) ?p1 = (p2, u)" by (rule prod.exhaust)
  note p2 = at_position_spec [OF at]
  have cc: "set_event_mask ca (EVENT_MEMORY_WATCHPOINT OR EVENT_EXCEPTION)
      (install_borrowed_callback (hit_callback (tp_breakpoints p2)) (persistent_cursor p2)) = continue_cursor ca p"
    using p2(1,5) by (simp add: continue_cursor_def Let_def)
  have md: "metadata p2 = metadata p" using p2(6) by (simp add: same_trace_def)
  obtain c rr hits where rp: "replay_past ca (metadata p) limit forward None [] (continue_cursor ca p) = Some (c, rr, hits)"
    using assms cc md at
    by (auto simp: watchpoint_replay_def replay_watchpoint_filtered_def Let_def with_watchpoint_callback_def
        split: option.splits)
  have pos: "position_of ca (clear_watchpoint_callback c) = position_of ca c"
    by (simp add: position_of_def cursor_position_def clear_watchpoint_callback_def)
  show ?thesis
  proof (rule that [OF rp])
    show "same_trace p p'" "tp_breakpoints p' = tp_breakpoints p"
      "step_cursor (tp_cursors p') = step_cursor (tp_cursors p)" "interrupt_epoch p' = interrupt_epoch p"
      "persistent_cursor p' = clear_watchpoint_callback c"
      using assms cc md at rp p2
      by (cases rr; auto simp: watchpoint_replay_def replay_watchpoint_filtered_def Let_def with_watchpoint_callback_def
          same_trace_def invalidate_def)+
    show "case rr of
       Inl e \<Rightarrow> res = Inl (Ttd e) \<and> tp_position p' = tp_position p \<and> pc_at (persistent (tp_cursors p')) = None
     | Inr r \<Rightarrow> tp_position p' = position_of ca c \<and> pc_at (persistent (tp_cursors p')) = Some (position_of ca c)
         \<and> res = resolve_continue_stop r (fold (store_hit (tp_breakpoints p)) hits 0) forward p'"
      using assms cc md at rp p2 pos
      by (cases rr; auto simp: watchpoint_replay_def replay_watchpoint_filtered_def Let_def with_watchpoint_callback_def
          invalidate_def note_position_def)
  qed
qed

text \<open>
  C10. A continue never reports a first-chance C++ exception: with an engine that moves off a position
  before it reports an exception there, an exception stop carries a code other than the MSVC and
  MinGW ones.
\<close>

theorem continue_skips_first_chance:
  assumes "exceptions_advance ca" and "watchpoint_replay ca limit forward p = Ret (p', Inr (Exception ecode addr))"
  shows "ecode \<notin> set FIRST_CHANCE_EXCEPTION_CODES"
proof -
  obtain c rr hits where rp: "replay_past ca (metadata p) limit forward None [] (continue_cursor ca p) = Some (c, rr, hits)"
    and st: "same_trace p p'"
    and sh: "case rr of
       Inl e \<Rightarrow> Inr (Exception ecode addr) = Inl (Ttd e) \<and> tp_position p' = tp_position p \<and> pc_at (persistent (tp_cursors p')) = None
     | Inr r \<Rightarrow> tp_position p' = position_of ca c \<and> pc_at (persistent (tp_cursors p')) = Some (position_of ca c)
         \<and> Inr (Exception ecode addr) = resolve_continue_stop r (fold (store_hit (tp_breakpoints p)) hits 0) forward p'"
    by (rule watchpoint_replay_shape [OF assms(2)])
  from sh obtain r where rr: "rr = Inr r" and pos: "tp_position p' = position_of ca c"
    and ex: "Inr (Exception ecode addr) = resolve_continue_stop r (fold (store_hit (tp_breakpoints p)) hits 0) forward p'"
    by (cases rr) auto
  then have ev: "stop_event r = EvException" and en: "enrich_exception p' (Exception 0 0) = Exception ecode addr"
    by (auto simp: resolve_continue_stop_def classify_continue_stop_def stop_reason_try_from_def enrich_exception_def Let_def
        split: if_splits option.splits event_type.splits)
  have "\<not> transparent_at (metadata p) (position_of ca c)"
    using replay_past_not_transparent [OF rp assms(1), of r] rr ev by simp
  with en pos st show ?thesis
    by (auto simp: enrich_exception_def transparent_at_def exception_code_at_def same_trace_def
        FIRST_CHANCE_EXCEPTION_CODES_def split: option.splits)
qed

lemma sim_faults_advance: "exceptions_advance sim_api"
proof -
  have ev: "ro_stop_reason (fst (snd (sim_replay forward c hook limit n)))
      = fst (snd (sim_run forward hook (if unat n < 9 then unat n else 9) c))" for forward c hook limit n
    by (simp add: sim_replay_def split_beta)
  have "sim_position (sim_at (fst (sim_run forward hook n c))) \<noteq> sim_position (sim_at c)"
    if "fst (snd (sim_run forward hook n c)) = 2" for forward hook n c
    using sim_run_fault [OF that] sim_position_less [of "sim_at c" "sim_at (fst (sim_run forward hook n c))"]
      sim_position_less [of "sim_at (fst (sim_run forward hook n c))" "sim_at c"]
    by (cases forward) auto
  with ev show ?thesis
    unfolding exceptions_advance_def sim_api_replay sim_replay_sdk by simp
qed

theorem continue_skips_first_chance_witness:
  "case watchpoint_replay sim_api (sim_position 8) True sim_process of
     Ret (p', r) \<Rightarrow> r = Inr (Exception 0xC0000005 0x1006) \<and> tp_position p' = sim_position 6 \<and> 0xC0000005 \<notin> set FIRST_CHANCE_EXCEPTION_CODES
   | _ \<Rightarrow> False"
proof -
  have run: "case watchpoint_replay sim_api (sim_position 8) True sim_process of
     Ret (p', r) \<Rightarrow> r = Inr (Exception 0xC0000005 0x1006) \<and> tp_position p' = sim_position 6 | _ \<Rightarrow> False"
    by code_simp
  then obtain p' where ret: "watchpoint_replay sim_api (sim_position 8) True sim_process = Ret (p', Inr (Exception 0xC0000005 0x1006))"
    by (auto split: run.splits)
  from run continue_skips_first_chance [OF sim_faults_advance ret] show ?thesis
    unfolding ret by simp
qed

section \<open>Attribution of breakpoint stops\<close>

text \<open>A hit as the engine reports it is on a breakpoint: the bytes and access match, on its thread.\<close>

definition hit_on :: "hit \<Rightarrow> breakpoint \<Rightarrow> bool" where
  "hit_on h bp \<longleftrightarrow> matches_addr (hit_address h) (hit_size h) (access_type_mask (access_type_from_u8 (hit_access h))) bp
     \<and> bp_thread bp \<in> {None, Some (ucast (hit_thread h))}"

lemma store_hit_cases:
  "store_hit bs h d = (case hit_breakpoint bs (hit_address h) (hit_size h)
      (access_type_mask (access_type_from_u8 (hit_access h))) (hit_thread h) of None \<Rightarrow> d | Some bp \<Rightarrow> bp_id bp)"
  by (simp add: store_hit_def split: option.splits)

text \<open>The id left by the callback is that of the last hit that was on a breakpoint.\<close>

lemma fold_store_hit:
  "fold (store_hit bs) hits d = d \<and> (\<forall>h\<in>set hits. hit_breakpoint bs (hit_address h) (hit_size h)
      (access_type_mask (access_type_from_u8 (hit_access h))) (hit_thread h) = None) \<or>
   (\<exists>pre h post bp. hits = pre @ h # post \<and> hit_breakpoint bs (hit_address h) (hit_size h)
      (access_type_mask (access_type_from_u8 (hit_access h))) (hit_thread h) = Some bp
      \<and> bp_id bp = fold (store_hit bs) hits d
      \<and> (\<forall>g\<in>set post. hit_breakpoint bs (hit_address g) (hit_size g)
            (access_type_mask (access_type_from_u8 (hit_access g))) (hit_thread g) = None))"
proof (induction hits rule: rev_induct)
  case (snoc h hits)
  show ?case
  proof (cases "hit_breakpoint bs (hit_address h) (hit_size h) (access_type_mask (access_type_from_u8 (hit_access h))) (hit_thread h)")
    case None
    then have same: "fold (store_hit bs) (hits @ [h]) d = fold (store_hit bs) hits d" by (simp add: store_hit_cases)
    from snoc show ?thesis
    proof (elim disjE exE conjE)
      fix pre g post bp assume "hits = pre @ g # post" "hit_breakpoint bs (hit_address g) (hit_size g)
          (access_type_mask (access_type_from_u8 (hit_access g))) (hit_thread g) = Some bp"
        "bp_id bp = fold (store_hit bs) hits d" "\<forall>g\<in>set post. hit_breakpoint bs (hit_address g) (hit_size g)
            (access_type_mask (access_type_from_u8 (hit_access g))) (hit_thread g) = None"
      then show ?thesis unfolding same using None
        by (intro disjI2 exI [of _ pre] exI [of _ g] exI [of _ "post @ [h]"] exI [of _ bp]) simp
    qed (use same None in simp)
  next
    case (Some bp)
    then show ?thesis by (intro disjI2 exI [of _ hits] exI [of _ h] exI [of _ "[]"] exI [of _ bp]) (simp add: store_hit_cases)
  qed
qed simp

lemma hit_breakpoint_None:
  "hit_breakpoint bs a n x t = None \<longleftrightarrow>
     \<not> (\<exists>bp\<in>set (manager_active (manager bs)). matches_addr a n x bp \<and> bp_thread bp \<in> {None, Some (ucast t)})"
  by (auto simp: hit_breakpoint_def state_find_by_hit_def find_by_hit_def Let_def find_None_all dest!: find_Some_in split: option.splits)

lemma attributed_in_table:
  assumes "wf_manager (manager bs)" and "hit_breakpoint bs a n x t = Some bp"
  shows "state_get bs (bp_id bp) = Some bp" and "bp_thread bp = None \<or> bp_thread bp = Some (ucast t)"
    and "matches_addr a n x bp" and "bp_id bp \<noteq> 0"
proof -
  have "find_by_hit (manager bs) a n x (ucast t) = Some bp"
    using assms(2) by (simp add: hit_breakpoint_def state_find_by_hit_def)
  then have fnd: "bp \<in> set (manager_active (manager bs)) \<and> matches_addr a n x bp
      \<and> (bp_thread bp = None \<or> bp_thread bp = Some (ucast t))"
    by (auto simp: find_by_hit_def Let_def dest!: find_Some_in split: option.splits)
  then obtain i where "(i, bp) \<in> set (breakpoints (manager bs))"
    by (auto simp: manager_active_def bt_values_def)
  with assms(1) have "bp_id bp = i" "0 < i" "bt_get (breakpoints (manager bs)) i = Some bp"
    by (auto simp: wf_manager_def bt_get_Some_iff)
  then show "state_get bs (bp_id bp) = Some bp" "bp_id bp \<noteq> 0"
    by (auto simp: state_get_def manager_get_def)
  from fnd show "bp_thread bp = None \<or> bp_thread bp = Some (ucast t)" "matches_addr a n x bp" by auto
qed

fun stop_breakpoint :: "stop_reason \<Rightarrow> u64" where
  "stop_breakpoint (Breakpoint i a) = i"
| "stop_breakpoint (Watchpoint i a x) = i"
| "stop_breakpoint _ = 0"

definition reported :: "breakpoint \<Rightarrow> stop_reason" where
  "reported bp = (if bp_kind bp = BkExecute then Breakpoint (bp_id bp) (bp_addr bp)
                  else Watchpoint (bp_id bp) (bp_addr bp) (bp_access bp))"

text \<open>The hits the engine reported to the installed callback during a continue, in order.\<close>

definition reported_hits :: "'c cursor_api \<Rightarrow> position \<Rightarrow> bool \<Rightarrow> 'c ttd_process \<Rightarrow> hit list" where
  "reported_hits ca limit forward p =
     (case replay_past ca (metadata p) limit forward None [] (continue_cursor ca p) of
        Some (_, _, hits) \<Rightarrow> hits | None \<Rightarrow> [])"

text \<open>
  C8. A continue that reports a breakpoint or watchpoint id reports it truthfully. The engine reported a
  hit that is on that breakpoint (its bytes and access match, on its thread when it is restricted to one),
  and no later hit of the replay was on any breakpoint; the id is in the table, the reported address and
  access are that breakpoint's, an execution breakpoint is reported as a breakpoint and a data breakpoint
  as a watchpoint. And the callback the engine consults asks to stop exactly at hits that are on a
  breakpoint of the table.
\<close>

theorem continue_reports_matching_breakpoint:
  assumes "wf_state (tp_breakpoints p)" and "watchpoint_replay ca limit forward p = Ret (p', Inr reason)"
    and "stop_breakpoint reason \<noteq> 0"
  shows "(\<exists>pre h post bp. reported_hits ca limit forward p = pre @ h # post \<and> hit_on h bp
      \<and> state_get (tp_breakpoints p) (stop_breakpoint reason) = Some bp \<and> reason = reported bp
      \<and> (\<forall>g\<in>set post. \<forall>b\<in>set (manager_active (manager (tp_breakpoints p))). \<not> hit_on g b))
    \<and> (\<exists>f. rc_callback (continue_cursor ca p) = Some f
      \<and> (\<forall>a n x t. f a n x t \<longleftrightarrow> (\<exists>bp\<in>set (manager_active (manager (tp_breakpoints p))).
            matches_addr a n x bp \<and> bp_thread bp \<in> {None, Some (ucast t)})))"
proof -
  let ?bs = "tp_breakpoints p"
  obtain c rr hits where bs': "tp_breakpoints p' = ?bs"
    and rp: "replay_past ca (metadata p) limit forward None [] (continue_cursor ca p) = Some (c, rr, hits)"
    and sh: "case rr of
       Inl e \<Rightarrow> Inr reason = Inl (Ttd e) \<and> tp_position p' = tp_position p \<and> pc_at (persistent (tp_cursors p')) = None
     | Inr r \<Rightarrow> tp_position p' = position_of ca c \<and> pc_at (persistent (tp_cursors p')) = Some (position_of ca c)
         \<and> Inr reason = resolve_continue_stop r (fold (store_hit ?bs) hits 0) forward p'"
    by (rule watchpoint_replay_shape [OF assms(2)])
  let ?i = "fold (store_hit ?bs) hits 0"
  from sh obtain r where ex: "Inr reason = resolve_continue_stop r ?i forward p'" by (cases rr) auto
  have nz: "?i \<noteq> 0"
  proof
    assume "?i = 0"
    with ex have "stop_breakpoint reason = 0"
      by (auto simp: resolve_continue_stop_def classify_continue_stop_def stop_reason_try_from_def enrich_exception_def
          split: if_splits option.splits event_type.splits)
    with assms(3) show False by simp
  qed
  then obtain pre h post bp where hits: "hits = pre @ h # post" and h: "hit_breakpoint ?bs (hit_address h) (hit_size h)
      (access_type_mask (access_type_from_u8 (hit_access h))) (hit_thread h) = Some bp" and i: "bp_id bp = ?i"
    and post: "\<forall>g\<in>set post. hit_breakpoint ?bs (hit_address g) (hit_size g)
      (access_type_mask (access_type_from_u8 (hit_access g))) (hit_thread g) = None"
    using fold_store_hit [of ?bs hits 0] by auto
  from assms(1) have wf: "wf_manager (manager ?bs)" by (simp add: wf_state_def)
  note bp = attributed_in_table [OF wf h]
  from ex nz bp(1) i have reason: "reason = reported bp"
    by (auto simp: resolve_continue_stop_def classify_continue_stop_def bs' reported_def Let_def)
  have "\<forall>g\<in>set post. \<forall>b\<in>set (manager_active (manager ?bs)). \<not> hit_on g b"
    using post unfolding hit_breakpoint_None hit_on_def by blast
  moreover have "hit_on h bp" using bp(2,3) by (auto simp: hit_on_def)
  moreover have "state_get ?bs (stop_breakpoint reason) = Some bp" using reason bp(1) by (auto simp: reported_def)
  moreover have "reported_hits ca limit forward p = pre @ h # post" by (simp add: reported_hits_def rp hits)
  moreover have "rc_callback (continue_cursor ca p) = Some (hit_callback ?bs)"
    by (simp add: continue_cursor_def install_borrowed_callback_def set_event_mask_def Let_def)
  moreover have "hit_callback ?bs a n x t \<longleftrightarrow> (\<exists>bp\<in>set (manager_active (manager ?bs)).
      matches_addr a n x bp \<and> bp_thread bp \<in> {None, Some (ucast t)})" for a n x t
    using hit_breakpoint_None [of ?bs a n x t] by (auto simp: hit_callback_def)
  ultimately show ?thesis using reason by blast
qed

definition sim_process_bp :: "sim ttd_process" where
  "sim_process_bp = fst (tp_set_breakpoint sim_api 0x1002 (Some 7) sim_process)"

lemma sim_process_bp_wf: "wf_state (tp_breakpoints sim_process_bp)"
proof -
  have "tp_breakpoints sim_process_bp
      = fst (set_breakpoint (cursor_sink sim_api) 0x1002 (Some 7) (state_new (md_threads sim_metadata)) (persistent_cursor sim_process))"
    by (simp add: sim_process_bp_def tp_set_breakpoint_def on_breakpoints_def split_beta Let_def sim_process_def)
  moreover have "next_id (manager (state_new (md_threads sim_metadata))) \<noteq> u64_max"
    by (simp add: state_new_def manager_new_def)
  ultimately show ?thesis
    unfolding set_breakpoint_def by (metis prod.collapse wf_register wf_state_new)
qed

theorem continue_reports_matching_breakpoint_witness:
  "case watchpoint_replay sim_api (sim_position 8) True sim_process_bp of
     Ret (p', r) \<Rightarrow> r = Inr (Breakpoint 1 0x1002)
       \<and> (\<exists>pre h post bp. reported_hits sim_api (sim_position 8) True sim_process_bp = pre @ h # post \<and> hit_on h bp
            \<and> state_get (tp_breakpoints sim_process_bp) 1 = Some bp \<and> Breakpoint 1 0x1002 = reported bp)
   | _ \<Rightarrow> False"
proof -
  have run: "case watchpoint_replay sim_api (sim_position 8) True sim_process_bp of
     Ret (p', r) \<Rightarrow> r = Inr (Breakpoint 1 0x1002) | _ \<Rightarrow> False"
    by code_simp
  then obtain p' where ret: "watchpoint_replay sim_api (sim_position 8) True sim_process_bp = Ret (p', Inr (Breakpoint 1 0x1002))"
    by (auto split: run.splits)
  have "stop_breakpoint (Breakpoint 1 0x1002) \<noteq> 0" by simp
  from continue_reports_matching_breakpoint [OF sim_process_bp_wf ret this, THEN conjunct1]
  have "\<exists>pre h post bp. reported_hits sim_api (sim_position 8) True sim_process_bp = pre @ h # post \<and> hit_on h bp
      \<and> state_get (tp_breakpoints sim_process_bp) 1 = Some bp \<and> Breakpoint 1 0x1002 = reported bp"
    by (simp only: stop_breakpoint.simps) blast
  then show ?thesis unfolding ret by simp
qed

section \<open>Steps\<close>

text \<open>A step with its two calls named: what it did, once the positioning and the replay are known.\<close>

definition stepped ::
  "'c cursor_api \<Rightarrow> 'c positioned_cursor \<Rightarrow> bool \<Rightarrow> 'c replay_cursor \<Rightarrow> 'c ttd_process \<Rightarrow> 'c ttd_process" where
  "stepped ca sc seeked c p =
     p\<lparr>tp_cursors := (tp_cursors p)\<lparr>step_cursor := sc\<lparr>pc_cursor := c, pc_at := Some (position_of ca c)\<rparr>\<rparr>,
       tp_stats := (tp_stats p)\<lparr>cursor_seeks := cursor_seeks (tp_stats p) + (if seeked then 1 else 0),
                               steps_done := steps_done (tp_stats p) + 1\<rparr>,
       tp_position := position_of ca c,
       current_thread_id := (if current_tid ca c \<noteq> 0 then Some (ucast (current_tid ca c)) else current_thread_id p)\<rparr>"

lemma step_on_step_cursor_unfold:
  assumes "prepare ca (tp_position p) (step_cursor (tp_cursors p)) = (sc, seeked)"
    and "(if backward then replay_backward_steps ca (pc_cursor sc) 1 else replay_forward_steps ca (pc_cursor sc) 1) = (c, rr, hs)"
  shows "step_on_step_cursor ca backward p =
    (case rr of
       Inl _ \<Rightarrow> (map_step (\<lambda>_. invalidate (sc\<lparr>pc_cursor := c\<rparr>)) p,
                 Inl (Ttd (Ffi (if backward then ''step_backward failed'' else ''step_forward failed''))))
     | Inr r \<Rightarrow> (stepped ca sc seeked c p,
                 case stop_reason_try_from r of
                   Inl e \<Rightarrow> Inl (Ttd e)
                 | Inr fallback \<Rightarrow>
                     Inr (enrich_exception (stepped ca sc seeked c p)
                       (case classify_continue_stop r 0 None (\<not> backward) (position_of ca c) (tp_lifetime p) (ends_with_process_exit p) of
                          Some reason \<Rightarrow> reason | None \<Rightarrow> fallback))))"
proof (cases rr)
  case (Inl e)
  with assms show ?thesis by (simp add: step_on_step_cursor_def)
next
  case (Inr r)
  have st: "(if current_tid ca c \<noteq> 0
      then (bump (\<lambda>s. s\<lparr>steps_done := steps_done s + 1\<rparr>) ((map_step (note_position (position_of ca c))
        (if seeked then bump (\<lambda>s. s\<lparr>cursor_seeks := cursor_seeks s + 1\<rparr>) (map_step (\<lambda>_. sc\<lparr>pc_cursor := c\<rparr>) p)
         else map_step (\<lambda>_. sc\<lparr>pc_cursor := c\<rparr>) p))\<lparr>tp_position := position_of ca c\<rparr>))
           \<lparr>current_thread_id := Some (ucast (current_tid ca c))\<rparr>
      else bump (\<lambda>s. s\<lparr>steps_done := steps_done s + 1\<rparr>) ((map_step (note_position (position_of ca c))
        (if seeked then bump (\<lambda>s. s\<lparr>cursor_seeks := cursor_seeks s + 1\<rparr>) (map_step (\<lambda>_. sc\<lparr>pc_cursor := c\<rparr>) p)
         else map_step (\<lambda>_. sc\<lparr>pc_cursor := c\<rparr>) p))\<lparr>tp_position := position_of ca c\<rparr>)) = stepped ca sc seeked c p"
    by (cases seeked; cases "current_tid ca c = 0") (simp_all add: stepped_def map_step_def bump_def note_position_def)
  have fields: "tp_position (stepped ca sc seeked c p) = position_of ca c" "tp_lifetime (stepped ca sc seeked c p) = tp_lifetime p"
    "ends_with_process_exit (stepped ca sc seeked c p) = ends_with_process_exit p"
    by (simp_all add: stepped_def)
  from Inr assms show ?thesis
    unfolding step_on_step_cursor_def Let_def split_beta
    by (simp only: st fst_conv snd_conv sum.case fields if_cancel split: sum.splits) simp
qed

text \<open>
  A step, forward or backward, does not depend on the breakpoints: with any other breakpoint
  state and any other persistent cursor the process reports the same result, and ends in the same
  state but for those two. A client that steps across its own breakpoint does not stop on it.
\<close>

theorem step_ignores_breakpoints:
  "step_on_step_cursor ca backward (map_persistent f (p\<lparr>tp_breakpoints := bs\<rparr>)) =
     (let (q, r) = step_on_step_cursor ca backward p
      in (map_persistent f (q\<lparr>tp_breakpoints := bs\<rparr>), r))"
proof -
  obtain sc b where pr: "prepare ca (tp_position p) (step_cursor (tp_cursors p)) = (sc, b)" by fastforce
  obtain c rr hs where rp: "(if backward then replay_backward_steps ca (pc_cursor sc) 1
      else replay_forward_steps ca (pc_cursor sc) 1) = (c, rr, hs)" using prod_cases3 by blast
  let ?p = "map_persistent f (p\<lparr>tp_breakpoints := bs\<rparr>)"
  have pr': "prepare ca (tp_position ?p) (step_cursor (tp_cursors ?p)) = (sc, b)" using pr by simp
  have en: "enrich_exception (stepped ca sc b c ?p) r = enrich_exception (stepped ca sc b c p) r" for r
    by (simp add: enrich_exception_def stepped_def split: stop_reason.splits)
  have st: "stepped ca sc b c ?p = map_persistent f ((stepped ca sc b c p)\<lparr>tp_breakpoints := bs\<rparr>)"
    by (simp add: stepped_def map_persistent_def)
  have ms: "map_step g ?p = map_persistent f ((map_step g p)\<lparr>tp_breakpoints := bs\<rparr>)" for g
    by (simp add: map_step_def map_persistent_def)
  show ?thesis
    unfolding step_on_step_cursor_unfold [OF pr rp] step_on_step_cursor_unfold [OF pr' rp] en
    by (cases rr) (simp_all add: st ms split: sum.splits)
qed

lemma step_cases:
  assumes "step_on_step_cursor ca backward p = (q, res)"
  shows "same_trace p q \<and> tp_breakpoints q = tp_breakpoints p \<and> persistent (tp_cursors q) = persistent (tp_cursors p)
    \<and> interrupt_epoch q = interrupt_epoch p
    \<and> (pc_at (step_cursor (tp_cursors q)) = None \<and> tp_position q = tp_position p \<and> isl res
       \<or> pc_at (step_cursor (tp_cursors q)) = Some (tp_position q)
         \<and> tp_position q = position_of ca (pc_cursor (step_cursor (tp_cursors q))))"
proof -
  obtain sc b where pr: "prepare ca (tp_position p) (step_cursor (tp_cursors p)) = (sc, b)" by fastforce
  obtain c rr hs where rp: "(if backward then replay_backward_steps ca (pc_cursor sc) 1
      else replay_forward_steps ca (pc_cursor sc) 1) = (c, rr, hs)" using prod_cases3 by blast
  from assms show ?thesis
    unfolding step_on_step_cursor_unfold [OF pr rp]
    by (cases rr) (auto simp: same_trace_def invalidate_def stepped_def)
qed

section \<open>Range steps\<close>

text \<open>The program counter the loop tests after a step.\<close>

definition range_pc :: "'c cursor_api \<Rightarrow> u32 \<Rightarrow> 'c ttd_process \<Rightarrow> u64" where
  "range_pc ca tid p =
     (case amd64_context ca (pc_cursor (step_cursor (tp_cursors p))) tid of Inl _ \<Rightarrow> 0 | Inr regs \<Rightarrow> Rip regs)"

text \<open>The process after a number of completed single steps that stayed in the range and moved forward.\<close>

inductive range_steps ::
  "'c cursor_api \<Rightarrow> u32 \<Rightarrow> u64 \<Rightarrow> u64 \<Rightarrow> nat \<Rightarrow> 'c ttd_process \<Rightarrow> 'c ttd_process \<Rightarrow> bool"
  for ca tid start stop where
  range_none: "range_steps ca tid start stop 0 p p"
| range_more: "step_on_step_cursor ca False p = (q, Inr StepComplete) \<Longrightarrow>
    start \<le> range_pc ca tid q \<Longrightarrow> range_pc ca tid q < stop \<Longrightarrow> tp_position p < tp_position q \<Longrightarrow>
    range_steps ca tid start stop n q r \<Longrightarrow> range_steps ca tid start stop (Suc n) p r"

definition range_ends ::
  "'c cursor_api \<Rightarrow> u32 \<Rightarrow> u64 \<Rightarrow> u64 \<Rightarrow> 'c ttd_process \<Rightarrow> 'c ttd_process \<times> (debug_error, stop_reason) result \<Rightarrow> bool" where
  "range_ends ca tid start stop q out \<longleftrightarrow> step_on_step_cursor ca False q = out
     \<and> (snd out = Inr StepComplete \<longrightarrow>
          \<not> (start \<le> range_pc ca tid (fst out) \<and> range_pc ca tid (fst out) < stop) \<or> tp_position (fst out) \<le> tp_position q)"

text \<open>The end of a range step that finds a request: the requests stay counted in the epoch.\<close>

definition noticed :: "u64 \<Rightarrow> 'c ttd_process \<Rightarrow> 'c ttd_process \<times> (debug_error, stop_reason) result" where
  "noticed requests p = (p\<lparr>interrupt_epoch := interrupt_epoch p + requests\<rparr>, Inr Interrupted)"

lemma step_range_loop_outcome:
  "\<exists>n q. range_steps ca tid start stop n p q \<and> (\<forall>j<n. interrupt_epoch p + arrived (k + j) = 0)
     \<and> (if interrupt_epoch p + arrived (k + n) \<noteq> 0
        then step_range_loop ca arrived tid start stop k (tp_position p) p = noticed (arrived (k + n)) q
        else range_ends ca tid start stop q (step_range_loop ca arrived tid start stop k (tp_position p) p))"
proof (induction "2 ^ 128 - rank (tp_position p)" arbitrary: k p rule: less_induct)
  case less
  let ?loop = "step_range_loop ca arrived tid start stop k (tp_position p) p"
  obtain q res where st: "step_on_step_cursor ca False p = (q, res)" by fastforce
  let ?on = "res = Inr StepComplete \<and> start \<le> range_pc ca tid q \<and> range_pc ca tid q < stop \<and> tp_position p < tp_position q"
  show ?case
  proof (cases "interrupt_epoch p + arrived k = 0 \<and> ?on")
    case True
    then have loop: "?loop = step_range_loop ca arrived tid start stop (k + 1) (tp_position q) q"
      using st by (subst step_range_loop.simps) (auto simp: range_pc_def Let_def)
    have "interrupt_epoch q = interrupt_epoch p" using step_cases [OF st] by blast
    moreover have "2 ^ 128 - rank (tp_position q) < 2 ^ 128 - rank (tp_position p)"
      using True distance_less [of True "tp_position p" "tp_position q"] by (simp add: distance_def)
    note less.hyps [OF this, of "k + 1"]
    ultimately obtain n r where IH: "range_steps ca tid start stop n q r" "\<forall>j<n. interrupt_epoch p + arrived (k + 1 + j) = 0"
      "if interrupt_epoch p + arrived (k + 1 + n) \<noteq> 0 then ?loop = noticed (arrived (k + 1 + n)) r else range_ends ca tid start stop r ?loop"
      unfolding loop by auto
    have "range_steps ca tid start stop (Suc n) p r"
      using range_more [OF _ _ _ _ IH(1)] st True by blast
    moreover have "\<forall>j<Suc n. interrupt_epoch p + arrived (k + j) = 0"
      using IH(2) True by (auto simp: less_Suc_eq_0_disj)
    ultimately show ?thesis using IH(3) by (intro exI [of _ "Suc n"] exI [of _ r]) simp
  next
    case False
    have "if interrupt_epoch p + arrived k \<noteq> 0 then ?loop = noticed (arrived k) p else range_ends ca tid start stop p ?loop"
    proof (cases "interrupt_epoch p + arrived k = 0")
      case True
      with False st have "?loop = (q, res)"
        by (subst step_range_loop.simps) (auto simp: range_pc_def Let_def not_le split: sum.splits)
      with True False st show ?thesis by (auto simp: range_ends_def)
    next
      case interrupted: False
      then show ?thesis by (subst step_range_loop.simps) (simp add: noticed_def)
    qed
    then show ?thesis using range_none by (intro exI [of _ 0] exI [of _ p]) auto
  qed
qed

text \<open>
  C12. A range step takes some number of single steps that complete inside the range and move
  forward, polling for an interrupt before each, and then either reports an interrupt requested by
  the next poll without stepping again, or takes a last step and reports what that step reports:
  any stop reason other than completion, an error, or a completed step that left the range or did
  not move forward.
\<close>

theorem step_range_outcome:
  assumes "start < stop"
  shows "\<exists>n q out. tp_step_range ca arrived thread_id start stop p = Ret out
     \<and> range_steps ca (step_range_tid thread_id p) start stop n p q \<and> (\<forall>j<n. interrupt_epoch p + arrived j = 0)
     \<and> (if interrupt_epoch p + arrived n \<noteq> 0 then out = noticed (arrived n) q
        else range_ends ca (step_range_tid thread_id p) start stop q out)"
  using step_range_loop_outcome [of ca "step_range_tid thread_id p" start stop p arrived 0, unfolded add_0] assms
  by (auto simp: tp_step_range_def not_le)

text \<open>A cursor of another architecture has no register context, so the loop reads a program counter of 0.\<close>

definition sim_process_x86 :: "sim ttd_process" where
  "sim_process_x86 = map_step (\<lambda>pc. pc\<lparr>pc_cursor := (pc_cursor pc)\<lparr>rc_arch := 0\<rparr>\<rparr>) sim_process"

theorem step_range_outcome_witness:
  "(case tp_step_range sim_api (\<lambda>i. if i = 2 then 1 else 0) (Some 7) 0 0x10 sim_process_x86 of
      Ret (q, r) \<Rightarrow> r = Inr Interrupted \<and> tp_position q = sim_position 2 | _ \<Rightarrow> False)
   \<and> (\<exists>n q out. tp_step_range sim_api (\<lambda>i. if i = 2 then 1 else 0) (Some 7) 0 0x10 sim_process_x86 = Ret out
        \<and> range_steps sim_api (step_range_tid (Some 7) sim_process_x86) 0 0x10 n sim_process_x86 q)"
proof
  show "case tp_step_range sim_api (\<lambda>i. if i = 2 then 1 else 0) (Some 7) 0 0x10 sim_process_x86 of
      Ret (q, r) \<Rightarrow> r = Inr Interrupted \<and> tp_position q = sim_position 2 | _ \<Rightarrow> False"
    by code_simp
  have "(0 :: u64) < 0x10" by simp
  from step_range_outcome [OF this, of sim_api "\<lambda>i. if i = 2 then 1 else 0" "Some 7" sim_process_x86]
  show "\<exists>n q out. tp_step_range sim_api (\<lambda>i. if i = 2 then 1 else 0) (Some 7) 0 0x10 sim_process_x86 = Ret out
        \<and> range_steps sim_api (step_range_tid (Some 7) sim_process_x86) 0 0x10 n sim_process_x86 q"
    by blast
qed

end
