(* ===== verification/Process_Invariants.thy ===== *)
theory Process_Invariants
  imports Execution
begin

text \<open>
  The invariants of a debug process over every history of calls: both position caches are coherent,
  the debug position is one the engine accepts, the persistent cursor carries exactly the recorded
  watchpoints, the step cursor carries none, and no callback stays installed. They give that every
  query is answered at the debug position and that a stopped process seeks at most once.
\<close>

section \<open>The engine's contract\<close>

text \<open>Moving and replaying a cursor do not change its watchpoints.\<close>

definition watch_stable :: "'c cursor_api \<Rightarrow> ('c \<Rightarrow> watchpoint_key set) \<Rightarrow> bool" where
  "watch_stable ca watched \<longleftrightarrow>
     (\<forall>c pos. watched (SetPosition ca c pos) = watched c)
   \<and> (\<forall>c m. watched (SetEventMask ca c m) = watched c) \<and> (\<forall>c m. watched (SetExceptionMask ca c m) = watched c)
   \<and> (\<forall>c h l n. watched (fst (ReplayForward ca c h l n)) = watched c)
   \<and> (\<forall>c h l n. watched (fst (ReplayBackward ca c h l n)) = watched c)"

definition engine_contract :: "'c cursor_api \<Rightarrow> ('c \<Rightarrow> watchpoint_key set) \<Rightarrow> bool" where
  "engine_contract ca watched \<longleftrightarrow>
     lands ca \<and> position_stable ca \<and> honours_watchpoints ca watched \<and> watch_stable ca watched"

section \<open>What breakpoint calls preserve of the cursor\<close>

definition preserves :: "'c key_op \<Rightarrow> ('c \<Rightarrow> bool) \<Rightarrow> bool" where
  "preserves op P \<longleftrightarrow> (\<forall>c k. P c \<longrightarrow> P (fst (op c k)))"

lemma sync_stale_preserves:
  assumes "preserves rem P"
  shows "P c \<Longrightarrow> sync_stale rem keys (r, rep, c) = (r', rep', c') \<Longrightarrow> P c'"
proof (induction keys arbitrary: r rep c)
  case (Cons k keys)
  obtain c1 res where op: "rem c k = (c1, res)" by fastforce
  with assms Cons.prems(1) have "P c1" unfolding preserves_def by (metis fst_conv)
  with Cons op show ?case by (auto split: sum.splits)
qed simp

lemma sync_missing_preserves:
  assumes "preserves add P"
  shows "P c \<Longrightarrow> sync_missing add keys (r, rep, err, c) = (r', rep', err', c') \<Longrightarrow> P c'"
proof (induction keys arbitrary: r rep err c)
  case (Cons k keys)
  obtain c1 res where op: "add c k = (c1, res)" by fastforce
  with assms Cons.prems(1) have "P c1" unfolding preserves_def by (metis fst_conv)
  with Cons op show ?case by (auto split: sum.splits)
qed simp

lemma state_sync_preserves:
  assumes add: "preserves (add_watchpoint w) P" and rem: "preserves (remove_watchpoint w) P"
    and c: "P c" and sy: "state_sync w s c = (s', c', res)"
  shows "P c'"
proof -
  let ?stale = "bs_difference (applied (watchpoints s)) (desired_watchpoints s)"
  let ?missing = "bs_difference (desired_watchpoints s) (applied (watchpoints s))"
  obtain r1 rep1 c1 where st: "sync_stale (remove_watchpoint w) ?stale (watchpoints s, default_report, c) = (r1, rep1, c1)"
    using prod_cases3 by blast
  obtain r2 rep2 err c2 where ms: "sync_missing (add_watchpoint w) ?missing (r1, rep1, None, c1) = (r2, rep2, err, c2)"
    using prod_cases4 by blast
  have "P c1" by (rule sync_stale_preserves [where P = P, OF rem c st])
  then have "P c2" by (rule sync_missing_preserves [where P = P, OF add _ ms])
  moreover from sy st ms have "c' = c2" by (auto simp: state_sync_def registry_sync_def Let_def)
  ultimately show ?thesis by simp
qed

lemma register_preserves:
  assumes "preserves (add_watchpoint w) P" and "preserves (remove_watchpoint w) P"
    and c: "P c" and reg: "register w fresh s c = (s', c', res)"
  shows "P c'"
proof -
  note sync = state_sync_preserves [where P = P, OF assms(1,2)]
  obtain m i where m: "fresh = (m, i)" by fastforce
  obtain s1 c1 r1 where sy: "state_sync w (s\<lparr>manager := m\<rparr>) c = (s1, c1, r1)" using prod_cases3 by blast
  obtain s3 c3 r3 where sy2: "state_sync w (s1\<lparr>manager := fst (manager_remove (manager s1) i)\<rparr>) c1 = (s3, c3, r3)"
    using prod_cases3 by blast
  have "P c1" by (rule sync [OF c sy])
  moreover from this have "P c3" by (rule sync [OF _ sy2])
  ultimately show ?thesis using reg m sy sy2 by (auto simp: register_def Let_def split: sum.splits)
qed

lemma breakpoint_step_preserves:
  assumes "preserves (add_watchpoint w) P" and "preserves (remove_watchpoint w) P"
    and c: "P c" and step: "breakpoint_step w call (s, c) = (s', c')"
  shows "P c'"
proof -
  have sync: "P c1" if "state_sync w t c = (s1, c1, res)" for t s1 c1 res
    by (rule state_sync_preserves [where P = P, OF assms(1,2) c that])
  have reg: "P c1" if "register w fresh s c = (s1, c1, res)" for fresh s1 c1 res
    by (rule register_preserves [where P = P, OF assms(1,2) c that])
  from step c show ?thesis
    by (cases call) (auto simp: set_breakpoint_def set_data_breakpoint_def state_remove_breakpoint_def
        state_remove_exact_def Let_def split: prod.splits if_splits dest: reg sync)
qed

lemma sink_preserves:
  "rc_callback (fst (sink_add ca c k)) = rc_callback c" "rc_callback (fst (sink_remove ca c k)) = rc_callback c"
  "position_stable ca \<Longrightarrow> position_of ca (fst (sink_add ca c k)) = position_of ca c"
  "position_stable ca \<Longrightarrow> position_of ca (fst (sink_remove ca c k)) = position_of ca c"
  by (simp_all add: sink_add_def sink_remove_def cursor_watchpoint_def cursor_remove_watchpoint_def
      position_stable_def position_of_def cursor_position_def split_beta Let_def)

section \<open>What replays preserve\<close>

lemma cursor_replay_frame:
  assumes "cursor_replay ca c limit n forward = (c', res, hs)"
  shows "rc_callback c' = rc_callback c" and "watch_stable ca watched \<Longrightarrow> watched (rc_sdk c') = watched (rc_sdk c)"
  using assms
  by (cases forward; force simp: cursor_replay_def watch_stable_def split_beta Let_def)+

lemma replay_past_frame:
  "replay_past ca md limit forward previous hits c = Some y \<Longrightarrow> watch_stable ca watched \<Longrightarrow>
   watched (rc_sdk (fst y)) = watched (rc_sdk c)"
proof (induction ca md limit forward previous hits c y rule: replay_past.raw_induct [rotated, consumes 1])
  case (1 f ca md limit forward previous hits c y)
  obtain d res gs where rt: "replay_to ca c limit forward = (d, res, gs)" using prod_cases3 by blast
  have "watched (rc_sdk d) = watched (rc_sdk c)"
    using rt cursor_replay_frame(2) 1(3)
    unfolding replay_to_def replay_forward_def replay_backward_def by (metis (full_types))
  with 1 show ?case by (auto simp: rt split: sum.splits if_splits option.splits)
qed

section \<open>The invariant\<close>

definition cursor_ok :: "'c cursor_api \<Rightarrow> 'c positioned_cursor \<Rightarrow> bool" where
  "cursor_ok ca pc \<longleftrightarrow> coherent ca pc \<and> rc_callback (pc_cursor pc) = None"

definition process_inv :: "'c cursor_api \<Rightarrow> ('c \<Rightarrow> watchpoint_key set) \<Rightarrow> 'c ttd_process \<Rightarrow> bool" where
  "process_inv ca watched p \<longleftrightarrow>
     wf_state (tp_breakpoints p) \<and> in_step watched (tp_breakpoints p) (persistent_cursor p)
   \<and> watched (rc_sdk (pc_cursor (step_cursor (tp_cursors p)))) = {}
   \<and> cursor_ok ca (persistent (tp_cursors p)) \<and> cursor_ok ca (step_cursor (tp_cursors p))
   \<and> valid_position ca (tp_position p) \<and> active_replay p = NoReplay"

text \<open>Between verbs the slot is empty, so an interrupt counts and leaves the engine alone.\<close>

lemma interrupt_between_verbs:
  "process_inv ca watched p \<Longrightarrow> tp_interrupt ca p = p\<lparr>interrupt_epoch := interrupt_epoch p + 1\<rparr>"
  by (simp add: process_inv_def tp_interrupt_def slot_interrupt_def)

lemma dropped_process_not_poked: "tp_cursors (tp_interrupt ca (tp_drop p)) = tp_cursors p"
  by (simp add: tp_interrupt_def slot_interrupt_def tp_drop_def clear_slot_def)

lemma prepare_frame:
  "rc_callback (pc_cursor (fst (prepare ca pos pc))) = rc_callback (pc_cursor pc)"
  "watch_stable ca watched \<Longrightarrow> watched (rc_sdk (pc_cursor (fst (prepare ca pos pc)))) = watched (rc_sdk (pc_cursor pc))"
  by (simp_all add: prepare_def seek_def cursor_set_position_def watch_stable_def Let_def)

lemma prepare_ok: "cursor_ok ca pc \<Longrightarrow> cursor_ok ca (fst (prepare ca pos pc))"
  by (simp add: cursor_ok_def prepare_coherent prepare_frame)

text \<open>A frame rule: a call that only re-positions the persistent cursor keeps the invariant.\<close>

lemma inv_repositioned:
  assumes "process_inv ca watched p" and "watch_stable ca watched"
    and "tp_breakpoints q = tp_breakpoints p" and "step_cursor (tp_cursors q) = step_cursor (tp_cursors p)"
    and "watched (rc_sdk (persistent_cursor q)) = watched (rc_sdk (persistent_cursor p))"
    and "cursor_ok ca (persistent (tp_cursors q))" and "valid_position ca (tp_position q)"
    and "active_replay p = NoReplay \<Longrightarrow> active_replay q = NoReplay"
  shows "process_inv ca watched q"
  using assms by (simp add: process_inv_def in_step_def)

lemma at_position_inv:
  assumes "process_inv ca watched p" and "watch_stable ca watched" and "at_position ca pos f p = (q, v)"
  shows "process_inv ca watched q"
proof -
  note q = at_position_spec [OF assms(3)]
  from assms(1) have ok: "cursor_ok ca (persistent (tp_cursors p))" and "valid_position ca (tp_position p)"
    by (simp_all add: process_inv_def)
  with q assms(2) prepare_ok [OF ok, of pos] show ?thesis
    by (intro inv_repositioned [OF assms(1,2)]) (simp_all add: prepare_frame same_trace_def)
qed

lemma with_cursor_inv:
  assumes "process_inv ca watched p" and "watch_stable ca watched" and "with_cursor ca f p = (q, v)"
  shows "process_inv ca watched q"
proof -
  have "process_inv ca watched (bump (\<lambda>s. s\<lparr>queries := queries s + 1\<rparr>) p)"
    using assms(1) by (simp add: process_inv_def)
  from at_position_inv [OF this assms(2)] assms(3) show ?thesis by (simp add: with_cursor_def)
qed

lemma adopt_inv:
  assumes "process_inv ca watched p" and "watch_stable ca watched"
  shows "process_inv ca watched (adopt_cursor_position ca p)"
  by (intro inv_repositioned [OF assms]) (use assms in \<open>auto simp: process_inv_def cursor_ok_def position_of_valid\<close>)

lemma goto_inv:
  assumes "process_inv ca watched p" and "watch_stable ca watched" and "tp_goto ca pos p = Ret (q, r)"
  shows "process_inv ca watched q"
proof -
  let ?pos = "clamp pos (fst (tp_lifetime p)) (snd (tp_lifetime p))"
  obtain p2 u where at: "at_position ca ?pos (\<lambda>_. ()) (p\<lparr>tp_position := ?pos\<rparr>) = (p2, u)" by (rule prod.exhaust)
  from assms(3) at have q: "q = adopt_cursor_position ca p2"
    by (auto simp: tp_goto_def Let_def split: if_splits)
  note p2 = at_position_spec [OF at]
  have ok: "cursor_ok ca (persistent (tp_cursors p))" using assms(1) by (simp add: process_inv_def)
  show ?thesis
    using p2 prepare_ok [OF ok, of ?pos] assms(2)
    by (intro inv_repositioned [OF assms(1,2)]) (simp_all add: q prepare_frame cursor_ok_def position_of_valid same_trace_def)
qed

lemma step_inv:
  assumes "process_inv ca watched p" and "watch_stable ca watched" and "step_on_step_cursor ca backward p = (q, res)"
  shows "process_inv ca watched q"
proof -
  let ?sc = "fst (prepare ca (tp_position p) (step_cursor (tp_cursors p)))"
  obtain b where pr: "prepare ca (tp_position p) (step_cursor (tp_cursors p)) = (?sc, b)" by (metis prod.collapse)
  obtain c rr hs where rp: "(if backward then replay_backward_steps ca (pc_cursor ?sc) 1
      else replay_forward_steps ca (pc_cursor ?sc) 1) = (c, rr, hs)" using prod_cases3 by blast
  have c: "rc_callback c = rc_callback (pc_cursor ?sc)" "watched (rc_sdk c) = watched (rc_sdk (pc_cursor ?sc))"
    using rp cursor_replay_frame assms(2)
    unfolding replay_backward_steps_def replay_forward_steps_def by (metis (full_types))+
  note inv = assms(1) [unfolded process_inv_def cursor_ok_def]
  from step_cases [OF assms(3)] inv have same: "tp_breakpoints q = tp_breakpoints p" "persistent (tp_cursors q) = persistent (tp_cursors p)"
    and val: "valid_position ca (tp_position q)" "active_replay q = NoReplay"
    by (auto simp: position_of_valid same_trace_def)
  from assms(3) have "pc_cursor (step_cursor (tp_cursors q)) = c" "coherent ca (step_cursor (tp_cursors q))"
    unfolding step_on_step_cursor_unfold [OF pr rp]
    by (auto simp: stepped_def coherent_def invalidate_def split: sum.splits)
  with inv same val c show ?thesis
    by (simp add: process_inv_def cursor_ok_def prepare_frame assms(2))
qed

lemma inv_ignores_epoch: "process_inv ca watched (p\<lparr>interrupt_epoch := n\<rparr>) = process_inv ca watched p"
  by (simp add: process_inv_def)

lemma range_steps_inv:
  "range_steps ca tid start stop n p q \<Longrightarrow> watch_stable ca watched \<Longrightarrow> process_inv ca watched p \<Longrightarrow> process_inv ca watched q"
  by (induction rule: range_steps.induct) (auto dest: step_inv)

lemma step_range_inv:
  assumes "process_inv ca watched p" and "watch_stable ca watched"
    and "tp_step_range ca arrived tid start stop p = Ret (q, res)"
  shows "process_inv ca watched q"
proof (cases "start < stop")
  case True
  from step_range_loop_outcome [of ca "step_range_tid tid p" start stop p arrived 0] obtain n r where
    rs: "range_steps ca (step_range_tid tid p) start stop n p r"
    and fin: "if interrupt_epoch p + arrived (0 + n) \<noteq> 0
        then step_range_loop ca arrived (step_range_tid tid p) start stop 0 (tp_position p) p = noticed (arrived (0 + n)) r
        else range_ends ca (step_range_tid tid p) start stop r (step_range_loop ca arrived (step_range_tid tid p) start stop 0 (tp_position p) p)"
    by blast
  have "process_inv ca watched r" by (rule range_steps_inv [OF rs assms(2,1)])
  with fin assms(3) True show ?thesis
    by (auto simp: tp_step_range_def range_ends_def noticed_def inv_ignores_epoch split: if_splits
        dest: step_inv [OF _ assms(2)])
next
  case False
  with assms(3) have "step_on_step_cursor ca False p = (q, res)" by (simp add: tp_step_range_def not_less)
  then show ?thesis by (rule step_inv [OF assms(1,2)])
qed

lemma continue_cursor_frame:
  assumes "watch_stable ca watched"
  shows "watched (rc_sdk (continue_cursor ca p)) = watched (rc_sdk (persistent_cursor p))"
  using assms by (simp add: continue_cursor_def Let_def set_event_mask_def install_borrowed_callback_def
      clear_watchpoint_callback_def watch_stable_def prepare_frame(2) [OF assms] set_exception_mask_def)

lemma continue_inv:
  assumes "process_inv ca watched p" and "watch_stable ca watched" and "watchpoint_replay ca limit forward p = Ret (q, res)"
  shows "process_inv ca watched q"
proof -
  obtain c rr hits where
    rp: "replay_past ca (metadata p) limit forward None [] (continue_cursor ca p) = Some (c, rr, hits)"
    and same: "tp_breakpoints q = tp_breakpoints p" "step_cursor (tp_cursors q) = step_cursor (tp_cursors p)"
      "persistent_cursor q = clear_watchpoint_callback c" "same_trace p q"
    and sh: "case rr of
       Inl e \<Rightarrow> res = Inl (Ttd e) \<and> tp_position q = tp_position p \<and> pc_at (persistent (tp_cursors q)) = None
     | Inr r \<Rightarrow> tp_position q = position_of ca c \<and> pc_at (persistent (tp_cursors q)) = Some (position_of ca c)
         \<and> res = resolve_continue_stop r (fold (store_hit (tp_breakpoints p)) hits 0) forward q"
    by (rule watchpoint_replay_shape [OF assms(3)])
  have w: "watched (rc_sdk (persistent_cursor q)) = watched (rc_sdk (persistent_cursor p))"
    using replay_past_frame [OF rp assms(2)] continue_cursor_frame [OF assms(2)] same(3)
    by (simp add: clear_watchpoint_callback_def)
  have "position_of ca (clear_watchpoint_callback c) = position_of ca c"
    by (simp add: position_of_def cursor_position_def clear_watchpoint_callback_def)
  with sh same(3) have "cursor_ok ca (persistent (tp_cursors q))"
    by (cases rr) (auto simp: cursor_ok_def coherent_def clear_watchpoint_callback_def)
  moreover from sh assms(1) have "valid_position ca (tp_position q)"
    by (cases rr) (auto simp: process_inv_def position_of_valid)
  ultimately show ?thesis using same w by (intro inv_repositioned [OF assms(1,2)]) (simp_all add: same_trace_def)
qed

lemma breakpoint_call_inv:
  assumes "process_inv ca watched p" and con: "engine_contract ca watched"
    and "next_id (manager (tp_breakpoints p)) \<noteq> u64_max"
    and bp: "breakpoint_step (cursor_sink ca) call (tp_breakpoints p, persistent_cursor p) = (bs, c)"
    and q: "q = map_persistent (\<lambda>pc. pc\<lparr>pc_cursor := c\<rparr>) (p\<lparr>tp_breakpoints := bs\<rparr>)"
  shows "process_inv ca watched q"
proof -
  from con have hon: "honours_watchpoints ca watched" and stab: "position_stable ca" by (simp_all add: engine_contract_def)
  note inv = assms(1) [unfolded process_inv_def cursor_ok_def]
  let ?P = "\<lambda>d. rc_callback d = None \<and> position_of ca d = position_of ca (persistent_cursor p)"
  have "preserves (add_watchpoint (cursor_sink ca)) ?P" "preserves (remove_watchpoint (cursor_sink ca)) ?P"
    using stab by (simp_all add: preserves_def cursor_sink_def sink_preserves)
  from breakpoint_step_preserves [where P = ?P, OF this _ bp] inv
  have c: "rc_callback c = None" "position_of ca c = position_of ca (persistent_cursor p)" by simp_all
  have "wf_state bs" using breakpoint_step_wf [OF _ assms(3) bp] inv by blast
  moreover have "in_step watched bs c" using breakpoint_step_in_step [OF hon _ bp] inv by blast
  ultimately show ?thesis
    using inv c by (simp add: process_inv_def cursor_ok_def q coherent_def split: option.splits)
qed

section \<open>Histories of calls\<close>

datatype process_call =
    DoStep bool
  | DoRange "nat \<Rightarrow> u64" "u64 option" u64 u64
  | DoContinue bool
  | DoGoto position
  | DoBreakpoint breakpoint_call
  | DoRead u64 nat
  | DoReadRanges u64 nat u32
  | DoThreads
  | DoThreadState "u64 option"
  | DoThreadInfo u64
  | DoSelect u64
  | DoBegin
  | DoInterrupt

definition returned :: "('c ttd_process \<times> 'a) run \<Rightarrow> 'c ttd_process option" where
  "returned r = (case r of Ret (p, _) \<Rightarrow> Some p | _ \<Rightarrow> None)"

definition breakpoint_call_on :: "'c cursor_api \<Rightarrow> breakpoint_call \<Rightarrow> 'c ttd_process \<Rightarrow> 'c ttd_process" where
  "breakpoint_call_on ca call p = (case call of
      SetCode addr tid \<Rightarrow> fst (tp_set_breakpoint ca addr tid p)
    | SetData addr sz kind \<Rightarrow> fst (tp_set_data_breakpoint ca addr sz kind p)
    | RemoveId i \<Rightarrow> fst (tp_remove_breakpoint ca i p)
    | RemoveExact addr sz access \<Rightarrow> fst (tp_remove_breakpoint_exact ca addr sz access p))"

text \<open>The process after one call, when the call returns.\<close>

fun process_step :: "'c cursor_api \<Rightarrow> process_call \<Rightarrow> 'c ttd_process \<Rightarrow> 'c ttd_process option" where
  "process_step ca (DoStep backward) p = returned (if backward then tp_step_back ca p else tp_step ca p)"
| "process_step ca (DoRange arrived tid start stop) p = returned (tp_step_range ca arrived tid start stop p)"
| "process_step ca (DoContinue forward) p = returned (if forward then tp_continue_forward ca p else tp_continue_backward ca p)"
| "process_step ca (DoGoto pos) p = returned (tp_goto ca pos p)"
| "process_step ca (DoBreakpoint call) p = Some (breakpoint_call_on ca call p)"
| "process_step ca (DoRead addr n) p = Some (fst (tp_read_memory ca addr (replicate n 0) p))"
| "process_step ca (DoReadRanges addr n m) p = Some (fst (tp_read_memory_ranges ca addr (replicate n 0) m p))"
| "process_step ca DoThreads p = Some (fst (tp_active_thread_ids ca p))"
| "process_step ca (DoThreadState tid) p = Some (fst (tp_thread_state ca tid p))"
| "process_step ca (DoThreadInfo tid) p = Some (fst (tp_thread_info ca tid p))"
| "process_step ca (DoSelect tid) p = Some (tp_set_current_thread tid p)"
| "process_step ca DoBegin p = Some (tp_begin_resume p)"
| "process_step ca DoInterrupt p = Some (tp_interrupt ca p)"

lemma breakpoint_call_on_step:
  assumes "breakpoint_step (cursor_sink ca) call (tp_breakpoints p, persistent_cursor p) = (bs, c)"
  shows "breakpoint_call_on ca call p = map_persistent (\<lambda>pc. pc\<lparr>pc_cursor := c\<rparr>) (p\<lparr>tp_breakpoints := bs\<rparr>)"
  using assms
  by (cases call) (auto simp: breakpoint_call_on_def tp_set_breakpoint_def tp_set_data_breakpoint_def
      tp_remove_breakpoint_def tp_remove_breakpoint_exact_def on_breakpoints_def split_beta Let_def)

lemma query_inv:
  assumes "process_inv ca watched p" and "watch_stable ca watched"
  shows "process_inv ca watched (fst (with_cursor ca f p))"
  using with_cursor_inv [OF assms] by (metis prod.collapse)

lemma verbs_keep_breakpoints:
  "step_on_step_cursor ca b p = (q, r) \<Longrightarrow> tp_breakpoints q = tp_breakpoints p"
  "watchpoint_replay ca limit forward p = Ret (q, res) \<Longrightarrow> tp_breakpoints q = tp_breakpoints p"
  "tp_goto ca pos p = Ret (q, res) \<Longrightarrow> tp_breakpoints q = tp_breakpoints p"
  "tp_breakpoints (fst (with_cursor ca f p)) = tp_breakpoints p"
proof -
  show "step_on_step_cursor ca b p = (q, r) \<Longrightarrow> tp_breakpoints q = tp_breakpoints p" by (simp add: step_cases)
  show "watchpoint_replay ca limit forward p = Ret (q, res) \<Longrightarrow> tp_breakpoints q = tp_breakpoints p"
    by (erule watchpoint_replay_shape)
  show "tp_goto ca pos p = Ret (q, res) \<Longrightarrow> tp_breakpoints q = tp_breakpoints p"
    using at_position_spec(5) by (fastforce simp: tp_goto_def Let_def split: if_splits prod.splits)
  show "tp_breakpoints (fst (with_cursor ca f p)) = tp_breakpoints p"
    using at_position_spec(5) [of ca "tp_position p" f "bump (\<lambda>s. s\<lparr>queries := queries s + 1\<rparr>) p"]
    by (metis bump_simps(8) prod.collapse with_cursor_def)
qed

lemma range_steps_breakpoints: "range_steps ca tid start stop n p q \<Longrightarrow> tp_breakpoints q = tp_breakpoints p"
  by (induction rule: range_steps.induct) (auto dest: verbs_keep_breakpoints(1))

lemma step_range_breakpoints:
  assumes "tp_step_range ca arrived tid start stop p = Ret (q, res)"
  shows "tp_breakpoints q = tp_breakpoints p"
proof (cases "start < stop")
  case True
  from step_range_loop_outcome [of ca "step_range_tid tid p" start stop p arrived 0] obtain n r where
    rs: "range_steps ca (step_range_tid tid p) start stop n p r"
    and fin: "if interrupt_epoch p + arrived (0 + n) \<noteq> 0
        then step_range_loop ca arrived (step_range_tid tid p) start stop 0 (tp_position p) p = noticed (arrived (0 + n)) r
        else range_ends ca (step_range_tid tid p) start stop r (step_range_loop ca arrived (step_range_tid tid p) start stop 0 (tp_position p) p)"
    by blast
  from assms True have "step_range_loop ca arrived (step_range_tid tid p) start stop 0 (tp_position p) p = (q, res)"
    by (auto simp: tp_step_range_def split: if_splits)
  with fin have "tp_breakpoints q = tp_breakpoints r \<or> step_on_step_cursor ca False r = (q, res)"
    by (auto simp: range_ends_def noticed_def split: if_splits)
  with range_steps_breakpoints [OF rs] show ?thesis using verbs_keep_breakpoints(1) by metis
next
  case False
  with assms have "step_on_step_cursor ca False p = (q, res)" by (simp add: tp_step_range_def not_less)
  then show ?thesis by (rule verbs_keep_breakpoints(1))
qed

lemma returned_Some: "returned r = Some q \<longleftrightarrow> (\<exists>v. r = Ret (q, v))"
  by (auto simp: returned_def split: run.splits)

lemma process_step_inv:
  assumes "process_inv ca watched p" and con: "engine_contract ca watched"
    and nid: "next_id (manager (tp_breakpoints p)) \<noteq> u64_max" and "process_step ca call p = Some q"
  shows "process_inv ca watched q \<and> next_id (manager (tp_breakpoints q))
    \<in> {next_id (manager (tp_breakpoints p)), next_id (manager (tp_breakpoints p)) + 1}"
proof -
  from con have ws: "watch_stable ca watched" by (simp add: engine_contract_def)
  note q = query_inv [OF assms(1) ws] verbs_keep_breakpoints(4)
  show ?thesis
  proof (cases call)
    case (DoStep b)
    then obtain v where "step_on_step_cursor ca b p = (q, v)"
      using assms(4) by (cases b) (auto simp: returned_Some tp_step_def tp_step_back_def)
    from step_inv [OF assms(1) ws this] verbs_keep_breakpoints(1) [OF this] show ?thesis by simp
  next
    case (DoRange arrived tid start stop)
    then obtain v where "tp_step_range ca arrived tid start stop p = Ret (q, v)"
      using assms(4) by (auto simp: returned_Some)
    from step_range_inv [OF assms(1) ws this] step_range_breakpoints [OF this] show ?thesis by simp
  next
    case (DoContinue forward)
    then obtain limit v where "watchpoint_replay ca limit forward p = Ret (q, v)"
      using assms(4) by (cases forward) (auto simp: returned_Some tp_continue_forward_def tp_continue_backward_def)
    from continue_inv [OF assms(1) ws this] verbs_keep_breakpoints(2) [OF this] show ?thesis by simp
  next
    case (DoGoto pos)
    then obtain v where "tp_goto ca pos p = Ret (q, v)"
      using assms(4) by (auto simp: returned_Some)
    from goto_inv [OF assms(1) ws this] verbs_keep_breakpoints(3) [OF this] show ?thesis by simp
  next
    case (DoBreakpoint call)
    obtain bs c where bp: "breakpoint_step (cursor_sink ca) call (tp_breakpoints p, persistent_cursor p) = (bs, c)" by fastforce
    with DoBreakpoint assms(4) have q: "q = map_persistent (\<lambda>pc. pc\<lparr>pc_cursor := c\<rparr>) (p\<lparr>tp_breakpoints := bs\<rparr>)"
      by (simp add: breakpoint_call_on_step)
    have "wf_state (tp_breakpoints p)" using assms(1) by (simp add: process_inv_def)
    from breakpoint_call_inv [OF assms(1) con nid bp q] breakpoint_step_wf [OF this nid bp] show ?thesis
      by (simp add: q)
  next
    case (DoThreadState tid)
    with assms(1,4) show ?thesis by (auto simp: tp_thread_state_def q split: option.splits if_splits)
  next
    case (DoThreadInfo tid)
    with assms(1,4) show ?thesis by (auto simp: tp_thread_info_def q split: option.splits)
  next
    case (DoSelect tid)
    with assms(1,4) show ?thesis by (auto simp: tp_set_current_thread_def process_inv_def)
  next
    case DoBegin
    with assms(1,4) show ?thesis by (auto simp: tp_begin_resume_def process_inv_def)
  next
    case DoInterrupt
    with assms(1,4) interrupt_between_verbs [OF assms(1)] show ?thesis by (auto simp: process_inv_def)
  qed (use assms(4) in \<open>auto simp: q tp_read_memory_def tp_read_memory_ranges_def tp_active_thread_ids_def\<close>)
qed

fun process_run :: "'c cursor_api \<Rightarrow> process_call list \<Rightarrow> 'c ttd_process \<Rightarrow> 'c ttd_process option" where
  "process_run ca [] p = Some p"
| "process_run ca (call # calls) p = Option.bind (process_step ca call p) (process_run ca calls)"

lemma process_run_inv:
  assumes "process_inv ca watched p" and "engine_contract ca watched"
    and "unat (next_id (manager (tp_breakpoints p))) + length calls < 2 ^ 64"
    and "process_run ca calls p = Some q"
  shows "process_inv ca watched q"
  using assms(1,3,4)
proof (induction calls arbitrary: p)
  case (Cons call calls)
  from Cons.prems(3) obtain p1 where st: "process_step ca call p = Some p1" and rest: "process_run ca calls p1 = Some q"
    by (auto simp: bind_eq_Some_conv)
  have "next_id (manager (tp_breakpoints p)) \<noteq> u64_max" using Cons.prems(2) by (auto dest: arg_cong [where f = unat])
  note one = process_step_inv [OF Cons.prems(1) assms(2) this st]
  then have "unat (next_id (manager (tp_breakpoints p1))) + length calls < 2 ^ 64"
    using Cons.prems(2) by (auto simp: unat_word_ariths)
  with one rest show ?case by (intro Cons.IH) auto
qed simp

text \<open>
  C6. Over any history of client calls on an engine that keeps its contract, the debug process keeps
  its invariant: every breakpoint is backed by a watchpoint the engine has, the registry and the
  engine agree, the step cursor carries no watchpoint, both position caches are coherent, the debug
  position is one the engine accepts, and no callback outlives the call that installed it.
\<close>

theorem process_invariant:
  assumes "process_inv ca watched p" and "engine_contract ca watched"
    and "unat (next_id (manager (tp_breakpoints p))) + length calls < 2 ^ 64"
    and "process_run ca calls p = Some q"
  shows "process_inv ca watched q"
  using assms by (rule process_run_inv)

section \<open>Queries\<close>

text \<open>
  C27. In a process that satisfies the invariant, a query is answered by the engine's cursor exactly
  at the debug position, and leaves the debug position alone; and a second query, of whatever kind,
  issues no seek.
\<close>

theorem queries_at_debug_position:
  assumes "process_inv ca watched p" and "engine_contract ca watched" and "with_cursor ca f p = (q, v)"
  shows "position_of ca (persistent_cursor q) = tp_position p \<and> v = f (persistent_cursor q)
    \<and> tp_position q = tp_position p
    \<and> cursor_seeks (tp_stats (fst (with_cursor ca g q))) = cursor_seeks (tp_stats q)"
proof -
  from assms(1,2) have l: "lands ca" and coh: "coherent ca (persistent (tp_cursors p))" and val: "valid_position ca (tp_position p)"
    by (simp_all add: process_inv_def engine_contract_def cursor_ok_def)
  let ?b = "bump (\<lambda>s. s\<lparr>queries := queries s + 1\<rparr>)"
  have at: "at_position ca (tp_position p) f (?b p) = (q, v)" using assms(3) by (simp add: with_cursor_def)
  note q = at_position_spec [OF at]
  have pos: "position_of ca (persistent_cursor q) = tp_position p"
    using prepare_valid [OF l coh val] q(1) by simp
  have cached: "pc_at (persistent (tp_cursors q)) = Some (tp_position p)"
    using pos q(1) by (auto simp: prepare_def Let_def split: if_splits)
  obtain r w where at2: "at_position ca (tp_position q) g (?b q) = (r, w)" by fastforce
  have "cursor_seeks (tp_stats r) = cursor_seeks (tp_stats q)"
    using at_position_spec(9) [OF at2] cached q(4) by (simp add: prepare_def)
  with pos q at2 show ?thesis by (simp add: with_cursor_def)
qed

text \<open>
  C28. A jump panics exactly when the recorded lifetime is inverted. Otherwise it reports the position
  reached, the debug position becomes where the engine landed for the target clamped into the
  lifetime (the clamped target itself when the engine has that position), and the current thread is
  the one the engine reports there.
\<close>

theorem goto_lands:
  assumes "process_inv ca watched p" and "engine_contract ca watched"
  shows "(tp_goto ca pos p = Panic ''assertion failed: min <= max'' \<longleftrightarrow> snd (tp_lifetime p) < fst (tp_lifetime p))
    \<and> (\<forall>q r. tp_goto ca pos p = Ret (q, r) \<longrightarrow> r = Inr PositionReached
        \<and> tp_position q = position_of ca (persistent_cursor q)
        \<and> (valid_position ca (clamp pos (fst (tp_lifetime p)) (snd (tp_lifetime p)))
             \<longrightarrow> tp_position q = clamp pos (fst (tp_lifetime p)) (snd (tp_lifetime p)))
        \<and> current_thread_id q = (if current_tid ca (persistent_cursor q) = 0 then None
                                 else Some (ucast (current_tid ca (persistent_cursor q)))))"
proof -
  let ?pos = "clamp pos (fst (tp_lifetime p)) (snd (tp_lifetime p))"
  obtain p2 u where at: "at_position ca ?pos (\<lambda>_. ()) (p\<lparr>tp_position := ?pos\<rparr>) = (p2, u)" by (rule prod.exhaust)
  from assms have l: "lands ca" and coh: "coherent ca (persistent (tp_cursors p))"
    by (simp_all add: process_inv_def engine_contract_def cursor_ok_def)
  have "persistent (tp_cursors p2) = fst (prepare ca ?pos (persistent (tp_cursors p)))"
    using at_position_spec(1) [OF at] by simp
  then have "valid_position ca ?pos \<Longrightarrow> position_of ca (persistent_cursor p2) = ?pos"
    using prepare_valid [OF l coh] by simp
  moreover have "current_thread_id (adopt_cursor_position ca p2) =
      (if current_tid ca (persistent_cursor p2) = 0 then None else Some (ucast (current_tid ca (persistent_cursor p2))))"
    by (simp add: adopt_cursor_position_def Let_def)
  ultimately show ?thesis using at by (auto simp: tp_goto_def Let_def)
qed

section \<open>The simulated process keeps the contract\<close>

lemma sim_run_keys: "sim_keys (fst (sim_run forward hook n c)) = sim_keys c"
proof (induction n arbitrary: c)
  case (Suc n)
  show ?case
  proof (cases "sim_next forward c")
    case (Some c1)
    then have "sim_keys c1 = sim_keys c" by (auto simp: sim_next_def split: if_splits)
    with sim_run_step(1) [OF Some, of hook n] Suc [of c1] show ?thesis by auto
  qed (simp add: sim_run.simps(2))
qed simp

lemma sim_SetPosition_lands: "sim_position (sim_at (sim_SetPosition c (sim_position k))) = sim_position k"
proof -
  have "sim_position k \<le> sim_position 8" by (simp add: sim_position_def less_eq_position_def word_le_nat_alt
        unsigned_of_nat take_bit_eq_mod min_def)
  moreover have "sim_position 0 \<le> sim_position k" by (simp add: sim_position_mono)
  moreover have "unat (steps (sim_position k)) = min k 8"
    by (simp add: sim_position_def unsigned_of_nat take_bit_eq_mod min_def)
  ultimately show ?thesis by (simp add: sim_SetPosition_def leD not_less sim_position_def)
qed

lemma sim_contract: "engine_contract sim_api (\<lambda>c. set (sim_keys c))"
proof -
  have "lands sim_api"
    by (simp add: lands_def sim_api_def sim_GetPosition_def sim_SetPosition_lands)
  moreover have "position_stable sim_api"
    by (simp add: position_stable_def sim_api_def sim_GetPosition_def sim_AddMemoryWatchpoint_def
        sim_RemoveMemoryWatchpoint_def sim_SetEventMask_def sim_SetExceptionMask_def)
  moreover have "honours_watchpoints sim_api (\<lambda>c. set (sim_keys c))"
    unfolding honours_watchpoints_def sim_api_watch by auto
  moreover have "watch_stable sim_api (\<lambda>c. set (sim_keys c))"
    by (simp add: watch_stable_def sim_api_replay sim_replay_sdk sim_run_keys)
      (simp add: sim_api_def sim_SetPosition_def sim_SetEventMask_def sim_SetExceptionMask_def)
  ultimately show ?thesis by (simp add: engine_contract_def)
qed

lemma sim_process_inv: "process_inv sim_api (\<lambda>c. set (sim_keys c)) sim_process"
proof -
  have "valid_position sim_api (sim_position 0)"
    unfolding valid_position_def sim_api_replay by (metis sim.select_convs(1))
  moreover have "wf_state (tp_breakpoints sim_process)" by (simp add: sim_process_def Let_def wf_state_new)
  ultimately show ?thesis
    by (simp add: process_inv_def sim_process_def Let_def in_step_def keys_valid_def cursor_ok_def
        positioned_new_def coherent_def state_new_def registry_new_def sim_cursor_def sim_start_def)
qed

theorem process_invariant_witness:
  "\<exists>q. process_run sim_api [DoBreakpoint (SetCode 0x1002 None), DoStep False] sim_process = Some q
     \<and> tp_position q = sim_position 1 \<and> process_inv sim_api (\<lambda>c. set (sim_keys c)) q"
proof -
  let ?calls = "[DoBreakpoint (SetCode 0x1002 None), DoStep False]"
  have "map_option tp_position (process_run sim_api ?calls sim_process) = Some (sim_position 1)"
    by code_simp
  then obtain q where q: "process_run sim_api ?calls sim_process = Some q" "tp_position q = sim_position 1"
    by (auto simp del: process_run.simps)
  have "unat (next_id (manager (tp_breakpoints sim_process))) + length ?calls < 2 ^ 64"
    by (simp add: sim_process_def Let_def state_new_def manager_new_def)
  from process_invariant [OF sim_process_inv sim_contract this q(1)] q show ?thesis by blast
qed

theorem queries_at_debug_position_witness:
  "process_inv sim_api (\<lambda>c. set (sim_keys c)) sim_process
   \<and> position_of sim_api (persistent_cursor (fst (tp_read_memory sim_api 0x1000 [0, 0] sim_process))) = sim_position 0
   \<and> cursor_seeks (tp_stats (fst (tp_active_thread_ids sim_api (fst (tp_read_memory sim_api 0x1000 [0, 0] sim_process))))) = 1"
proof -
  obtain q v where r: "with_cursor sim_api (\<lambda>c. read_into sim_api c 0x1000 [0, 0]) sim_process = (q, v)" by (rule prod.exhaust)
  obtain g where g: "tp_active_thread_ids sim_api = with_cursor sim_api g" by (simp add: tp_active_thread_ids_def)
  have "cursor_seeks (tp_stats (fst (tp_read_memory sim_api 0x1000 [0, 0] sim_process))) = 1" by code_simp
  moreover have "tp_read_memory sim_api 0x1000 [0, 0] sim_process = (q, v)" using r by (simp add: tp_read_memory_def)
  moreover have "tp_position sim_process = sim_position 0" by (simp add: sim_process_def Let_def)
  ultimately show ?thesis
    using queries_at_debug_position [OF sim_process_inv sim_contract r, of g] sim_process_inv by (simp add: g)
qed

theorem goto_lands_witness:
  "case tp_goto sim_api (Position 7 7) sim_process of
     Ret (q, r) \<Rightarrow> r = Inr PositionReached \<and> tp_position q = sim_position 8 | _ \<Rightarrow> False"
proof -
  have "fst (tp_lifetime sim_process) \<le> snd (tp_lifetime sim_process)"
    and cl: "clamp (Position 7 7) (fst (tp_lifetime sim_process)) (snd (tp_lifetime sim_process)) = sim_position 8"
    by (simp_all add: sim_process_def Let_def clamp_def sim_position_def less_position_def less_eq_position_def)
  then have "\<exists>q r. tp_goto sim_api (Position 7 7) sim_process = Ret (q, r)"
    by (simp add: tp_goto_def split_beta Let_def leD)
  then obtain q r where ret: "tp_goto sim_api (Position 7 7) sim_process = Ret (q, r)" by blast
  have "valid_position sim_api (sim_position 8)"
    unfolding valid_position_def sim_api_replay by (metis sim.select_convs(1))
  with goto_lands [OF sim_process_inv sim_contract, of "Position 7 7"] ret cl
  have "r = Inr PositionReached \<and> tp_position q = sim_position 8" by auto
  with ret show ?thesis by simp
qed

end
