(* ===== verification/Debug_Target.thy ===== *)
theory Debug_Target
  imports Process_Invariants
begin

text \<open>
  The debug target interface (\<open>target.rs\<close>): the trait \<open>DebugTarget\<close> as a record of operations with
  its default methods, its implementation by \<open>TtdProcess\<close>, and the laws the protocol layer relies on
  as the locale \<open>debug_target\<close>, interpreted on that implementation. The optimised range step of
  \<open>TtdProcess\<close> is shown equivalent to the trait's portable single-step loop.
\<close>

section \<open>The trait\<close>

type_synonym ('t, 'a) target_verb = "'t \<Rightarrow> ('t \<times> (debug_error, 'a) result) run"

text \<open>A method on \<open>&self\<close> returns the target too: a query moves its cursor and counts.\<close>

record 't target_ops =
  dt_step :: "('t, stop_reason) target_verb"
  dt_step_back :: "('t, stop_reason) target_verb"
  dt_step_range :: "u64 option \<Rightarrow> u64 \<Rightarrow> u64 \<Rightarrow> ('t, stop_reason) target_verb"
  dt_continue_forward :: "('t, stop_reason) target_verb"
  dt_continue_backward :: "('t, stop_reason) target_verb"
  dt_goto :: "position \<Rightarrow> ('t, stop_reason) target_verb"
  dt_read_memory :: "u64 \<Rightarrow> u8 list \<Rightarrow> 't \<Rightarrow> 't \<times> u8 list \<times> nat"
  dt_read_memory_ranges :: "u64 \<Rightarrow> u8 list \<Rightarrow> u32 \<Rightarrow> 't \<Rightarrow> 't \<times> u8 list \<times> nat \<times> memory_range list"
  dt_set_breakpoint :: "u64 \<Rightarrow> u64 option \<Rightarrow> 't \<Rightarrow> 't \<times> (debug_error, u64) result"
  dt_set_data_breakpoint :: "u64 \<Rightarrow> u64 \<Rightarrow> breakpoint_kind \<Rightarrow> 't \<Rightarrow> 't \<times> (debug_error, u64) result"
  dt_remove_breakpoint :: "u64 \<Rightarrow> 't \<Rightarrow> 't \<times> bool"
  dt_remove_breakpoint_exact :: "u64 \<Rightarrow> u64 \<Rightarrow> access_mask \<Rightarrow> 't \<Rightarrow> 't \<times> bool"
  dt_active_thread_ids :: "'t \<Rightarrow> 't \<times> u64 list"
  dt_thread_info :: "u64 \<Rightarrow> 't \<Rightarrow> 't \<times> thread_extra_info option"
  dt_thread_state :: "u64 option \<Rightarrow> 't \<Rightarrow> 't \<times> (x64_regs \<times> u64) option"
  dt_current_thread_id :: "'t \<Rightarrow> u64 option"
  dt_set_current_thread :: "u64 \<Rightarrow> 't \<Rightarrow> 't"
  dt_modules :: "'t \<Rightarrow> module_info list"
  dt_main_module :: "'t \<Rightarrow> module_info option"
  dt_exceptions :: "'t \<Rightarrow> exception_info list"
  dt_diagnostics :: "'t \<Rightarrow> target_diagnostics run"
  dt_stats :: "'t \<Rightarrow> target_stats"
  dt_position :: "'t \<Rightarrow> position"
  dt_lifetime :: "'t \<Rightarrow> position \<times> position"
  dt_interrupt_handle :: "'t \<Rightarrow> ('t \<Rightarrow> 't) option"
  dt_begin_resume :: "'t \<Rightarrow> 't"

section \<open>Default methods\<close>

function default_range_loop ::
  "'t target_ops \<Rightarrow> u64 option \<Rightarrow> u64 \<Rightarrow> u64 \<Rightarrow> position \<Rightarrow> ('t, stop_reason) target_verb" where
  "default_range_loop dt thread_id start stop previous t =
     (case dt_step dt t of
        Ret (t1, Inr StepComplete) \<Rightarrow>
          (case dt_thread_state dt thread_id t1 of
             (t2, None) \<Rightarrow> Ret (t2, Inr StepComplete)
           | (t2, Some (regs, _)) \<Rightarrow>
               if \<not> (start \<le> Rip regs \<and> Rip regs < stop) then Ret (t2, Inr StepComplete)
               else if dt_position dt t2 \<le> previous then Ret (t2, Inr StepComplete)
               else default_range_loop dt thread_id start stop (dt_position dt t2) t2)
      | other \<Rightarrow> other)"
  by pat_completeness auto

termination
  by (relation "measure (\<lambda>(dt, tid, start, stop, previous, t). 2 ^ 128 - rank previous)")
    (use rank_bound in \<open>auto simp: not_le rank_less_iff intro!: diff_less_mono2\<close>)

declare default_range_loop.simps [simp del]

definition default_step_range ::
  "'t target_ops \<Rightarrow> u64 option \<Rightarrow> u64 \<Rightarrow> u64 \<Rightarrow> ('t, stop_reason) target_verb" where
  "default_step_range dt thread_id start stop t =
     default_range_loop dt thread_id start stop (dt_position dt t) t"

definition default_read_memory_ranges ::
  "'t target_ops \<Rightarrow> u64 \<Rightarrow> u8 list \<Rightarrow> u32 \<Rightarrow> 't \<Rightarrow> 't \<times> u8 list \<times> nat \<times> memory_range list" where
  "default_read_memory_ranges dt addr buf max_ranges t =
     (let (t', buf', n) = dt_read_memory dt addr buf t in (t', buf', n, []))"

definition default_remove_breakpoint_exact :: "u64 \<Rightarrow> u64 \<Rightarrow> access_mask \<Rightarrow> 't \<Rightarrow> 't \<times> bool" where
  "default_remove_breakpoint_exact addr sz access t = (t, False)"

definition default_main_module :: "'t \<Rightarrow> module_info option" where
  "default_main_module t = None"

definition default_exceptions :: "'t \<Rightarrow> exception_info list" where
  "default_exceptions t = []"

definition default_interrupt_handle :: "'t \<Rightarrow> ('t \<Rightarrow> 't) option" where
  "default_interrupt_handle t = None"

definition default_begin_resume :: "'t \<Rightarrow> 't" where
  "default_begin_resume t = t"

section \<open>The implementation\<close>

text \<open>
  \<open>impl DebugTarget for TtdProcess\<close>, which overrides every default. \<open>arrived\<close> is the number of
  interrupt requests other threads have made by each poll of a range step.
\<close>

definition ttd_target :: "'c cursor_api \<Rightarrow> (nat \<Rightarrow> u64) \<Rightarrow> 'c ttd_process target_ops" where
  "ttd_target ca arrived = \<lparr>
     dt_step = tp_step ca,
     dt_step_back = tp_step_back ca,
     dt_step_range = tp_step_range ca arrived,
     dt_continue_forward = tp_continue_forward ca,
     dt_continue_backward = tp_continue_backward ca,
     dt_goto = tp_goto ca,
     dt_read_memory = tp_read_memory ca,
     dt_read_memory_ranges = tp_read_memory_ranges ca,
     dt_set_breakpoint = tp_set_breakpoint ca,
     dt_set_data_breakpoint = tp_set_data_breakpoint ca,
     dt_remove_breakpoint = tp_remove_breakpoint ca,
     dt_remove_breakpoint_exact = tp_remove_breakpoint_exact ca,
     dt_active_thread_ids = tp_active_thread_ids ca,
     dt_thread_info = tp_thread_info ca,
     dt_thread_state = tp_thread_state ca,
     dt_current_thread_id = current_thread_id,
     dt_set_current_thread = tp_set_current_thread,
     dt_modules = (\<lambda>p. md_modules (metadata p)),
     dt_main_module = tp_main_module,
     dt_exceptions = (\<lambda>p. md_exceptions (metadata p)),
     dt_diagnostics = tp_diagnostics,
     dt_stats = tp_stats_snapshot,
     dt_position = tp_position,
     dt_lifetime = tp_lifetime,
     dt_interrupt_handle = (\<lambda>p. Some (tp_interrupt ca)),
     dt_begin_resume = tp_begin_resume\<rparr>"

lemma ttd_target_simps [simp]:
  "dt_step (ttd_target ca arrived) = tp_step ca" "dt_step_back (ttd_target ca arrived) = tp_step_back ca"
  "dt_step_range (ttd_target ca arrived) = tp_step_range ca arrived"
  "dt_continue_forward (ttd_target ca arrived) = tp_continue_forward ca"
  "dt_continue_backward (ttd_target ca arrived) = tp_continue_backward ca"
  "dt_goto (ttd_target ca arrived) = tp_goto ca" "dt_read_memory (ttd_target ca arrived) = tp_read_memory ca"
  "dt_read_memory_ranges (ttd_target ca arrived) = tp_read_memory_ranges ca"
  "dt_set_breakpoint (ttd_target ca arrived) = tp_set_breakpoint ca"
  "dt_set_data_breakpoint (ttd_target ca arrived) = tp_set_data_breakpoint ca"
  "dt_remove_breakpoint (ttd_target ca arrived) = tp_remove_breakpoint ca"
  "dt_remove_breakpoint_exact (ttd_target ca arrived) = tp_remove_breakpoint_exact ca"
  "dt_active_thread_ids (ttd_target ca arrived) = tp_active_thread_ids ca"
  "dt_thread_info (ttd_target ca arrived) = tp_thread_info ca"
  "dt_thread_state (ttd_target ca arrived) = tp_thread_state ca"
  "dt_current_thread_id (ttd_target ca arrived) = current_thread_id"
  "dt_set_current_thread (ttd_target ca arrived) = tp_set_current_thread"
  "dt_position (ttd_target ca arrived) = tp_position" "dt_lifetime (ttd_target ca arrived) = tp_lifetime"
  "dt_begin_resume (ttd_target ca arrived) = tp_begin_resume"
  "dt_modules (ttd_target ca arrived) = (\<lambda>p. md_modules (metadata p))"
  "dt_main_module (ttd_target ca arrived) = tp_main_module"
  "dt_interrupt_handle (ttd_target ca arrived) = (\<lambda>p. Some (tp_interrupt ca))"
  by (simp_all add: ttd_target_def)

section \<open>The laws a frontend relies on\<close>

text \<open>
  \<open>inv\<close> is the target's own invariant and \<open>room\<close> the states that can still hand out a breakpoint id.
  Verbs and breakpoint calls keep the invariant; queries keep it, the position and the selected
  thread; selecting a thread selects it.
\<close>

locale debug_target =
  fixes dt :: "'t target_ops" and inv :: "'t \<Rightarrow> bool" and room :: "'t \<Rightarrow> bool"
  assumes step_inv: "inv t \<Longrightarrow> dt_step dt t = Ret (t', r) \<Longrightarrow> inv t'"
    and step_back_inv: "inv t \<Longrightarrow> dt_step_back dt t = Ret (t', r) \<Longrightarrow> inv t'"
    and step_range_inv: "inv t \<Longrightarrow> dt_step_range dt tid start stop t = Ret (t', r) \<Longrightarrow> inv t'"
    and continue_forward_inv: "inv t \<Longrightarrow> dt_continue_forward dt t = Ret (t', r) \<Longrightarrow> inv t'"
    and continue_backward_inv: "inv t \<Longrightarrow> dt_continue_backward dt t = Ret (t', r) \<Longrightarrow> inv t'"
    and goto_inv: "inv t \<Longrightarrow> dt_goto dt pos t = Ret (t', r) \<Longrightarrow> inv t'"
    and set_breakpoint_inv: "inv t \<Longrightarrow> room t \<Longrightarrow> inv (fst (dt_set_breakpoint dt addr th t))"
    and set_data_breakpoint_inv: "inv t \<Longrightarrow> room t \<Longrightarrow> inv (fst (dt_set_data_breakpoint dt addr sz kind t))"
    and remove_exact_inv: "inv t \<Longrightarrow> room t \<Longrightarrow> inv (fst (dt_remove_breakpoint_exact dt addr sz access t))"
    and read_memory_inv: "inv t \<Longrightarrow> inv (fst (dt_read_memory dt addr buf t))"
    and read_memory_ranges_inv: "inv t \<Longrightarrow> inv (fst (dt_read_memory_ranges dt addr buf m t))"
    and active_thread_ids_inv: "inv t \<Longrightarrow> inv (fst (dt_active_thread_ids dt t))"
    and thread_info_inv: "inv t \<Longrightarrow> inv (fst (dt_thread_info dt i t))"
    and thread_state_inv: "inv t \<Longrightarrow> inv (fst (dt_thread_state dt tid t))"
    and select_inv: "inv t \<Longrightarrow> inv (dt_set_current_thread dt i t)"
    and begin_inv: "inv t \<Longrightarrow> inv (dt_begin_resume dt t)"
    and interrupt_inv: "dt_interrupt_handle dt t0 = Some f \<Longrightarrow> inv t \<Longrightarrow> inv (f t)"
    and read_memory_pos: "dt_position dt (fst (dt_read_memory dt addr buf t)) = dt_position dt t"
    and read_memory_ranges_pos: "dt_position dt (fst (dt_read_memory_ranges dt addr buf m t)) = dt_position dt t"
    and active_thread_ids_pos: "dt_position dt (fst (dt_active_thread_ids dt t)) = dt_position dt t"
    and active_thread_ids_cur: "dt_current_thread_id dt (fst (dt_active_thread_ids dt t)) = dt_current_thread_id dt t"
    and thread_info_pos: "dt_position dt (fst (dt_thread_info dt i t)) = dt_position dt t"
    and thread_state_pos: "dt_position dt (fst (dt_thread_state dt tid t)) = dt_position dt t"
    and select_pos: "dt_position dt (dt_set_current_thread dt i t) = dt_position dt t"
    and select_cur: "dt_current_thread_id dt (dt_set_current_thread dt i t) = Some i"
    and begin_pos: "dt_position dt (dt_begin_resume dt t) = dt_position dt t"
begin

lemma default_range_loop_inv:
  "d = dt \<Longrightarrow> inv t \<Longrightarrow> default_range_loop d tid start stop previous t = Ret (t', r) \<Longrightarrow> inv t'"
proof (induction d tid start stop previous t arbitrary: t' r rule: default_range_loop.induct)
  case (1 d tid start stop previous t)
  show ?case
  proof (cases "\<exists>t1. dt_step dt t = Ret (t1, Inr StepComplete)")
    case True
    then obtain t1 where st: "dt_step dt t = Ret (t1, Inr StepComplete)" by blast
    obtain t2 v where ts: "dt_thread_state dt tid t1 = (t2, v)" by (rule prod.exhaust)
    have "inv t2" using thread_state_inv [OF step_inv [OF 1(3) st], of tid] ts by simp
    with 1(1) [of "(t1, Inr StepComplete)" t1 "Inr StepComplete" StepComplete t2 v] 1(2,4) st ts show ?thesis
      by (subst (asm) (2) default_range_loop.simps) (auto split: option.splits if_splits)
  next
    case False
    with 1(2-4) step_inv show ?thesis
      by (subst (asm) default_range_loop.simps) (auto split: run.splits sum.splits stop_reason.splits)
  qed
qed

lemma default_step_range_inv: "inv t \<Longrightarrow> default_step_range dt tid start stop t = Ret (t', r) \<Longrightarrow> inv t'"
  unfolding default_step_range_def by (rule default_range_loop_inv [OF refl])

end

section \<open>\<open>TtdProcess\<close> keeps the laws\<close>

definition has_room :: "'c ttd_process \<Rightarrow> bool" where
  "has_room p \<longleftrightarrow> next_id (manager (tp_breakpoints p)) \<noteq> u64_max"

lemma with_cursor_keeps:
  "tp_position (fst (with_cursor ca f p)) = tp_position p"
  "current_thread_id (fst (with_cursor ca f p)) = current_thread_id p"
proof -
  let ?b = "bump (\<lambda>s. s\<lparr>queries := queries s + 1\<rparr>) p"
  obtain q v where at: "at_position ca (tp_position p) f ?b = (q, v)" by (rule prod.exhaust)
  from at_position_spec(4,7) [OF at] at
  show "tp_position (fst (with_cursor ca f p)) = tp_position p"
    "current_thread_id (fst (with_cursor ca f p)) = current_thread_id p"
    by (simp_all add: with_cursor_def)
qed

lemma thread_queries_keep:
  "tp_position (fst (tp_thread_state ca tid p)) = tp_position p"
  "tp_position (fst (tp_thread_info ca i p)) = tp_position p"
  by (auto simp: tp_thread_state_def tp_thread_info_def with_cursor_keeps split: option.splits)

lemma inv_ignores_thread: "process_inv ca watched (p\<lparr>current_thread_id := i\<rparr>) = process_inv ca watched p"
  by (simp add: process_inv_def)

lemma ttd_debug_target:
  assumes "engine_contract ca watched"
  shows "debug_target (ttd_target ca arrived) (process_inv ca watched) has_room"
proof -
  from assms have ws: "watch_stable ca watched" by (simp add: engine_contract_def)
  have call: "process_inv ca watched (breakpoint_call_on ca c p)" if "process_inv ca watched p" "has_room p" for c p
    using process_step_inv [OF that(1) assms, of "DoBreakpoint c"] that(2) by (simp add: has_room_def)
  note bps = call [of _ "SetCode _ _", unfolded breakpoint_call_on_def breakpoint_call.case]
    call [of _ "SetData _ _ _", unfolded breakpoint_call_on_def breakpoint_call.case]
    call [of _ "RemoveExact _ _ _", unfolded breakpoint_call_on_def breakpoint_call.case]
  note q = query_inv [OF _ ws]
  show ?thesis
  proof (unfold_locales, unfold ttd_target_simps)
    fix p q r assume "process_inv ca watched p" "tp_step ca p = Ret (q, r)"
    then show "process_inv ca watched q" using step_inv [OF _ ws] by (auto simp: tp_step_def)
  next
    fix p q r assume "process_inv ca watched p" "tp_step_back ca p = Ret (q, r)"
    then show "process_inv ca watched q" using step_inv [OF _ ws] by (auto simp: tp_step_back_def)
  next
    fix p q r tid start stop assume "process_inv ca watched p" "tp_step_range ca arrived tid start stop p = Ret (q, r)"
    then show "process_inv ca watched q" using step_range_inv [OF _ ws] by blast
  next
    fix p q r assume "process_inv ca watched p" "tp_continue_forward ca p = Ret (q, r)"
    then show "process_inv ca watched q" using continue_inv [OF _ ws] by (auto simp: tp_continue_forward_def)
  next
    fix p q r assume "process_inv ca watched p" "tp_continue_backward ca p = Ret (q, r)"
    then show "process_inv ca watched q" using continue_inv [OF _ ws] by (auto simp: tp_continue_backward_def)
  next
    fix p q r pos assume "process_inv ca watched p" "tp_goto ca pos p = Ret (q, r)"
    then show "process_inv ca watched q" by (rule goto_inv [OF _ ws])
  next
    fix p i assume "process_inv ca watched p"
    then show "process_inv ca watched (fst (tp_thread_info ca i p))"
      by (auto simp: tp_thread_info_def q split: option.splits)
  next
    fix p tid assume "process_inv ca watched p"
    then show "process_inv ca watched (fst (tp_thread_state ca tid p))"
      by (auto simp: tp_thread_state_def q split: option.splits)
  qed (auto simp: bps tp_read_memory_def tp_read_memory_ranges_def tp_active_thread_ids_def q with_cursor_keeps
      thread_queries_keep tp_set_current_thread_def tp_begin_resume_def interrupt_between_verbs inv_ignores_thread inv_ignores_epoch)
qed

text \<open>Every engine that keeps its contract makes \<open>TtdProcess\<close> a lawful target.\<close>

locale ttd_engine =
  fixes ca :: "'c cursor_api" and watched :: "'c \<Rightarrow> watchpoint_key set" and arrived :: "nat \<Rightarrow> u64"
  assumes contract: "engine_contract ca watched"

sublocale ttd_engine \<subseteq> debug_target "ttd_target ca arrived" "process_inv ca watched" has_room
  by (rule ttd_debug_target [OF contract])

interpretation sim_engine: ttd_engine sim_api "\<lambda>c. set (sim_keys c)" "\<lambda>_. 0"
  by unfold_locales (rule sim_contract)

section \<open>Targets whose calls return\<close>

text \<open>
  A panic on the protocol thread ends the server, so the frontend also relies on the two calls it makes
  there that could panic: a jump and the diagnostics.
\<close>

locale total_target = debug_target +
  assumes goto_returns: "inv t \<Longrightarrow> \<exists>t' r. dt_goto dt pos t = Ret (t', r)"
    and diagnostics_return: "inv t \<Longrightarrow> \<exists>d. dt_diagnostics dt t = Ret d"

text \<open>
  What makes them return for \<open>TtdProcess\<close>: the trace's first position is not after its last one, and the
  engine's tables are as long as the \<open>u32\<close> counts it reports can say.
\<close>

definition trace_sound :: "'c ttd_process \<Rightarrow> bool" where
  "trace_sound p \<longleftrightarrow> fst (tp_lifetime p) \<le> snd (tp_lifetime p)
     \<and> length (md_exceptions (metadata p)) < 2 ^ 32 \<and> length (md_modules (metadata p)) < 2 ^ 32"

lemma trace_sound_same: "same_trace p q \<Longrightarrow> trace_sound q = trace_sound p"
  by (simp add: trace_sound_def same_trace_def)

lemma trace_sound_simps [simp]:
  "trace_sound (p\<lparr>current_thread_id := i\<rparr>) = trace_sound p" "trace_sound (p\<lparr>interrupt_epoch := n\<rparr>) = trace_sound p"
  "trace_sound (p\<lparr>tp_breakpoints := bs\<rparr>) = trace_sound p" "trace_sound (p\<lparr>tp_position := pos\<rparr>) = trace_sound p"
  "trace_sound (map_persistent f p) = trace_sound p" "trace_sound (bump g p) = trace_sound p"
  "trace_sound (adopt_cursor_position ca p) = trace_sound p"
  by (simp_all add: trace_sound_def)

lemma step_trace_sound: "step_on_step_cursor ca b p = (q, r) \<Longrightarrow> trace_sound q = trace_sound p"
  by (simp add: step_cases trace_sound_same)

lemma range_steps_trace_sound: "range_steps ca tid start stop n p q \<Longrightarrow> trace_sound q = trace_sound p"
  by (induction rule: range_steps.induct) (auto dest: step_trace_sound)

lemma step_range_trace_sound:
  assumes "tp_step_range ca arrived tid start stop p = Ret (q, res)"
  shows "trace_sound q = trace_sound p"
proof (cases "start < stop")
  case True
  let ?loop = "step_range_loop ca arrived (step_range_tid tid p) start stop 0 (tp_position p) p"
  from step_range_loop_outcome [of ca "step_range_tid tid p" start stop p arrived 0] obtain n r where
    rs: "range_steps ca (step_range_tid tid p) start stop n p r"
    and fin: "if interrupt_epoch p + arrived (0 + n) \<noteq> 0 then ?loop = noticed (arrived (0 + n)) r
        else range_ends ca (step_range_tid tid p) start stop r ?loop"
    by blast
  from assms True have "?loop = (q, res)" by (auto simp: tp_step_range_def split: if_splits)
  with fin have "trace_sound q = trace_sound r"
    by (auto simp: range_ends_def noticed_def split: if_splits dest: step_trace_sound)
  with range_steps_trace_sound [OF rs] show ?thesis by simp
next
  case False
  with assms have "step_on_step_cursor ca False p = (q, res)" by (simp add: tp_step_range_def not_less)
  then show ?thesis by (rule step_trace_sound)
qed

lemma replay_trace_sound: "watchpoint_replay ca limit forward p = Ret (q, res) \<Longrightarrow> trace_sound q = trace_sound p"
  by (erule watchpoint_replay_shape) (simp add: trace_sound_same)

lemma at_position_trace_sound: "trace_sound (fst (at_position ca pos f p)) = trace_sound p"
  using at_position_spec(6) by (metis prod.collapse trace_sound_same)

lemma query_trace_sound: "trace_sound (fst (with_cursor ca f p)) = trace_sound p"
  by (simp add: with_cursor_def at_position_trace_sound)

lemma goto_trace_sound: "tp_goto ca pos p = Ret (q, r) \<Longrightarrow> trace_sound q = trace_sound p"
  using at_position_trace_sound [of ca _ "\<lambda>_. ()" "p\<lparr>tp_position := _\<rparr>"]
  by (auto simp: tp_goto_def Let_def split_beta split: if_splits)

lemma breakpoint_trace_sound: "trace_sound (fst (on_breakpoints f p)) = trace_sound p"
  by (simp add: on_breakpoints_def split_beta Let_def)

lemma interrupt_trace_sound: "trace_sound (tp_interrupt ca p) = trace_sound p"
  by (simp add: tp_interrupt_def slot_interrupt_def split: replay_handle.split)

lemma verbs_trace_sound:
  "tp_step ca p = Ret (q, r) \<Longrightarrow> trace_sound q = trace_sound p" "tp_step_back ca p = Ret (q, r) \<Longrightarrow> trace_sound q = trace_sound p"
  "tp_continue_forward ca p = Ret (q, r) \<Longrightarrow> trace_sound q = trace_sound p"
  "tp_continue_backward ca p = Ret (q, r) \<Longrightarrow> trace_sound q = trace_sound p"
  by (auto simp: tp_step_def tp_step_back_def tp_continue_forward_def tp_continue_backward_def
      dest: step_trace_sound replay_trace_sound)

lemma calls_trace_sound [simp]:
  "trace_sound (fst (tp_set_breakpoint ca addr th p)) = trace_sound p"
  "trace_sound (fst (tp_set_data_breakpoint ca addr sz kind p)) = trace_sound p"
  "trace_sound (fst (tp_remove_breakpoint_exact ca addr sz access p)) = trace_sound p"
  "trace_sound (fst (tp_read_memory ca addr buf p)) = trace_sound p"
  "trace_sound (fst (tp_read_memory_ranges ca addr buf m p)) = trace_sound p"
  "trace_sound (fst (tp_active_thread_ids ca p)) = trace_sound p"
  "trace_sound (fst (tp_thread_info ca i p)) = trace_sound p"
  "trace_sound (fst (tp_thread_state ca tid p)) = trace_sound p"
  "trace_sound (tp_set_current_thread i p) = trace_sound p" "trace_sound (tp_begin_resume p) = trace_sound p"
  "trace_sound (tp_interrupt ca p) = trace_sound p"
  by (auto simp: tp_set_breakpoint_def tp_set_data_breakpoint_def tp_remove_breakpoint_exact_def breakpoint_trace_sound
      tp_read_memory_def tp_read_memory_ranges_def tp_active_thread_ids_def tp_thread_info_def tp_thread_state_def
      query_trace_sound tp_set_current_thread_def tp_begin_resume_def interrupt_trace_sound split: option.split)

lemma sound_debug_target:
  assumes "debug_target (ttd_target ca arrived) I has_room"
  shows "debug_target (ttd_target ca arrived) (\<lambda>p. I p \<and> trace_sound p) has_room"
proof -
  note laws = debug_target.read_memory_inv debug_target.read_memory_ranges_inv debug_target.active_thread_ids_inv
    debug_target.thread_info_inv debug_target.thread_state_inv debug_target.select_inv debug_target.begin_inv
    debug_target.interrupt_inv debug_target.set_breakpoint_inv debug_target.set_data_breakpoint_inv debug_target.remove_exact_inv
    debug_target.read_memory_pos debug_target.read_memory_ranges_pos debug_target.active_thread_ids_pos
    debug_target.active_thread_ids_cur debug_target.thread_info_pos debug_target.thread_state_pos debug_target.select_pos
    debug_target.select_cur debug_target.begin_pos
  note laws = laws [OF assms, unfolded ttd_target_simps]
  note verbs = debug_target.step_inv debug_target.step_back_inv debug_target.continue_forward_inv
    debug_target.continue_backward_inv debug_target.goto_inv debug_target.step_range_inv
  note verbs = verbs [OF assms, unfolded ttd_target_simps]
  show ?thesis
  proof (unfold_locales, unfold ttd_target_simps)
    fix p q r assume "I p \<and> trace_sound p" "tp_step ca p = Ret (q, r)"
    then show "I q \<and> trace_sound q" using verbs(1) verbs_trace_sound(1) by blast
  next
    fix p q r assume "I p \<and> trace_sound p" "tp_step_back ca p = Ret (q, r)"
    then show "I q \<and> trace_sound q" using verbs(2) verbs_trace_sound(2) by blast
  next
    fix p q r assume "I p \<and> trace_sound p" "tp_continue_forward ca p = Ret (q, r)"
    then show "I q \<and> trace_sound q" using verbs(3) verbs_trace_sound(3) by blast
  next
    fix p q r assume "I p \<and> trace_sound p" "tp_continue_backward ca p = Ret (q, r)"
    then show "I q \<and> trace_sound q" using verbs(4) verbs_trace_sound(4) by blast
  next
    fix p q r pos assume "I p \<and> trace_sound p" "tp_goto ca pos p = Ret (q, r)"
    then show "I q \<and> trace_sound q" using verbs(5) goto_trace_sound by blast
  next
    fix p q r tid start stop assume "I p \<and> trace_sound p" "tp_step_range ca arrived tid start stop p = Ret (q, r)"
    then show "I q \<and> trace_sound q" using verbs(6) step_range_trace_sound by blast
  qed (simp_all add: laws, use laws(8) in auto)
qed

lemma ttd_total_target:
  assumes "engine_contract ca watched"
  shows "total_target (ttd_target ca arrived) (\<lambda>p. process_inv ca watched p \<and> trace_sound p) has_room"
proof (rule total_target.intro [OF sound_debug_target [OF ttd_debug_target [OF assms]]], unfold_locales)
  fix p pos assume "process_inv ca watched p \<and> trace_sound p"
  then show "\<exists>q r. dt_goto (ttd_target ca arrived) pos p = Ret (q, r)"
    by (auto simp: trace_sound_def tp_goto_def split_beta Let_def)
next
  fix p assume "process_inv ca watched p \<and> trace_sound p"
  then have "count_u32 (length (md_exceptions (metadata p))) \<noteq> None" "count_u32 (length (md_modules (metadata p))) \<noteq> None"
    by (simp_all add: trace_sound_def count_u32_def)
  then show "\<exists>d. dt_diagnostics (ttd_target ca arrived) p = Ret d"
    by (auto simp: ttd_target_def tp_diagnostics_def metadata_diagnostics_def)
qed

sublocale ttd_engine \<subseteq> total: total_target "ttd_target ca arrived" "\<lambda>p. process_inv ca watched p \<and> trace_sound p" has_room
  by (rule ttd_total_target [OF contract])

section \<open>The optimised range step is the portable one\<close>

text \<open>What a client can observe of a process: everything but the persistent cursor and the counters.\<close>

definition same_debuggee :: "'c ttd_process \<Rightarrow> 'c ttd_process \<Rightarrow> bool" where
  "same_debuggee p q \<longleftrightarrow> step_cursor (tp_cursors q) = step_cursor (tp_cursors p) \<and> tp_position q = tp_position p
     \<and> same_trace p q \<and> current_thread_id q = current_thread_id p \<and> tp_breakpoints q = tp_breakpoints p
     \<and> interrupt_epoch q = interrupt_epoch p"

text \<open>What the engine documents of its registers: a cursor's position determines them.\<close>

definition context_by_position :: "'c cursor_api \<Rightarrow> bool" where
  "context_by_position ca \<longleftrightarrow>
     (\<forall>c d tid. GetPosition ca c = GetPosition ca d \<longrightarrow> GetAmd64Context ca c tid = GetAmd64Context ca d tid)"

definition one_architecture :: "'c ttd_process \<Rightarrow> bool" where
  "one_architecture p \<longleftrightarrow> rc_arch (pc_cursor (step_cursor (tp_cursors p))) = rc_arch (persistent_cursor p)"

lemma same_debuggee_refl [simp]: "same_debuggee p p"
  by (simp add: same_debuggee_def same_trace_def)

lemma same_debuggee_trans: "same_debuggee p q \<Longrightarrow> same_debuggee q r \<Longrightarrow> same_debuggee p r"
  by (simp add: same_debuggee_def same_trace_def)

lemma step_same_debuggee:
  assumes "same_debuggee p q" and "step_on_step_cursor ca backward p = (p', r)"
  shows "\<exists>q'. step_on_step_cursor ca backward q = (q', r) \<and> same_debuggee p' q'"
proof -
  obtain sc b where pr: "prepare ca (tp_position p) (step_cursor (tp_cursors p)) = (sc, b)" by fastforce
  obtain c rr hs where rp: "(if backward then replay_backward_steps ca (pc_cursor sc) 1
      else replay_forward_steps ca (pc_cursor sc) 1) = (c, rr, hs)" using prod_cases3 by blast
  have pr': "prepare ca (tp_position q) (step_cursor (tp_cursors q)) = (sc, b)"
    using assms(1) pr by (simp add: same_debuggee_def)
  have en: "enrich_exception (stepped ca sc b c q) x = enrich_exception (stepped ca sc b c p) x" for x
    using assms(1) by (simp add: enrich_exception_def stepped_def same_debuggee_def same_trace_def split: stop_reason.splits)
  have st: "same_debuggee (stepped ca sc b c p) (stepped ca sc b c q)"
    "same_debuggee (map_step (\<lambda>_. x) p) (map_step (\<lambda>_. x) q)" for x
    using assms(1) by (simp_all add: same_debuggee_def stepped_def same_trace_def)
  have eqs: "tp_lifetime q = tp_lifetime p" "ends_with_process_exit q = ends_with_process_exit p"
    using assms(1) by (simp_all add: same_debuggee_def same_trace_def)
  from assms(2) st show ?thesis
    unfolding step_on_step_cursor_unfold [OF pr rp] step_on_step_cursor_unfold [OF pr' rp] en eqs
    by (cases rr) auto
qed

lemma query_same_debuggee: "same_debuggee p (fst (with_cursor ca f p))"
proof -
  let ?b = "bump (\<lambda>s. s\<lparr>queries := queries s + 1\<rparr>) p"
  obtain q v where at: "at_position ca (tp_position p) f ?b = (q, v)" by (rule prod.exhaust)
  from at_position_spec(3-8) [OF at] at show ?thesis
    by (simp add: with_cursor_def same_debuggee_def same_trace_def)
qed

lemma replay_arch: "cursor_replay ca c limit n forward = (c', res, hs) \<Longrightarrow> rc_arch c' = rc_arch c"
  by (cases forward) (auto simp: cursor_replay_def split_beta Let_def)

lemma prepare_arch: "rc_arch (pc_cursor (fst (prepare ca pos pc))) = rc_arch (pc_cursor pc)"
  by (simp add: prepare_def seek_def cursor_set_position_def Let_def)

lemma step_arch:
  assumes "step_on_step_cursor ca backward p = (q, r)"
  shows "rc_arch (pc_cursor (step_cursor (tp_cursors q))) = rc_arch (pc_cursor (step_cursor (tp_cursors p)))"
proof -
  obtain sc b where pr: "prepare ca (tp_position p) (step_cursor (tp_cursors p)) = (sc, b)" by fastforce
  obtain c rr hs where rp: "(if backward then replay_backward_steps ca (pc_cursor sc) 1
      else replay_forward_steps ca (pc_cursor sc) 1) = (c, rr, hs)" using prod_cases3 by blast
  have "rc_arch c = rc_arch (pc_cursor sc)"
    using rp replay_arch by (fastforce simp: replay_backward_steps_def replay_forward_steps_def split: if_splits)
  moreover have "rc_arch (pc_cursor sc) = rc_arch (pc_cursor (step_cursor (tp_cursors p)))"
    using prepare_arch [of ca "tp_position p" "step_cursor (tp_cursors p)"] pr by simp
  ultimately show ?thesis
    using assms unfolding step_on_step_cursor_unfold [OF pr rp]
    by (cases rr) (auto simp: invalidate_def stepped_def)
qed

lemma with_cursor_reads:
  assumes "process_inv ca watched p" and "engine_contract ca watched"
  shows "snd (with_cursor ca f p) = f (persistent_cursor (fst (with_cursor ca f p)))"
    and "position_of ca (persistent_cursor (fst (with_cursor ca f p))) = tp_position p"
    and "rc_arch (persistent_cursor (fst (with_cursor ca f p))) = rc_arch (persistent_cursor p)"
proof -
  let ?b = "bump (\<lambda>s. s\<lparr>queries := queries s + 1\<rparr>) p"
  obtain q v where at: "at_position ca (tp_position p) f ?b = (q, v)" by (rule prod.exhaust)
  have ok: "lands ca" "coherent ca (persistent (tp_cursors p))" "valid_position ca (tp_position p)"
    using assms by (simp_all add: process_inv_def engine_contract_def cursor_ok_def)
  show "snd (with_cursor ca f p) = f (persistent_cursor (fst (with_cursor ca f p)))"
    and "position_of ca (persistent_cursor (fst (with_cursor ca f p))) = tp_position p"
    and "rc_arch (persistent_cursor (fst (with_cursor ca f p))) = rc_arch (persistent_cursor p)"
    using at_position_spec(1,2) [OF at] at prepare_valid [OF ok]
    by (simp_all add: with_cursor_def prepare_arch)
qed

lemma context_same:
  assumes "context_by_position ca" and "position_of ca c = position_of ca d" and "rc_arch c = rc_arch d"
  shows "amd64_context ca c tid = amd64_context ca d tid"
proof -
  have "GetAmd64Context ca (rc_sdk c) tid = GetAmd64Context ca (rc_sdk d) tid"
    using assms(1,2) unfolding context_by_position_def position_of_def cursor_position_def by blast
  with assms(3) show ?thesis by (simp add: amd64_context_def)
qed

text \<open>After a completed step the query cursor reads the registers the step cursor has.\<close>

lemma thread_state_after_step:
  assumes "process_inv ca watched q" and "engine_contract ca watched" and "context_by_position ca" and "one_architecture q"
    and "narrow i = Some tid" and "contains_os_tid (md_threads (metadata q)) tid"
    and "tp_position q = position_of ca (pc_cursor (step_cursor (tp_cursors q)))"
    and "tp_thread_state ca (Some i) q = (q2, v)"
  shows "\<exists>regs teb. v = Some (regs, teb)
    \<and> Rip regs = (case amd64_context ca (pc_cursor (step_cursor (tp_cursors q))) tid of Inl _ \<Rightarrow> 0 | Inr regs \<Rightarrow> Rip regs)
    \<and> same_debuggee q q2 \<and> process_inv ca watched q2 \<and> one_architecture q2"
proof -
  let ?f = "\<lambda>c. Some ((case amd64_context ca c tid of Inl _ \<Rightarrow> default_regs | Inr regs \<Rightarrow> regs), TebAddress ca (rc_sdk c) tid)"
  have ts: "(q2, v) = with_cursor ca ?f q"
    using assms(5,6,8) by (simp add: tp_thread_state_def os_tid_def)
  then have q2: "q2 = fst (with_cursor ca ?f q)" and v: "v = snd (with_cursor ca ?f q)"
    by (metis fst_conv, metis snd_conv)
  have ctx: "amd64_context ca (persistent_cursor q2) tid = amd64_context ca (pc_cursor (step_cursor (tp_cursors q))) tid"
    using with_cursor_reads(2,3) [OF assms(1,2), of ?f] assms(4,7)
    by (intro context_same [OF assms(3)]) (simp_all add: q2 one_architecture_def)
  have sd: "same_debuggee q q2" unfolding q2 by (rule query_same_debuggee)
  moreover have "one_architecture q2"
    using sd with_cursor_reads(3) [OF assms(1,2), of ?f] assms(4) by (simp add: q2 one_architecture_def same_debuggee_def)
  moreover have "process_inv ca watched q2"
    unfolding q2 using assms(1,2) by (intro query_inv) (simp_all add: engine_contract_def)
  moreover have "v = ?f (persistent_cursor q2)"
    unfolding v q2 by (rule with_cursor_reads(1) [OF assms(1,2)])
  ultimately show ?thesis by (auto simp: ctx default_regs_def split: sum.split)
qed

lemma range_loops_agree:
  "same_debuggee p q \<Longrightarrow> process_inv ca watched q \<Longrightarrow> one_architecture q \<Longrightarrow>
    contains_os_tid (md_threads (metadata q)) tid \<Longrightarrow> interrupt_epoch p = 0 \<Longrightarrow>
    engine_contract ca watched \<Longrightarrow> context_by_position ca \<Longrightarrow> narrow i = Some tid \<Longrightarrow> \<forall>n. arrived n = 0 \<Longrightarrow>
    \<exists>p' q' r. step_range_loop ca arrived tid start stop n previous p = (p', r) \<and>
      default_range_loop (ttd_target ca arrived) (Some i) start stop previous q = Ret (q', r) \<and> same_debuggee p' q'"
proof (induction ca arrived tid start stop n previous p arbitrary: q rule: step_range_loop.induct)
  case (1 ca arrived tid start stop n previous p)
  from 1(7) have ws: "watch_stable ca watched" by (simp add: engine_contract_def)
  obtain p1 r where sp: "step_on_step_cursor ca False p = (p1, r)" by (rule prod.exhaust)
  from step_same_debuggee [OF 1(2) sp] obtain q1 where sq: "step_on_step_cursor ca False q = (q1, r)"
    and sd: "same_debuggee p1 q1" by blast
  have inv1: "process_inv ca watched q1" by (rule step_inv [OF 1(3) ws sq])
  show ?case
  proof (cases "r = Inr StepComplete")
    case False
    with 1(6,10) sp sq sd show ?thesis
      by (subst step_range_loop.simps, subst default_range_loop.simps)
        (auto simp: tp_step_def split: sum.splits stop_reason.splits)
  next
    case True
    obtain q2 v where ts: "tp_thread_state ca (Some i) q1 = (q2, v)" by (rule prod.exhaust)
    have arch1: "one_architecture q1"
      using step_arch [OF sq] step_cases [OF sq] 1(4) by (simp add: one_architecture_def)
    have known: "contains_os_tid (md_threads (metadata q1)) tid"
      using step_cases [OF sq] 1(5) by (simp add: same_trace_def)
    have pos: "tp_position q1 = position_of ca (pc_cursor (step_cursor (tp_cursors q1)))"
      using step_cases [OF sq] True by auto
    from thread_state_after_step [OF inv1 1(7,8) arch1 1(9) known pos ts] obtain regs teb where v: "v = Some (regs, teb)"
      and rip: "Rip regs = (case amd64_context ca (pc_cursor (step_cursor (tp_cursors p1))) tid of Inl _ \<Rightarrow> 0 | Inr regs \<Rightarrow> Rip regs)"
      and sd2: "same_debuggee q1 q2" and inv2: "process_inv ca watched q2" and arch2: "one_architecture q2"
      using sd by (auto simp: same_debuggee_def)
    have sd12: "same_debuggee p1 q2" using sd sd2 by (rule same_debuggee_trans)
    have pos2: "tp_position q2 = tp_position p1" using sd12 by (simp add: same_debuggee_def)
    have ep: "interrupt_epoch p + arrived n = 0" "interrupt_epoch p1 = 0"
      using 1(6,10) step_cases [OF sp] by simp_all
    have lp: "step_range_loop ca arrived tid start stop n previous p =
        (if \<not> (start \<le> Rip regs \<and> Rip regs < stop) \<or> tp_position p1 \<le> previous then (p1, Inr StepComplete)
         else step_range_loop ca arrived tid start stop (n + 1) (tp_position p1) p1)"
      using sp True ep by (subst step_range_loop.simps) (simp add: rip Let_def)
    have lq: "default_range_loop (ttd_target ca arrived) (Some i) start stop previous q =
        (if \<not> (start \<le> Rip regs \<and> Rip regs < stop) \<or> tp_position p1 \<le> previous then Ret (q2, Inr StepComplete)
         else default_range_loop (ttd_target ca arrived) (Some i) start stop (tp_position p1) q2)"
      using sq True ts v pos2 by (subst default_range_loop.simps) (simp add: tp_step_def)
    show ?thesis
    proof (cases "\<not> (start \<le> Rip regs \<and> Rip regs < stop) \<or> tp_position p1 \<le> previous")
      case True
      with lp lq sd12 show ?thesis by simp
    next
      case go: False
      have "contains_os_tid (md_threads (metadata q2)) tid"
        using known sd2 by (simp add: same_debuggee_def same_trace_def)
      with go 1(1) [OF _ sp [symmetric] _ _ _ _ _ sd12 inv2 arch2 _ ep(2) 1(7-10)] True ep(1) show ?thesis
        unfolding lp lq by (simp add: rip)
    qed
  qed
qed

text \<open>
  C11. The range step of \<open>TtdProcess\<close>, which reads the program counter from the step cursor it is
  stepping, is equivalent to the trait's portable loop of single steps and thread-state queries: on an
  engine that keeps its contract and whose registers depend only on the position, for a thread of
  the trace and while no interrupt arrives, both return, report the same result, and leave the same
  debuggee (they differ only in the query cursor and the counters).
\<close>

theorem step_range_is_portable_loop:
  assumes "process_inv ca watched p" and "engine_contract ca watched" and "context_by_position ca"
    and "one_architecture p" and "interrupt_epoch p = 0"
    and "narrow i = Some tid" and "contains_os_tid (md_threads (metadata p)) tid"
  shows "\<exists>q q' r. tp_step_range ca (\<lambda>_. 0) (Some i) start stop p = Ret (q, r)
    \<and> default_step_range (ttd_target ca (\<lambda>_. 0)) (Some i) start stop p = Ret (q', r) \<and> same_debuggee q q'"
proof (cases "start < stop")
  case True
  have "step_range_tid (Some i) p = tid"
    using assms(6,7) by (simp add: step_range_tid_def resolve_step_range_tid_def)
  with True range_loops_agree [OF same_debuggee_refl assms(1,4,7,5,2,3,6), of "\<lambda>_. 0" start stop 0 "tp_position p"]
  show ?thesis by (auto simp: tp_step_range_def default_step_range_def not_less)
next
  case False
  let ?l = "step_range_loop ca (\<lambda>_. 0) tid start stop 0 (tp_position p) p"
  from range_loops_agree [OF same_debuggee_refl assms(1,4,7,5,2,3,6), of "\<lambda>_. 0" start stop 0 "tp_position p"]
  obtain p' q' r where l: "?l = (p', r)" and d: "default_range_loop (ttd_target ca (\<lambda>_. 0)) (Some i) start stop (tp_position p) p = Ret (q', r)"
    and sd: "same_debuggee p' q'" by auto
  have "?l = step_on_step_cursor ca False p"
    using False assms(5) by (subst step_range_loop.simps) (auto simp: Let_def split: prod.split sum.split)
  with l d sd False show ?thesis by (auto simp: tp_step_range_def default_step_range_def not_less)
qed

lemma sim_context_by_position: "context_by_position sim_api"
proof -
  have "min j 8 = min k 8" if "sim_position j = sim_position k" for j k
  proof -
    have "unat (word_of_nat (min j 8) :: u64) = min j 8" "unat (word_of_nat (min k 8) :: u64) = min k 8"
      by (simp_all add: unsigned_of_nat take_bit_eq_mod min_def)
    with that show ?thesis by (metis sim_position_def position.inject)
  qed
  then have "sim_GetAmd64Context c t = sim_GetAmd64Context d t" if "sim_GetPosition c = sim_GetPosition d" for c d t
    using that unfolding sim_GetPosition_def sim_GetAmd64Context_def sim_regs_def by metis
  moreover have "GetPosition sim_api = sim_GetPosition" "GetAmd64Context sim_api = sim_GetAmd64Context"
    by (simp_all add: sim_api_def)
  ultimately show ?thesis unfolding context_by_position_def by metis
qed

theorem step_range_is_portable_loop_witness:
  "\<exists>q q' r. tp_step_range sim_api (\<lambda>_. 0) (Some 7) 0x1000 0x1003 sim_process = Ret (q, r)
    \<and> default_step_range (ttd_target sim_api (\<lambda>_. 0)) (Some 7) 0x1000 0x1003 sim_process = Ret (q', r) \<and> same_debuggee q q'"
proof -
  have "one_architecture sim_process" "interrupt_epoch sim_process = 0"
    by (simp_all add: one_architecture_def sim_process_def Let_def positioned_new_def)
  moreover have "narrow (7 :: u64) = Some (7 :: u32)" by (simp add: narrow_Some)
  moreover have "contains_os_tid (md_threads (metadata sim_process)) 7" by code_simp
  ultimately show ?thesis
    by (rule step_range_is_portable_loop [OF sim_process_inv sim_contract sim_context_by_position])
qed

end
