(* ===== verification/Packet.thy ===== *)
theory Packet
  imports Text "HOL-Library.Monad_Syntax"
begin

text \<open>
  Packet payloads (\<open>gdb/packet.rs\<close>): the hexadecimal codec of RSP payloads, the two argument
  styles of \<open>qRRCmd\<close> and the thread fragment of \<open>qGetTLSAddr\<close>. Payloads are byte strings. The
  codec interprets \<open>codec\<close>, which gives that it is injective; the argument parser recovers the
  command and its arguments from either wire style.
\<close>

section \<open>The hexadecimal codec\<close>

definition hex_byte :: "char \<Rightarrow> string" where
  "hex_byte b = pad_left 2 (CHR ''0'') (fmt_hex (of_char b))"

definition encode_hex :: "string \<Rightarrow> string" where
  "encode_hex bytes = concat (map hex_byte bytes)"

text \<open>The loop over \<open>s.chunks(2)\<close>, on a string of even length.\<close>

fun decode_pairs :: "string \<Rightarrow> string option" where
  "decode_pairs (h # l # s) = do {
     hi \<leftarrow> to_digit 16 h;
     lo \<leftarrow> to_digit 16 l;
     out \<leftarrow> decode_pairs s;
     Some (char_of (hi * 16 + lo) # out)
   }"
| "decode_pairs _ = Some []"

definition decode_hex :: "string \<Rightarrow> string option" where
  "decode_hex s = (if length s mod 2 \<noteq> 0 then None else decode_pairs s)"

section \<open>Arguments\<close>

definition qrr_arg :: "string \<Rightarrow> string" where
  "qrr_arg p = (case decode_hex p of None \<Rightarrow> p | Some b \<Rightarrow> from_utf8_lossy b)"

definition parse_qrrcmd_args :: "string \<Rightarrow> string list" where
  "parse_qrrcmd_args rest =
     (let rest = dropWhile (\<lambda>c. c = CHR '':'') rest in
      if rest = [] then []
      else let parts = split_on (CHR '':'') rest in
        if 2 \<le> length parts \<and> parts ! 1 = ''-1'' then parts ! 0 # map qrr_arg (drop 2 parts)
        else map from_utf8_lossy (List.map_filter decode_hex parts))"

definition parse_tid_from_qpacket :: "string \<Rightarrow> u64 option" where
  "parse_tid_from_qpacket s =
     (case strip_prefix ''p'' s of
        Some rest \<Rightarrow> (case split_once (CHR ''.'') rest of
          None \<Rightarrow> None
        | Some (_, tail) \<Rightarrow> from_str_radix 16 tail)
      | None \<Rightarrow> from_str_radix 16 s)"

section \<open>The codec decodes back\<close>

lemma hex_byte_digits:
  "hex_byte b = [lower_digit (of_char b div 16), lower_digit (of_char b mod 16)]"
proof -
  have lt: "(of_char b :: nat) < 256" by simp
  show ?thesis
  proof (cases "(of_char b :: nat) < 16")
    case True
    then show ?thesis
      by (simp add: hex_byte_def fmt_hex_def radix_digits.simps pad_left_def lower_digit_def)
  next
    case False
    then have "(of_char b :: nat) div 16 < 16" using lt by (simp add: less_mult_imp_div_less)
    then have "radix_digits 16 (of_char b div 16) = [of_char b div 16]"
      by (subst radix_digits.simps) simp
    with False have "radix_digits 16 (of_char b) = [of_char b div 16, of_char b mod 16]"
      by (subst radix_digits.simps) simp
    then show ?thesis by (simp add: hex_byte_def fmt_hex_def pad_left_def)
  qed
qed

lemma length_hex_byte [simp]: "length (hex_byte b) = 2"
  by (simp add: hex_byte_digits)

lemma length_encode_hex [simp]: "length (encode_hex bs) = 2 * length bs"
  by (induction bs) (simp_all add: encode_hex_def)

lemma encode_hex_simps [simp]:
  "encode_hex [] = []" "encode_hex (b # bs) = hex_byte b @ encode_hex bs"
  by (simp_all add: encode_hex_def)

lemma decode_pairs_encode: "decode_pairs (encode_hex bs) = Some bs"
proof (induction bs)
  case Nil
  then show ?case by simp
next
  case (Cons b bs)
  have "(of_char b :: nat) div 16 < 16"
    by (simp add: less_mult_imp_div_less)
  with Cons show ?case
    by (simp add: hex_byte_digits to_digit_lower)
qed

interpretation hex_bytes: codec encode_hex decode_hex
  by unfold_locales (simp add: decode_hex_def decode_pairs_encode)

lemma decode_hex_length: "decode_hex s = Some bs \<Longrightarrow> length s = 2 * length bs"
proof -
  have "decode_pairs s = Some bs \<Longrightarrow> length s mod 2 = 0 \<Longrightarrow> length s = 2 * length bs" for s bs
    by (induction s arbitrary: bs rule: decode_pairs.induct)
      (auto simp: bind_eq_Some_conv mod_Suc split: if_splits)
  then show "decode_hex s = Some bs \<Longrightarrow> length s = 2 * length bs"
    by (simp add: decode_hex_def split: if_splits)
qed

lemma hex_no_sep: "CHR '':'' \<notin> set (encode_hex bs)"
proof (induction bs)
  case (Cons b bs)
  have "(of_char b :: nat) div 16 < 16" by (simp add: less_mult_imp_div_less)
  moreover have "(of_char b :: nat) mod 16 < 16" by simp
  ultimately show ?case
    using Cons digit_not_char(1) [of "of_char b div 16"] digit_not_char(1) [of "of_char b mod 16"]
    by (auto simp: hex_byte_digits)
qed simp

lemma hex_not_marker: "encode_hex bs \<noteq> ''-1''"
proof
  assume e: "encode_hex bs = ''-1''"
  then have "decode_hex ''-1'' = Some bs" by (metis hex_bytes.decode_encode)
  then show False by (simp add: decode_hex_def to_digit_def)
qed

section \<open>Arguments come back\<close>

text \<open>A list of tokens, each preceded by a colon.\<close>

definition colon_list :: "string list \<Rightarrow> string" where
  "colon_list ts = concat (map (\<lambda>t. CHR '':'' # t) ts)"

lemma colon_list_simps [simp]:
  "colon_list [] = []" "colon_list (t # ts) = CHR '':'' # t @ colon_list ts"
  by (simp_all add: colon_list_def)

lemma split_colon_list:
  "CHR '':'' \<notin> set t \<Longrightarrow> (\<And>u. u \<in> set ts \<Longrightarrow> CHR '':'' \<notin> set u) \<Longrightarrow>
   split_on (CHR '':'') (t @ colon_list ts) = t # ts"
proof (induction ts arbitrary: t)
  case Nil
  then show ?case by (simp add: split_on_absent)
next
  case (Cons u ts)
  then show ?case by (simp add: split_on_append)
qed

lemma drop_colons: "CHR '':'' \<notin> set t \<Longrightarrow> t \<noteq> [] \<Longrightarrow> dropWhile (\<lambda>c. c = CHR '':'') (CHR '':'' # t @ s) = t @ s"
  by (cases t) auto

lemma qrr_arg_hex [simp]: "qrr_arg (encode_hex a) = from_utf8_lossy a"
  by (simp add: qrr_arg_def hex_bytes.decode_encode)

lemma parse_new_style:
  assumes "CHR '':'' \<notin> set cmd" and "cmd \<noteq> []"
  shows "parse_qrrcmd_args (colon_list (cmd # ''-1'' # map encode_hex args)) = cmd # map from_utf8_lossy args"
proof -
  have "split_on (CHR '':'') (cmd @ colon_list (''-1'' # map encode_hex args)) = cmd # ''-1'' # map encode_hex args"
    using assms(1) hex_no_sep by (intro split_colon_list) auto
  then show ?thesis
    using assms drop_colons [OF assms, of "colon_list (''-1'' # map encode_hex args)"]
    by (simp add: parse_qrrcmd_args_def Let_def o_def)
qed

lemma map_filter_decode: "List.map_filter decode_hex (map encode_hex args) = args"
  by (induction args) (simp_all add: map_filter_simps hex_bytes.decode_encode)

lemma parse_old_style:
  assumes "cmd \<noteq> []"
  shows "parse_qrrcmd_args (colon_list (map encode_hex (cmd # args))) = map from_utf8_lossy (cmd # args)"
proof -
  have ne: "encode_hex cmd \<noteq> []" using assms length_encode_hex [of cmd] by fastforce
  have "split_on (CHR '':'') (encode_hex cmd @ colon_list (map encode_hex args)) = map encode_hex (cmd # args)"
    using split_colon_list [of "encode_hex cmd" "map encode_hex args"] hex_no_sep by auto
  moreover have "map encode_hex (cmd # args) ! 1 \<noteq> ''-1''" if "2 \<le> length (map encode_hex (cmd # args))"
    using that hex_not_marker by (cases args) auto
  ultimately show ?thesis
    using drop_colons [OF hex_no_sep ne, of "colon_list (map encode_hex args)"] ne
      map_filter_decode [of "cmd # args"]
    by (auto simp: parse_qrrcmd_args_def Let_def)
qed

text \<open>
  C34. Both wire styles of \<open>qRRCmd\<close> are read back exactly: whatever bytes the arguments hold,
  \<open>:<cmd>:-1:<hexarg>...\<close> parses to the literal command and the arguments, and
  \<open>:<hexcmd>:<hexarg>...\<close> to the decoded command and arguments, each passed through the lossy
  UTF-8 conversion; no argument is lost, split or merged by its content.
\<close>

theorem qrrcmd_args_round_trip:
  assumes "cmd \<noteq> []"
  shows "parse_qrrcmd_args (colon_list (map encode_hex (cmd # args))) = map from_utf8_lossy (cmd # args)
    \<and> (CHR '':'' \<notin> set cmd \<longrightarrow>
         parse_qrrcmd_args (colon_list (cmd # ''-1'' # map encode_hex args)) = cmd # map from_utf8_lossy args)"
  using parse_old_style [OF assms] parse_new_style [OF _ assms] by blast

theorem qrrcmd_args_round_trip_witness:
  "parse_qrrcmd_args (colon_list (map encode_hex [''checkpoint'', '':a'']))
     = map from_utf8_lossy [''checkpoint'', '':a'']
   \<and> parse_qrrcmd_args (colon_list (''checkpoint'' # ''-1'' # map encode_hex ['':a'']))
     = ''checkpoint'' # map from_utf8_lossy ['':a'']"
  using qrrcmd_args_round_trip [of "''checkpoint''" "['':a'']"] by simp

section \<open>Thread fragments\<close>

lemma parse_tid_plain: "parse_tid_from_qpacket (fmt_hex (unat t)) = Some t"
proof -
  have "d < 16 \<Longrightarrow> lower_digit d \<noteq> CHR ''p''" for d
    using digit_cases [of d] by (auto simp: lower_digit_def)
  then have "CHR ''p'' \<notin> set (fmt_hex (unat t))"
    using radix_digits_bound [of 16 _ "unat t"] by (force simp: fmt_hex_def)
  then have "strip_prefix ''p'' (fmt_hex (unat t)) = None"
    by (cases "fmt_hex (unat t)") auto
  then show ?thesis by (simp add: parse_tid_from_qpacket_def)
qed

lemma parse_tid_with_pid:
  assumes "CHR ''.'' \<notin> set pid"
  shows "parse_tid_from_qpacket (''p'' @ pid @ ''.'' @ fmt_hex (unat t)) = Some t"
  using split_once_mid [OF assms, of "fmt_hex (unat t)"] by (simp add: parse_tid_from_qpacket_def)

end
