(* ===== verification/Checkpoints.thy ===== *)
theory Checkpoints
  imports Ttd_Types Id_Tables
begin

text \<open>
  rr-style checkpoints (\<open>gdb/checkpoint.rs\<close>): a table of saved positions behind
  \<open>qRRCmd checkpoint\<close>, \<open>info checkpoints\<close> and \<open>delete checkpoint\<close>. The table interprets
  \<open>id_table\<close>, so its ids are never reused; the rendering has exactly three tab-separated fields
  per row whatever text the client sent.
\<close>

section \<open>Definitions\<close>

definition format_position :: "position \<Rightarrow> string" where
  "format_position pos = fmt_HEX (unat (seq_id pos)) @ '':'' @ fmt_HEX (unat (steps pos))"

datatype checkpoint = Checkpoint (cp_position: position) (cp_when: string) (cp_where: string)

record checkpoint_table =
  cp_by_id :: "(u64, checkpoint) btree_map"
  cp_next_id :: u64

definition checkpoints_new :: checkpoint_table where
  "checkpoints_new = \<lparr>cp_by_id = [], cp_next_id = 1\<rparr>"

definition tab :: char where "tab = CHR 0x09"
definition newline :: char where "newline = CHR 0x0A"
definition carriage_return :: char where "carriage_return = CHR 0x0D"

text \<open>\<open>where_.replace(['\\t', '\\n', '\\r'], " ")\<close>.\<close>

definition sanitize :: "string \<Rightarrow> string" where
  "sanitize s = map (\<lambda>c. if c \<in> {tab, newline, carriage_return} then CHR '' '' else c) s"

definition checkpoint_insert ::
  "checkpoint_table \<Rightarrow> position \<Rightarrow> string \<Rightarrow> checkpoint_table \<times> u64 \<times> string" where
  "checkpoint_insert t pos where' =
     (let i = cp_next_id t;
          when' = format_position pos;
          w = sanitize where';
          t' = t\<lparr>cp_next_id := i + 1, cp_by_id := bt_insert i (Checkpoint pos when' w) (cp_by_id t)\<rparr>;
          ack = ''Checkpoint '' @ fmt_dec (unat i) @ '' at '' @ when' @ (if w = [] then [] else '' '' @ w)
      in (t', i, ack))"

definition checkpoint_position :: "checkpoint_table \<Rightarrow> u64 \<Rightarrow> position option" where
  "checkpoint_position t i = map_option cp_position (bt_get (cp_by_id t) i)"

definition checkpoint_remove :: "checkpoint_table \<Rightarrow> u64 \<Rightarrow> checkpoint_table \<times> bool" where
  "checkpoint_remove t i =
     (t\<lparr>cp_by_id := bt_remove i (cp_by_id t)\<rparr>, bt_get (cp_by_id t) i \<noteq> None)"

definition checkpoint_row :: "u64 \<times> checkpoint \<Rightarrow> string" where
  "checkpoint_row e =
     (let (i, cp) = e; w = (if cp_where cp = [] then ''-'' else cp_where cp)
      in fmt_dec (unat i) @ [tab] @ cp_when cp @ [tab] @ w @ [newline])"

definition checkpoint_header :: string where
  "checkpoint_header = ''Num'' @ [tab] @ ''When'' @ [tab] @ ''Where'' @ [newline]"

definition checkpoint_render :: "checkpoint_table \<Rightarrow> string" where
  "checkpoint_render t = checkpoint_header @ concat (map checkpoint_row (cp_by_id t))"

section \<open>The table invariant\<close>

text \<open>
  Ids ascend below the counter and start at 1; the stored \<open>when\<close> is the stored position's text,
  and the stored \<open>where\<close> holds no row separator.
\<close>

definition wf_checkpoint :: "checkpoint \<Rightarrow> bool" where
  "wf_checkpoint cp \<longleftrightarrow> cp_when cp = format_position (cp_position cp)
     \<and> tab \<notin> set (cp_where cp) \<and> newline \<notin> set (cp_where cp)"

definition wf_checkpoints :: "checkpoint_table \<Rightarrow> bool" where
  "wf_checkpoints t \<longleftrightarrow> ordered_map (cp_by_id t) \<and> 0 < cp_next_id t
     \<and> (\<forall>(i, cp)\<in>set (cp_by_id t). 0 < i \<and> i < cp_next_id t \<and> wf_checkpoint cp)"

lemma wf_checkpoints_new: "wf_checkpoints checkpoints_new"
  by (simp add: wf_checkpoints_def checkpoints_new_def)

lemma sanitize_clean: "tab \<notin> set (sanitize s)" "newline \<notin> set (sanitize s)" "carriage_return \<notin> set (sanitize s)"
  by (auto simp: sanitize_def tab_def newline_def carriage_return_def)

lemma length_sanitize [simp]: "length (sanitize s) = length s"
  by (simp add: sanitize_def)

lemma checkpoint_insert_simps:
  "fst (snd (checkpoint_insert t pos w)) = cp_next_id t"
  "cp_next_id (fst (checkpoint_insert t pos w)) = cp_next_id t + 1"
  "cp_by_id (fst (checkpoint_insert t pos w))
     = bt_insert (cp_next_id t) (Checkpoint pos (format_position pos) (sanitize w)) (cp_by_id t)"
  by (simp_all add: checkpoint_insert_def Let_def)

lemma set_bt_insert_subset: "set (bt_insert k v m) \<subseteq> insert (k, v) (set m)"
  by (induction k v m rule: bt_insert.induct) auto

lemma wf_checkpoint_insert:
  assumes wf: "wf_checkpoints t" and room: "cp_next_id t \<noteq> u64_max"
  shows "wf_checkpoints (fst (checkpoint_insert t pos w))"
proof -
  let ?e = "(cp_next_id t, Checkpoint pos (format_position pos) (sanitize w))"
  have lt: "cp_next_id t < cp_next_id t + 1" using room by (rule less_next)
  have pos: "0 < cp_next_id t" using wf by (simp add: wf_checkpoints_def)
  have "0 < i \<and> i < cp_next_id t + 1 \<and> wf_checkpoint cp"
    if mem: "(i, cp) \<in> set (bt_insert (fst ?e) (snd ?e) (cp_by_id t))" for i cp
  proof -
    consider "(i, cp) = ?e" | "(i, cp) \<in> set (cp_by_id t)"
      using subsetD [OF set_bt_insert_subset mem] by auto
    then show ?thesis
    proof cases
      case 1
      then show ?thesis using lt pos by (auto simp: wf_checkpoint_def sanitize_clean)
    next
      case 2
      then have "0 < i" "i < cp_next_id t" "wf_checkpoint cp" using wf by (auto simp: wf_checkpoints_def)
      with lt show ?thesis by (auto intro: less_trans)
    qed
  qed
  moreover have "0 < cp_next_id t + 1" using lt pos by (rule less_trans [rotated])
  ultimately show ?thesis
    using wf by (auto simp: wf_checkpoints_def checkpoint_insert_simps)
qed

lemma wf_checkpoint_remove: "wf_checkpoints t \<Longrightarrow> wf_checkpoints (fst (checkpoint_remove t i))"
  by (auto simp: wf_checkpoints_def checkpoint_remove_def bt_remove_def)

section \<open>Ids\<close>

definition checkpoint_alloc :: "checkpoint_table \<Rightarrow> position \<times> string \<Rightarrow> checkpoint_table \<times> u64" where
  "checkpoint_alloc t r = (let (t', i, _) = checkpoint_insert t (fst r) (snd r) in (t', i))"

definition checkpoint_get :: "checkpoint_table \<Rightarrow> u64 \<Rightarrow> checkpoint option" where
  "checkpoint_get t i = bt_get (cp_by_id t) i"

definition saved :: "u64 \<Rightarrow> position \<times> string \<Rightarrow> checkpoint" where
  "saved i r = Checkpoint (fst r) (format_position (fst r)) (sanitize (snd r))"

lemma checkpoint_alloc_eq:
  "checkpoint_alloc t r = (fst (checkpoint_insert t (fst r) (snd r)), cp_next_id t)"
  by (simp add: checkpoint_alloc_def checkpoint_insert_def Let_def)

interpretation cps: id_table checkpoint_alloc checkpoint_get checkpoint_remove cp_next_id wf_checkpoints saved
proof unfold_locales
  fix t i assume "wf_checkpoints t" "checkpoint_get t i \<noteq> None"
  then show "i < cp_next_id t"
    by (auto simp: checkpoint_get_def bt_get_None_iff wf_checkpoints_def)
qed (auto simp: checkpoint_alloc_eq checkpoint_insert_simps checkpoint_get_def checkpoint_remove_def saved_def
    intro: wf_checkpoint_insert wf_checkpoint_remove [unfolded checkpoint_remove_def, simplified])

lemma checkpoint_position_alt: "checkpoint_position t i = map_option cp_position (checkpoint_get t i)"
  by (simp add: checkpoint_position_def checkpoint_get_def)

text \<open>
  Over any history of checkpoint insertions and deletions that starts from the empty table
  and fits the counter, the ids handed out ascend strictly from 1, so an id is never reused and 0
  is never handed out; and a checkpoint just saved restarts to exactly the position it was saved
  at, until it is deleted.
\<close>

theorem checkpoint_ids_fresh:
  assumes "length ops < 2 ^ 64 - 1"
  shows "sorted_wrt (<) (snd (run_table checkpoint_alloc checkpoint_remove ops checkpoints_new))
    \<and> 0 \<notin> set (snd (run_table checkpoint_alloc checkpoint_remove ops checkpoints_new))
    \<and> (let t = fst (run_table checkpoint_alloc checkpoint_remove ops checkpoints_new);
           (t', i, ack) = checkpoint_insert t pos w
       in checkpoint_position t i = None \<and> checkpoint_position t' i = Some pos
          \<and> checkpoint_position (fst (checkpoint_remove t' i)) = checkpoint_position t)"
proof -
  let ?r = "run_table checkpoint_alloc checkpoint_remove ops checkpoints_new"
  have "unat (cp_next_id checkpoints_new) + length ops < 2 ^ 64"
    using assms by (simp add: checkpoints_new_def)
  note r = cps.run_ascending [OF wf_checkpoints_new this]
  then have wf: "wf_checkpoints (fst ?r)" by blast
  have "\<not> (1 :: u64) \<le> 0" by simp
  with r have nz: "0 \<notin> set (snd ?r)" by (auto simp: checkpoints_new_def)
  obtain t' i ack where ins: "checkpoint_insert (fst ?r) pos w = (t', i, ack)" by (rule prod_cases3)
  then have al: "checkpoint_alloc (fst ?r) (pos, w) = (t', i)" by (simp add: checkpoint_alloc_def)
  have i: "i = cp_next_id (fst ?r)" using cps.alloc_id [of "fst ?r" "(pos, w)"] al by simp
  have "checkpoint_position (fst ?r) i = None"
    using cps.fresh_free [OF wf] i by (simp add: checkpoint_position_alt)
  moreover have "checkpoint_position t' i = Some pos"
    using cps.alloc_finds [of "fst ?r" "(pos, w)"] al by (simp add: checkpoint_position_alt saved_def)
  moreover have "checkpoint_position (fst (checkpoint_remove t' i)) = checkpoint_position (fst ?r)"
    using cps.drop_after_alloc [OF wf, of "(pos, w)"] al by (auto simp: checkpoint_position_alt)
  ultimately show ?thesis using r nz ins by (simp add: Let_def)
qed

theorem checkpoint_ids_fresh_witness:
  "sorted_wrt (<) (snd (run_table checkpoint_alloc checkpoint_remove
       [Alloc (Position 1 0, ''a''), Drop 1, Alloc (Position 2 0, ''b'')] checkpoints_new))
   \<and> 0 \<notin> set (snd (run_table checkpoint_alloc checkpoint_remove
       [Alloc (Position 1 0, ''a''), Drop 1, Alloc (Position 2 0, ''b'')] checkpoints_new))"
  using checkpoint_ids_fresh [of "[Alloc (Position 1 0, ''a''), Drop 1, Alloc (Position 2 0, ''b'')]"]
  by simp

section \<open>Rendering\<close>

text \<open>\<open>str::lines\<close> of a newline-terminated text, and the fields of a row.\<close>

definition lines_of :: "string \<Rightarrow> string list" where
  "lines_of s = (let ps = split_on newline s in if last ps = [] then butlast ps else ps)"

definition row_cells :: "string \<Rightarrow> string list" where
  "row_cells l = split_on tab l"

lemma lines_of_terminated:
  assumes "\<And>l. l \<in> set ls \<Longrightarrow> newline \<notin> set l"
  shows "lines_of (concat (map (\<lambda>l. l @ [newline]) ls)) = ls"
proof -
  have "split_on newline (concat (map (\<lambda>l. l @ [newline]) ls)) = ls @ [[]]"
    using assms by (induction ls) (simp_all add: split_on_append)
  then show ?thesis by (simp add: lines_of_def)
qed

definition row_fields :: "u64 \<times> checkpoint \<Rightarrow> string list" where
  "row_fields e = [fmt_dec (unat (fst e)), cp_when (snd e), if cp_where (snd e) = [] then ''-'' else cp_where (snd e)]"

lemma graph_no_sep: "list_all ascii_graph s \<Longrightarrow> tab \<notin> set s \<and> newline \<notin> set s"
  by (auto simp: list_all_iff tab_def newline_def ascii_graph_def)

lemma format_position_graph: "list_all ascii_graph (format_position p)"
  by (simp add: format_position_def ascii_graph_def)

lemma row_fields_clean:
  "wf_checkpoint (snd e) \<Longrightarrow> f \<in> set (row_fields e) \<Longrightarrow> tab \<notin> set f \<and> newline \<notin> set f"
  using graph_no_sep [OF graph_fmt(3)] graph_no_sep [OF format_position_graph]
  by (auto simp: row_fields_def wf_checkpoint_def tab_def newline_def split: if_splits)

definition row_text :: "u64 \<times> checkpoint \<Rightarrow> string" where
  "row_text e = fmt_dec (unat (fst e)) @ [tab] @ cp_when (snd e) @ [tab]
     @ (if cp_where (snd e) = [] then ''-'' else cp_where (snd e))"

lemma fields_row: "wf_checkpoint (snd e) \<Longrightarrow> row_cells (row_text e) = row_fields e"
  using row_fields_clean [of e]
  by (simp add: row_cells_def row_text_def row_fields_def split_on_append split_on_absent)

lemma checkpoint_row_text: "checkpoint_row = (\<lambda>e. row_text e @ [newline])"
  by (rule ext) (simp add: checkpoint_row_def row_text_def Let_def split_beta)

lemma row_text_no_newline: "wf_checkpoint (snd e) \<Longrightarrow> newline \<notin> set (row_text e)"
  using row_fields_clean [of e] by (auto simp: row_text_def row_fields_def tab_def newline_def)

text \<open>A well-formed table prints as the header line and one line of three cells per entry.\<close>

lemma rendered_rows:
  assumes "wf_checkpoints t"
  shows "map row_cells (lines_of (checkpoint_render t)) = [''Num'', ''When'', ''Where''] # map row_fields (cp_by_id t)"
proof -
  let ?hd = "''Num'' @ [tab] @ ''When'' @ [tab] @ ''Where''"
  have wfe: "wf_checkpoint (snd e)" if "e \<in> set (cp_by_id t)" for e
    using assms that by (cases e) (auto simp: wf_checkpoints_def)
  have "checkpoint_render t = concat (map (\<lambda>l. l @ [newline]) (?hd # map row_text (cp_by_id t)))"
    by (simp add: checkpoint_render_def checkpoint_header_def checkpoint_row_text o_def)
  moreover have "newline \<notin> set l" if "l \<in> set (?hd # map row_text (cp_by_id t))" for l
    using that row_text_no_newline wfe by (auto simp: newline_def tab_def)
  ultimately have "lines_of (checkpoint_render t) = ?hd # map row_text (cp_by_id t)"
    by (metis (no_types, lifting) lines_of_terminated)
  moreover have "row_cells ?hd = [''Num'', ''When'', ''Where'']"
    by (simp add: row_cells_def tab_def)
  ultimately show ?thesis using fields_row wfe by simp
qed

section \<open>What a client sees of a history\<close>

text \<open>
  The two calls a client can make, and what it should see of them: the numbered list of what it saved and
  has not deleted, with the text it sent.
\<close>

datatype checkpoint_call = Save position string | Delete u64

fun call_table :: "checkpoint_call \<Rightarrow> checkpoint_table \<Rightarrow> checkpoint_table" where
  "call_table (Save pos descr) t = fst (checkpoint_insert t pos descr)"
| "call_table (Delete i) t = fst (checkpoint_remove t i)"

fun call_history :: "checkpoint_call \<Rightarrow> nat \<times> (nat \<times> position \<times> string) list \<Rightarrow> nat \<times> (nat \<times> position \<times> string) list" where
  "call_history (Save pos descr) (n, l) = (n + 1, l @ [(n, pos, descr)])"
| "call_history (Delete i) (n, l) = (n, filter (\<lambda>(j, _). j \<noteq> unat i) l)"

definition entry_of :: "nat \<times> position \<times> string \<Rightarrow> u64 \<times> checkpoint" where
  "entry_of e = (case e of (n, pos, descr) \<Rightarrow> (word_of_nat n, Checkpoint pos (format_position pos) (sanitize descr)))"

definition tracks :: "checkpoint_table \<Rightarrow> nat \<times> (nat \<times> position \<times> string) list \<Rightarrow> bool" where
  "tracks t h \<longleftrightarrow> wf_checkpoints t \<and> unat (cp_next_id t) = fst h \<and> cp_by_id t = map entry_of (snd h)
     \<and> (\<forall>e\<in>set (snd h). fst e < fst h)"

lemma unat_entry_id: "n < 2 ^ 64 \<Longrightarrow> unat (word_of_nat n :: u64) = n"
  by (simp add: unat_of_nat)

lemma call_tracks:
  assumes "tracks t h" and "fst h + 1 < 2 ^ 64"
  shows "tracks (call_table c t) (call_history c h)"
proof -
  obtain n l where h: "h = (n, l)" by (rule prod.exhaust)
  from assms h have wf: "wf_checkpoints t" and n: "unat (cp_next_id t) = n" and l: "cp_by_id t = map entry_of l"
    and below: "\<forall>e\<in>set l. fst e < n" and room: "n + 1 < 2 ^ 64" by (simp_all add: tracks_def)
  show ?thesis
  proof (cases c)
    case (Save pos descr)
    have max: "cp_next_id t \<noteq> u64_max" using n room by auto
    have "unat (cp_next_id t + 1) = n + 1" using n room by (simp add: unat_plus_if' unat_word_ariths)
    moreover have "cp_next_id t = word_of_nat n" by (simp flip: n)
    moreover have "bt_insert (cp_next_id t) cp (cp_by_id t) = cp_by_id t @ [(cp_next_id t, cp)]" for cp
      using wf by (intro bt_insert_above) (auto simp: wf_checkpoints_def)
    ultimately show ?thesis
      using Save h l below wf_checkpoint_insert [OF wf max, of pos descr]
      by (auto simp: tracks_def checkpoint_insert_simps entry_of_def)
  next
    case (Delete i)
    have "(word_of_nat (fst e) = i) = (fst e = unat i)" if "e \<in> set l" for e
    proof -
      have "fst e < 2 ^ 64" using below that room by force
      from unat_entry_id [OF this] show ?thesis by auto
    qed
    from this [symmetric] have "filter (\<lambda>(k, _). k \<noteq> i) (map entry_of l) = map entry_of (filter (\<lambda>(j, _). j \<noteq> unat i) l)"
      unfolding filter_map by (intro arg_cong [of _ _ "map entry_of"] filter_cong) (auto simp: entry_of_def simp del: unat_of_nat)
    then show ?thesis
      using Delete h n l below wf_checkpoint_remove [OF wf, of i]
      by (auto simp: tracks_def checkpoint_remove_def bt_remove_def)
  qed
qed

lemma history_counter: "fst (fold call_history calls h) \<le> fst h + length calls"
proof (induction calls arbitrary: h)
  case (Cons c calls)
  have "fst (call_history c h) \<le> fst h + 1" by (cases c; cases h) simp_all
  with Cons.IH [of "call_history c h"] show ?case by simp
qed simp

lemma calls_track:
  "tracks t h \<Longrightarrow> fst h + length calls < 2 ^ 64 \<Longrightarrow> tracks (fold call_table calls t) (fold call_history calls h)"
proof (induction calls arbitrary: t h)
  case (Cons c calls)
  have "fst (call_history c h) \<le> fst h + 1" by (cases c; cases h) simp_all
  with Cons.prems show ?case by (simp add: Cons.IH call_tracks)
qed simp

text \<open>
  C39. \<open>info checkpoints\<close> shows exactly the client's history and cannot be forged: after any calls from the
  empty table, whatever bytes the descriptions hold, the listing is the header line and one line per
  checkpoint that was saved and not deleted since, in the order they were saved; a line splits at its tabs
  into exactly three cells, the number of the save, the position saved, and the description with every
  tab, newline and carriage return shown as a space (a dash when it is empty).
\<close>

theorem checkpoint_rows:
  assumes "length calls < 2 ^ 64 - 1"
  shows "map row_cells (lines_of (checkpoint_render (fold call_table calls checkpoints_new))) =
    [''Num'', ''When'', ''Where'']
    # map (\<lambda>(n, pos, descr). [fmt_dec n, format_position pos,
             if descr = [] then ''-''
             else map (\<lambda>c. if c = CHR 0x09 \<or> c = CHR 0x0A \<or> c = CHR 0x0D then CHR '' '' else c) descr])
        (snd (fold call_history calls (1, [])))"
proof -
  let ?t = "fold call_table calls checkpoints_new" and ?h = "fold call_history calls (1, [])"
  have "tracks checkpoints_new (1, [])" by (simp add: tracks_def wf_checkpoints_new) (simp add: checkpoints_new_def)
  then have t: "tracks ?t ?h" using assms by (intro calls_track) simp_all
  have "row_fields (entry_of (n, pos, descr)) = [fmt_dec n, format_position pos,
      if descr = [] then ''-'' else map (\<lambda>c. if c = CHR 0x09 \<or> c = CHR 0x0A \<or> c = CHR 0x0D then CHR '' '' else c) descr]"
    if "(n, pos, descr) \<in> set (snd ?h)" for n pos descr
  proof -
    have "n < 2 ^ 64" using t that history_counter [of calls "(1, [])"] assms by (auto simp: tracks_def)
    then have "unat (word_of_nat n :: u64) = n" by (rule unat_entry_id)
    then show ?thesis by (simp add: row_fields_def entry_of_def sanitize_def tab_def newline_def carriage_return_def)
  qed
  moreover have "map row_cells (lines_of (checkpoint_render ?t)) = [''Num'', ''When'', ''Where''] # map row_fields (map entry_of (snd ?h))"
    using t rendered_rows [of ?t] by (simp add: tracks_def)
  ultimately show ?thesis by auto
qed

theorem checkpoint_rows_witness:
  "map row_cells (lines_of (checkpoint_render (fold call_table
       [Save (Position 1 0) (''evil'' @ [tab] @ ''row'' @ [newline]), Save (Position 2 5) [], Delete 1, Save (Position 3 0) ''main''] checkpoints_new)))
   = [[''Num'', ''When'', ''Where''], [''2'', ''2:5'', ''-''], [''3'', ''3:0'', ''main'']]"
proof -
  let ?calls = "[Save (Position 1 0) (''evil'' @ [tab] @ ''row'' @ [newline]), Save (Position 2 5) [], Delete 1, Save (Position 3 0) ''main'']"
  have "length ?calls < 2 ^ 64 - 1" by simp
  moreover have "fmt_dec (Suc (Suc 0)) = ''2''" "fmt_dec (Suc (Suc (Suc 0))) = ''3''" "format_position (Position 2 5) = ''2:5''" "format_position (Position 3 0) = ''3:0''"
    by code_simp+
  ultimately show ?thesis using checkpoint_rows [of ?calls] by simp
qed

end
