(* ===== verification/Commands.thy ===== *)
theory Commands
  imports Debug_Target Packet Checkpoints
begin

text \<open>
  Reverse-debugging commands (\<open>gdb/commands.rs\<close>): \<open>qRRCmd\<close> answers from the position and the
  checkpoint table, \<open>vRun\<close> restarts at a position, a checkpoint or the trace start. The lemmas show
  that the texts the first hands out are read back by the second to the same position, and that a
  rejected restart leaves the target alone.
\<close>

section \<open>Definitions\<close>

definition command_goto :: "'t target_ops \<Rightarrow> position \<Rightarrow> ('t, unit) target_verb" where
  "command_goto dt pos t =
     (case dt_goto dt pos t of
        Ret (t', r) \<Rightarrow> Ret (t', map_sum id (\<lambda>_. ()) r)
      | Panic s \<Rightarrow> Panic s
      | Spin \<Rightarrow> Spin)"

definition arg_at :: "string list \<Rightarrow> nat \<Rightarrow> string option" where
  "arg_at args i = (if i < length args then Some (args ! i) else None)"

definition handle_qrrcmd ::
  "'t target_ops \<Rightarrow> 't \<Rightarrow> checkpoint_table \<Rightarrow> string \<Rightarrow> checkpoint_table \<times> string" where
  "handle_qrrcmd dt t cps args =
     (let args = parse_qrrcmd_args args in
      if args = [] then (cps, [])
      else if args ! 0 = ''when'' then (cps, format_position (dt_position dt t))
      else if args ! 0 = ''checkpoint'' then
        (let where' = (case arg_at args 1 of None \<Rightarrow> [] | Some w \<Rightarrow> w);
             (cps', _, ack) = checkpoint_insert cps (dt_position dt t) where'
         in (cps', ack))
      else if args ! 0 = ''info checkpoints'' then (cps, checkpoint_render cps)
      else if args ! 0 = ''delete checkpoint'' then
        (case Option.bind (arg_at args 1) (from_str_radix 10) of
           Some i \<Rightarrow>
             (let (cps', removed) = checkpoint_remove cps i
              in if removed then (cps', ''Deleted checkpoint '' @ fmt_dec (unat i))
                 else (cps', ''No such checkpoint''))
         | None \<Rightarrow> (cps, ''No such checkpoint''))
      else (cps, []))"

text \<open>The restart target that \<open>vRun\<close> reads from its first argument.\<close>

definition restart_text :: "string list \<Rightarrow> string" where
  "restart_text args = (case args of [] \<Rightarrow> [] | s # _ \<Rightarrow> trim (from_utf8_lossy s))"

definition restart_target ::
  "position \<Rightarrow> checkpoint_table \<Rightarrow> string \<Rightarrow> (debug_error, position) result" where
  "restart_target start cps pos_str =
     (case split_once (CHR '':'') pos_str of
        Some (sq, n) \<Rightarrow>
          (case (from_str_radix 16 sq, from_str_radix 16 n) of
             (Some sequence, Some k) \<Rightarrow> Inr (position_new sequence k)
           | _ \<Rightarrow> Inl (InvalidCommand (''vRun: malformed position '' @ [CHR 0x27] @ pos_str @ [CHR 0x27])))
      | None \<Rightarrow>
          if pos_str = [] then Inr start
          else case (case strip_prefix ''c'' pos_str of Some i \<Rightarrow> Some i | None \<Rightarrow> strip_prefix ''C'' pos_str) of
                 Some id_str \<Rightarrow>
                   (case from_str_radix 10 id_str of
                      None \<Rightarrow> Inl (InvalidCommand (''vRun: unrecognized restart target '' @ [CHR 0x27] @ pos_str @ [CHR 0x27]))
                    | Some i \<Rightarrow>
                        (case checkpoint_position cps i of
                           None \<Rightarrow> Inl (InvalidCommand (''vRun: no such checkpoint '' @ fmt_dec (unat i)))
                         | Some pos \<Rightarrow> Inr pos))
               | None \<Rightarrow> Inl (InvalidCommand (''vRun: unrecognized restart target '' @ [CHR 0x27] @ pos_str @ [CHR 0x27])))"

definition handle_vrun ::
  "'t target_ops \<Rightarrow> checkpoint_table \<Rightarrow> string list \<Rightarrow> ('t, unit) target_verb" where
  "handle_vrun dt cps args t =
     (case restart_target (fst (dt_lifetime dt t)) cps (restart_text args) of
        Inl e \<Rightarrow> Ret (t, Inl e)
      | Inr pos \<Rightarrow> command_goto dt pos t)"

section \<open>Texts read back\<close>

lemma graph_ascii: "list_all ascii_graph s \<Longrightarrow> c \<in> set s \<Longrightarrow> (of_char c :: nat) < 128"
  by (auto simp: list_all_iff ascii_graph_def)

lemma restart_text_graph: "list_all ascii_graph s \<Longrightarrow> restart_text (s # rest) = s"
  using graph_ascii [of s] by (simp add: restart_text_def from_utf8_lossy_ascii trim_graph)

lemma restart_at_position: "restart_target start cps (format_position pos) = Inr pos"
  using split_once_mid [OF fmt_no_colon(1)]
  by (simp add: restart_target_def format_position_def position_new_def)

lemma fmt_dec_no_colon: "CHR '':'' \<notin> set (fmt_dec n)"
proof -
  have "d < 16" if "d \<in> set (radix_digits 10 n)" for d
    using radix_digits_bound [of 10 d n] that by simp
  then show ?thesis by (force simp: fmt_dec_def dest: digit_not_char)
qed

lemma restart_at_checkpoint:
  assumes "checkpoint_position cps i = Some pos" and "l = CHR ''c'' \<or> l = CHR ''C''"
  shows "restart_target start cps (l # fmt_dec (unat i)) = Inr pos"
proof -
  have "split_once (CHR '':'') (l # fmt_dec (unat i)) = None"
    using fmt_dec_no_colon assms(2) by (auto simp: split_once_None)
  with assms show ?thesis by (auto simp: restart_target_def)
qed

lemma handle_vrun_at: "list_all ascii_graph s \<Longrightarrow> restart_target (fst (dt_lifetime dt t)) cps s = Inr pos \<Longrightarrow>
  handle_vrun dt cps (s # rest) t = command_goto dt pos t"
  by (simp add: handle_vrun_def restart_text_graph)

text \<open>
  What \<open>qRRCmd when\<close> answers is a restart target: \<open>vRun\<close> with that text jumps to exactly the
  position it was asked at, even when the sequence number's hexadecimal text starts with the letter of
  a checkpoint id.
\<close>

theorem when_then_vrun:
  "handle_vrun dt cps [snd (handle_qrrcmd dt t0 cps0 '':when:-1'')] t = command_goto dt (dt_position dt t0) t"
proof -
  have "parse_qrrcmd_args '':when:-1'' = [''when'']"
    using parse_new_style [of "''when''" "[]"] by simp
  then have "snd (handle_qrrcmd dt t0 cps0 '':when:-1'') = format_position (dt_position dt t0)"
    by (simp add: handle_qrrcmd_def)
  then show ?thesis
    by (simp add: handle_vrun_at format_position_graph restart_at_position)
qed

lemma checkpoint_command:
  "handle_qrrcmd dt t cps (colon_list [''checkpoint'', ''-1'', encode_hex w])
     = (let (cps', _, ack) = checkpoint_insert cps (dt_position dt t) (from_utf8_lossy w) in (cps', ack))"
  using parse_new_style [of "''checkpoint''" "[w]"] by (simp add: handle_qrrcmd_def arg_at_def)

text \<open>
  C33. A checkpoint is a restart target: \<open>qRRCmd checkpoint\<close> with any description acknowledges with
  the id it saved under, and from then on, through any further checkpoint commands that do not delete
  that id, \<open>vRun;c<id>\<close> jumps to exactly the position of the target when the checkpoint was taken.
\<close>

theorem checkpoint_then_vrun:
  assumes "wf_checkpoints cps" and "unat (cp_next_id cps) + length ops < 2 ^ 64 - 1"
    and "handle_qrrcmd dt t0 cps (colon_list [''checkpoint'', ''-1'', encode_hex w]) = (cps1, ack)"
    and "Drop (cp_next_id cps) \<notin> set ops"
    and "fst (run_table checkpoint_alloc checkpoint_remove ops cps1) = cps2"
  shows "(\<exists>rest. ack = ''Checkpoint '' @ fmt_dec (unat (cp_next_id cps)) @ '' at '' @ rest)
    \<and> handle_vrun dt cps2 [CHR ''c'' # fmt_dec (unat (cp_next_id cps))] t = command_goto dt (dt_position dt t0) t"
proof -
  let ?i = "cp_next_id cps" and ?ins = "checkpoint_insert cps (dt_position dt t0) (from_utf8_lossy w)"
  have c1: "cps1 = fst ?ins" and ack: "ack = snd (snd ?ins)"
    using assms(3) unfolding checkpoint_command by (auto simp: split_beta)
  have acked: "\<exists>rest. ack = ''Checkpoint '' @ fmt_dec (unat ?i) @ '' at '' @ rest"
    by (auto simp: ack checkpoint_insert_def Let_def)
  have al: "checkpoint_alloc cps (dt_position dt t0, from_utf8_lossy w) = (cps1, ?i)"
    by (simp add: checkpoint_alloc_eq c1)
  have nm: "?i \<noteq> u64_max" using assms(2) by (auto dest: arg_cong [where f = unat])
  have "wf_checkpoints cps1" using wf_checkpoint_insert [OF assms(1) nm] c1 by simp
  moreover have "checkpoint_get cps1 ?i = Some (saved ?i (dt_position dt t0, from_utf8_lossy w))"
    using cps.alloc_finds [of cps "(dt_position dt t0, from_utf8_lossy w)"] al by simp
  moreover have "unat (cp_next_id cps1) + length ops < 2 ^ 64"
    using assms(2) by (simp add: c1 checkpoint_insert_simps unat_word_ariths)
  ultimately have "checkpoint_get cps2 ?i = Some (saved ?i (dt_position dt t0, from_utf8_lossy w))"
    using cps.run_keeps assms(4,5) by blast
  then have "checkpoint_position cps2 ?i = Some (dt_position dt t0)"
    by (simp add: checkpoint_position_alt saved_def)
  then have "restart_target s cps2 (CHR ''c'' # fmt_dec (unat ?i)) = Inr (dt_position dt t0)" for s
    by (rule restart_at_checkpoint) simp
  moreover have "list_all ascii_graph (CHR ''c'' # fmt_dec (unat ?i))"
    by (simp add: ascii_graph_def)
  ultimately show ?thesis using acked by (simp add: handle_vrun_at)
qed

theorem checkpoint_then_vrun_witness:
  "handle_vrun (ttd_target sim_api (\<lambda>_. 0))
     (fst (run_table checkpoint_alloc checkpoint_remove [Alloc (Position 9 9, ''x''), Drop 2]
        (fst (handle_qrrcmd (ttd_target sim_api (\<lambda>_. 0)) sim_process checkpoints_new
           (colon_list [''checkpoint'', ''-1'', encode_hex ''here''])))))
     [CHR ''c'' # fmt_dec (unat (cp_next_id checkpoints_new))] sim_process
   = command_goto (ttd_target sim_api (\<lambda>_. 0)) (sim_position 0) sim_process"
proof -
  obtain cps1 ack where q: "handle_qrrcmd (ttd_target sim_api (\<lambda>_. 0)) sim_process checkpoints_new
      (colon_list [''checkpoint'', ''-1'', encode_hex ''here'']) = (cps1, ack)" by (rule prod.exhaust)
  have "unat (cp_next_id checkpoints_new) + length [Alloc (Position 9 9, ''x''), Drop 2] < 2 ^ 64 - 1"
    "Drop (cp_next_id checkpoints_new) \<notin> set [Alloc (Position 9 9, ''x''), Drop 2]"
    by (simp_all add: checkpoints_new_def)
  from conjunct2 [OF checkpoint_then_vrun [OF wf_checkpoints_new this(1) q this(2) refl, of sim_process]]
  show ?thesis by (simp only: q fst_conv) (simp add: sim_process_def Let_def)
qed

section \<open>Rejected restarts\<close>

text \<open>
  A restart the command layer rejects (a malformed position, an unknown checkpoint, an
  unrecognised text) is always reported as an invalid command and leaves the target untouched; every
  other restart is a jump whose own failure is passed on, so a restart is acknowledged only when the
  target's jump succeeded.
\<close>

theorem rejected_restart_is_inert:
  "case restart_target (fst (dt_lifetime dt t)) cps (restart_text args) of
     Inl e \<Rightarrow> handle_vrun dt cps args t = Ret (t, Inl e) \<and> (\<exists>m. e = InvalidCommand m)
   | Inr pos \<Rightarrow> (\<forall>t' u. handle_vrun dt cps args t = Ret (t', Inr u) \<longleftrightarrow> (\<exists>r. dt_goto dt pos t = Ret (t', Inr r)))
       \<and> (\<forall>t' e. handle_vrun dt cps args t = Ret (t', Inl e) \<longleftrightarrow> dt_goto dt pos t = Ret (t', Inl e))"
proof (cases "restart_target (fst (dt_lifetime dt t)) cps (restart_text args)")
  case (Inl e)
  then show ?thesis
    by (auto simp: handle_vrun_def restart_target_def split: option.splits if_splits prod.splits)
next
  case (Inr pos)
  have "map_sum id (\<lambda>_. ()) x = Inl e \<longleftrightarrow> x = Inl e" for x :: "debug_error + stop_reason" and e by (cases x) auto
  moreover have "map_sum id (\<lambda>_. ()) x = Inr u \<longleftrightarrow> (\<exists>r. x = Inr r)" for x :: "debug_error + stop_reason" and u by (cases x) auto
  ultimately show ?thesis using Inr by (auto simp: handle_vrun_def command_goto_def split: run.splits)
qed

end
