(* ===== verification/Pe.thy ===== *)
theory Pe
  imports Bytes "HOL-Library.Monad_Syntax"
begin

text \<open>
  The PE section-table reader (\<open>gdb/pe.rs\<close>). A file is its bytes; \<open>read_exact\<close> after a seek is a
  bounded range of them, and a file that cannot be opened is \<open>None\<close>. The scan over the section
  headers is shown to pick the first \<open>.text\<close> section, or else the first executable one.
\<close>

unbundle bit_operations_syntax

section \<open>Definitions\<close>

definition DOS_HEADER_LEN :: nat where "DOS_HEADER_LEN = 64"
definition PE_SIGNATURE :: "u8 list" where "PE_SIGNATURE = [0x50, 0x45, 0, 0]"
definition COFF_HEADER_LEN :: nat where "COFF_HEADER_LEN = 20"
definition SECTION_HEADER_LEN :: nat where "SECTION_HEADER_LEN = 40"
definition MAX_SECTIONS :: nat where "MAX_SECTIONS = 96"
definition MAX_OPTIONAL_HEADER :: nat where "MAX_OPTIONAL_HEADER = 0x1000"
definition IMAGE_SCN_MEM_EXECUTE :: u32 where "IMAGE_SCN_MEM_EXECUTE = 0x20000000"
definition DEFAULT_TEXT_RVA :: u32 where "DEFAULT_TEXT_RVA = 0x1000"

definition TEXT_NAME :: "u8 list" where "TEXT_NAME = [0x2E, 0x74, 0x65, 0x78, 0x74]"

lemmas pe_defs = DOS_HEADER_LEN_def PE_SIGNATURE_def COFF_HEADER_LEN_def SECTION_HEADER_LEN_def
  MAX_SECTIONS_def MAX_OPTIONAL_HEADER_def IMAGE_SCN_MEM_EXECUTE_def TEXT_NAME_def

definition read_u16 :: "u8 list \<Rightarrow> nat \<Rightarrow> u16 option" where
  "read_u16 bytes offset = do { raw \<leftarrow> get_range bytes offset (offset + 2); from_le_bytes raw }"

definition read_u32 :: "u8 list \<Rightarrow> nat \<Rightarrow> u32 option" where
  "read_u32 bytes offset = do { raw \<leftarrow> get_range bytes offset (offset + 4); from_le_bytes raw }"

text \<open>The scan over the headers still to visit, with the first executable section seen so far.\<close>

fun scan_sections :: "u8 list \<Rightarrow> nat list \<Rightarrow> u32 option \<Rightarrow> u32 option" where
  "scan_sections table [] executable = executable"
| "scan_sections table (index # rest) executable = do {
     header \<leftarrow> get_range table (index * SECTION_HEADER_LEN) (index * SECTION_HEADER_LEN + SECTION_HEADER_LEN);
     virtual_size \<leftarrow> read_u32 header 8;
     virtual_address \<leftarrow> read_u32 header 12;
     characteristics \<leftarrow> read_u32 header 36;
     if virtual_size = 0 \<or> virtual_address = 0 then scan_sections table rest executable
     else if take 5 (take 8 header) = TEXT_NAME then Some virtual_address
     else if executable = None \<and> characteristics AND IMAGE_SCN_MEM_EXECUTE \<noteq> 0
       then scan_sections table rest (Some virtual_address)
     else scan_sections table rest executable
   }"

definition text_rva_from_section_table :: "u8 list \<Rightarrow> nat \<Rightarrow> u32 option" where
  "text_rva_from_section_table table section_count = scan_sections table [0..<section_count] None"

definition text_rva :: "u8 list option \<Rightarrow> u32 option" where
  "text_rva opened = do {
     file \<leftarrow> opened;
     dos \<leftarrow> get_range file 0 DOS_HEADER_LEN;
     off \<leftarrow> read_u32 dos 0x3c;
     let pe_offset = unat off;
     header \<leftarrow> get_range file pe_offset (pe_offset + (length PE_SIGNATURE + COFF_HEADER_LEN));
     if take 4 header \<noteq> PE_SIGNATURE then None
     else do {
       count \<leftarrow> read_u16 header (4 + 2);
       optional \<leftarrow> read_u16 header (4 + 16);
       let section_count = unat count;
       let optional_size = unat optional;
       if section_count = 0 \<or> section_count > MAX_SECTIONS \<or> optional_size > MAX_OPTIONAL_HEADER then None
       else do {
         let table_offset = pe_offset + (length PE_SIGNATURE + COFF_HEADER_LEN + optional_size);
         table \<leftarrow> get_range file table_offset (table_offset + section_count * SECTION_HEADER_LEN);
         text_rva_from_section_table table section_count
       }
     }
   }"

section \<open>Which section is chosen\<close>

datatype section_header = SectionHeader (sh_name: "u8 list") (sh_size: u32) (sh_rva: u32) (sh_flags: u32)

definition header_at :: "u8 list \<Rightarrow> nat \<Rightarrow> section_header" where
  "header_at table i =
     (let h = take 40 (drop (i * 40) table);
          w = (\<lambda>k. word_of_nat (le_value (take 4 (drop k h))))
      in SectionHeader (take 8 h) (w 8) (w 12) (w 36))"

definition loaded :: "section_header \<Rightarrow> bool" where
  "loaded h \<longleftrightarrow> sh_size h \<noteq> 0 \<and> sh_rva h \<noteq> 0"

definition is_text :: "section_header \<Rightarrow> bool" where
  "is_text h \<longleftrightarrow> loaded h \<and> take 5 (sh_name h) = TEXT_NAME"

definition is_code :: "section_header \<Rightarrow> bool" where
  "is_code h \<longleftrightarrow> loaded h \<and> sh_flags h AND IMAGE_SCN_MEM_EXECUTE \<noteq> 0"

lemma read_u32_inside: "offset + 4 \<le> length bytes \<Longrightarrow>
  read_u32 bytes offset = Some (word_of_nat (le_value (take 4 (drop offset bytes))))"
  by (simp add: read_u32_def get_range_def from_le_bytes_def)

lemma scan_header:
  assumes "i * 40 + 40 \<le> length table"
  shows "scan_sections table (i # rest) ex =
    (let h = header_at table i in
     if is_text h then Some (sh_rva h)
     else scan_sections table rest (if ex = None \<and> is_code h then Some (sh_rva h) else ex))"
proof -
  have "get_range table (i * SECTION_HEADER_LEN) (i * SECTION_HEADER_LEN + SECTION_HEADER_LEN)
      = Some (take 40 (drop (i * 40) table))"
    using assms by (simp add: get_range_def pe_defs)
  moreover have "length (take 40 (drop (i * 40) table)) = 40" using assms by simp
  ultimately show ?thesis
    by (simp add: read_u32_inside header_at_def Let_def is_text_def is_code_def loaded_def)
qed

lemma scan_spec:
  assumes "\<And>i. i \<in> set is \<Longrightarrow> i * 40 + 40 \<le> length table"
  shows "scan_sections table is ex =
    (case find is_text (map (header_at table) is) of
       Some h \<Rightarrow> Some (sh_rva h)
     | None \<Rightarrow> (case ex of Some x \<Rightarrow> Some x | None \<Rightarrow> map_option sh_rva (find is_code (map (header_at table) is))))"
  using assms
proof (induction "is" arbitrary: ex)
  case Nil
  then show ?case by (cases ex) simp_all
next
  case (Cons i "is")
  then have "i * 40 + 40 \<le> length table" by simp
  with Cons show ?case by (cases ex) (auto simp: scan_header Let_def simp del: scan_sections.simps split: option.split)
qed

text \<open>
  The section scan, one pass with an early exit, chooses exactly: on a complete section table, the
  address of the first loaded section whose name starts with \<open>.text\<close>, wherever it stands, and only
  when there is none the first loaded executable section.
\<close>

theorem text_section_choice:
  assumes "section_count * 40 \<le> length table"
  shows "text_rva_from_section_table table section_count =
    (let hs = map (header_at table) [0..<section_count] in
     case find is_text hs of
       Some h \<Rightarrow> Some (sh_rva h)
     | None \<Rightarrow> map_option sh_rva (find is_code hs))"
proof -
  have "i * 40 + 40 \<le> length table" if "i \<in> set [0..<section_count]" for i
  proof -
    from that have "Suc i * 40 \<le> section_count * 40" by (intro mult_le_mono1) simp
    with assms show ?thesis by simp
  qed
  note scan_spec [OF this, of "[0..<section_count]" None]
  then show ?thesis by (simp add: text_rva_from_section_table_def Let_def split: option.split)
qed

definition sample_table :: "u8 list" where
  "sample_table = replicate 8 0x41 @ [1, 0, 0, 0] @ [0, 0x10, 0, 0] @ replicate 20 0 @ [0, 0, 0, 0x20]
     @ TEXT_NAME @ [0x24, 0x6D, 0x6E] @ [1, 0, 0, 0] @ [0, 0x30, 0, 0] @ replicate 20 0 @ [0, 0, 0, 0]"

theorem text_section_choice_witness:
  "2 * 40 \<le> length sample_table \<and> text_rva_from_section_table sample_table 2 = Some 0x3000
   \<and> text_rva_from_section_table sample_table 2 =
      (let hs = map (header_at sample_table) [0..<2] in
       case find is_text hs of Some h \<Rightarrow> Some (sh_rva h) | None \<Rightarrow> map_option sh_rva (find is_code hs))"
proof (intro conjI)
  show len: "2 * 40 \<le> length sample_table" by (simp add: sample_table_def TEXT_NAME_def)
  show "text_rva_from_section_table sample_table 2 = Some 0x3000" by code_simp
  show "text_rva_from_section_table sample_table 2 =
      (let hs = map (header_at sample_table) [0..<2] in
       case find is_text hs of Some h \<Rightarrow> Some (sh_rva h) | None \<Rightarrow> map_option sh_rva (find is_code hs))"
    by (rule text_section_choice [OF len])
qed

section \<open>Bounds\<close>

text \<open>Whatever the file holds, the reader accepts a section table only inside the file and of bounded size.\<close>

lemma text_rva_bounds:
  assumes "text_rva (Some file) = Some rva"
  shows "\<exists>off count. count \<le> MAX_SECTIONS \<and> off + count * SECTION_HEADER_LEN \<le> length file
    \<and> off < 2 ^ 32 + 24 + MAX_OPTIONAL_HEADER + 1
    \<and> text_rva_from_section_table (take (count * SECTION_HEADER_LEN) (drop off file)) count = Some rva"
proof -
  from assms obtain off :: u32 and count optional :: u16 where
    t: "0 < unat count" "unat count \<le> MAX_SECTIONS" "unat optional \<le> MAX_OPTIONAL_HEADER"
    and r: "do { table \<leftarrow> get_range file (unat off + (24 + unat optional)) (unat off + (24 + unat optional) + unat count * SECTION_HEADER_LEN);
              text_rva_from_section_table table (unat count) } = Some rva"
    by (auto simp: text_rva_def Let_def bind_eq_Some_conv PE_SIGNATURE_def COFF_HEADER_LEN_def not_less split: if_splits)
  have "unat off < 2 ^ 32" using unsigned_less [of off] by simp
  with t r show ?thesis
    by (intro exI [of _ "unat off + (24 + unat optional)"] exI [of _ "unat count"])
      (auto simp: bind_eq_Some_conv get_range_def split: if_splits)
qed

end
