(* ===== verification/Xml.thy ===== *)
theory Xml
  imports Pe Trace_Metadata
begin

text \<open>
  The blobs served through \<open>qXfer\<close> (\<open>gdb/xml.rs\<close>): the chunking every such read shares, and the
  library list. The XML writer is a library: it is the parameter \<open>render\<close>, from an element tree to
  text. A client that reads on from where the last chunk ended reassembles the blob.
\<close>

section \<open>Chunks\<close>

text \<open>\<open>buf\<close> is the caller's buffer; the result is the buffer after the call and the bytes written.\<close>

definition write_xml_chunk :: "u8 list \<Rightarrow> u64 \<Rightarrow> u64 \<Rightarrow> u8 list \<Rightarrow> u8 list \<times> nat" where
  "write_xml_chunk data offset len buf =
     (let start = min (unat offset) (length data);
          stop = min (unat (saturating_add (word_of_nat start) len)) (length data)
      in if start = length data then (buf, 0)
         else let n = min (stop - start) (length buf)
              in (take n (drop start data) @ drop n buf, n))"

section \<open>The library list\<close>

datatype xml_element = Element (el_name: string) (el_attributes: "(string \<times> string) list") (el_children: "xml_element list")

text \<open>\<open>opened\<close> gives the bytes of the file at a path, if it can be opened.\<close>

definition module_text :: "(string \<Rightarrow> u8 list option) \<Rightarrow> module_info \<Rightarrow> u64" where
  "module_text opened m =
     saturating_add (base_addr m)
       (ucast (case text_rva (opened (mod_name m)) of None \<Rightarrow> DEFAULT_TEXT_RVA | Some rva \<Rightarrow> rva))"

definition build_libraries_xml ::
  "(string \<Rightarrow> u8 list option) \<Rightarrow> (xml_element \<Rightarrow> string) \<Rightarrow> module_info list \<Rightarrow> string" where
  "build_libraries_xml opened render modules =
     render (Element ''library-list'' [(''version'', ''1.0'')]
       (map (\<lambda>m. Element ''library'' [(''name'', mod_name m)]
          [Element ''segment'' [(''address'', ''0x'' @ fmt_hex (unat (module_text opened m)))] []]) modules))"

section \<open>Reassembly\<close>

lemma chunk_written:
  assumes "length data < 2 ^ 64" and "off < 2 ^ 64"
  shows "snd (write_xml_chunk data (word_of_nat off) len buf) = min (length data - off) (min (unat len) (length buf))"
    and "take (snd (write_xml_chunk data (word_of_nat off) len buf)) (fst (write_xml_chunk data (word_of_nat off) len buf))
      = take (min (unat len) (length buf)) (drop off data)"
    and "length (fst (write_xml_chunk data (word_of_nat off) len buf)) = length buf"
proof -
  have off: "unat (word_of_nat off :: u64) = off"
    using assms(2) by (simp add: unsigned_of_nat take_bit_eq_mod)
  let ?r = "write_xml_chunk data (word_of_nat off) len buf"
  have "snd ?r = min (length data - off) (min (unat len) (length buf))
    \<and> take (snd ?r) (fst ?r) = take (min (unat len) (length buf)) (drop off data)
    \<and> length (fst ?r) = length buf"
  proof (cases "length data \<le> off")
    case True
    then show ?thesis by (simp add: write_xml_chunk_def Let_def off)
  next
    case False
    then have st: "min off (length data) = off" by simp
    have "unat (saturating_add (word_of_nat off) len) = min (off + unat len) (2 ^ 64 - 1)"
      by (simp add: unat_saturating_add off)
    with False assms(1) have "min (unat (saturating_add (word_of_nat off) len)) (length data) - off = min (unat len) (length data - off)"
      by simp
    with False st show ?thesis
      by (simp add: write_xml_chunk_def Let_def off min_def)
  qed
  then show "snd ?r = min (length data - off) (min (unat len) (length buf))"
    and "take (snd ?r) (fst ?r) = take (min (unat len) (length buf)) (drop off data)"
    and "length (fst ?r) = length buf" by blast+
qed

text \<open>
  A client's reads, each request a length and a buffer, the next offset being the last one plus the
  bytes received: the pieces, and the offset reached.
\<close>

fun qxfer_reads :: "u8 list \<Rightarrow> nat \<Rightarrow> (u64 \<times> u8 list) list \<Rightarrow> u8 list list \<times> nat" where
  "qxfer_reads data off [] = ([], off)"
| "qxfer_reads data off ((len, buf) # requests) =
     (let (buf', n) = write_xml_chunk data (word_of_nat off) len buf;
          (pieces, final) = qxfer_reads data (off + n) requests
      in (take n buf' # pieces, final))"

lemma qxfer_reads_prefix:
  assumes "length data < 2 ^ 64" and "off \<le> length data"
  shows "concat (fst (qxfer_reads data off requests)) = take (snd (qxfer_reads data off requests) - off) (drop off data)
    \<and> off \<le> snd (qxfer_reads data off requests) \<and> snd (qxfer_reads data off requests) \<le> length data
    \<and> ((\<forall>(len, buf)\<in>set requests. 0 < len \<and> buf \<noteq> []) \<longrightarrow>
         min (length data) (off + length requests) \<le> snd (qxfer_reads data off requests))"
  using assms(2)
proof (induction requests arbitrary: off)
  case Nil
  then show ?case by simp
next
  case (Cons req requests)
  obtain len buf where req: "req = (len, buf)" by fastforce
  obtain buf' n where w: "write_xml_chunk data (word_of_nat off) len buf = (buf', n)" by fastforce
  have "off < 2 ^ 64" using Cons.prems assms(1) by simp
  from chunk_written [OF assms(1) this, of len buf] w
  have n: "n = min (length data - off) (min (unat len) (length buf))"
    and piece: "take n buf' = take (min (unat len) (length buf)) (drop off data)" by simp_all
  then have piece': "take n buf' = take n (drop off data)"
    by (simp add: min_def)
  have le: "off + n \<le> length data" using n Cons.prems by linarith
  obtain ps f where r: "qxfer_reads data (off + n) requests = (ps, f)" by fastforce
  note IH = Cons.IH [OF le, unfolded r fst_conv snd_conv]
  have "concat (take n buf' # ps) = take (f - off) (drop off data)"
  proof -
    have "take (f - off) (drop off data) = take n (drop off data) @ take (f - (off + n)) (drop (off + n) data)"
      using IH take_add [of n "f - (off + n)" "drop off data"] by (simp add: add.commute)
    with IH piece' show ?thesis by simp
  qed
  moreover have "min (length data) (off + length (req # requests)) \<le> f"
    if pos: "\<forall>(len, buf)\<in>set (req # requests). 0 < len \<and> buf \<noteq> []"
  proof -
    from pos req have "0 < unat len" "0 < length buf" by (auto simp: unat_gt_0 word_neq_0_conv)
    then have "n = length data - off \<or> 0 < n" using n by linarith
    moreover from pos IH have "min (length data) (off + n + length requests) \<le> f" by auto
    ultimately show ?thesis using le by auto
  qed
  ultimately show ?case using IH req w r by simp
qed

text \<open>
  C32. A \<open>qXfer\<close> read cannot lose, repeat or invent bytes: for every blob, whatever request lengths and
  buffer sizes the client uses and however many reads it makes, the pieces concatenate to a prefix of
  the blob; and after as many non-empty requests as the blob has bytes, to the whole blob.
\<close>

theorem qxfer_reassembles:
  assumes "length data < 2 ^ 64" and "qxfer_reads data 0 requests = (pieces, final)"
  shows "concat pieces = take final data \<and> final \<le> length data
    \<and> ((\<forall>(len, buf)\<in>set requests. 0 < len \<and> buf \<noteq> []) \<and> length data \<le> length requests \<longrightarrow> concat pieces = data)"
  using qxfer_reads_prefix [OF assms(1), of 0 requests] assms(2) by auto

theorem qxfer_reassembles_witness:
  "concat (fst (qxfer_reads [1, 2, 3, 4, 5] 0 (replicate 5 (2, [0, 0, 0])))) = [1, 2, 3, 4, 5]"
proof -
  obtain pieces final where q: "qxfer_reads [1, 2, 3, 4, 5] 0 (replicate 5 (2, [0, 0, 0])) = (pieces, final)"
    by (rule prod.exhaust)
  have "length [1, 2, 3, 4, 5 :: u8] < 2 ^ 64" by simp
  from conjunct2 [OF conjunct2 [OF qxfer_reassembles [OF this q]]] have "concat pieces = [1, 2, 3, 4, 5]" by simp
  then show ?thesis by (simp only: q fst_conv)
qed

section \<open>Segment addresses\<close>

text \<open>A reported segment address is never below the module's base, and saturates at the end of the address space.\<close>

lemma module_text_bounds: "base_addr m \<le> module_text opened m"
proof -
  have "unat (base_addr m) \<le> 2 ^ 64 - 1" using unat_u64_less [of "base_addr m"] by (simp del: unat_u64_less)
  then show ?thesis by (simp add: module_text_def word_le_nat_alt unat_saturating_add)
qed

end
