(* ===== verification/Resume.thy ===== *)
theory Resume
  imports Prelude
begin

text \<open>
  The pending resume action (\<open>gdb/resume.rs\<close>): a \<open>vCont\<close> packet clears it, applies its actions in
  wire order and takes it. A wire thread id is a non-zero \<open>u64\<close>.
\<close>

type_synonym tid = u64

datatype replay_op =
    OpContinue
  | OpStep tid
  | OpBackwardContinue
  | OpBackwardStep tid
  | OpRangeStep tid u64 u64

fun is_forward :: "replay_op \<Rightarrow> bool" where
  "is_forward OpContinue = True"
| "is_forward (OpStep _) = True"
| "is_forward (OpRangeStep _ _ _) = True"
| "is_forward _ = False"

record resume_state =
  pending :: replay_op

definition resume_default :: resume_state where
  "resume_default = \<lparr>pending = OpContinue\<rparr>"

definition resume_take :: "resume_state \<Rightarrow> resume_state \<times> replay_op" where
  "resume_take s = (s\<lparr>pending := OpContinue\<rparr>, pending s)"

definition resume_clear :: "resume_state \<Rightarrow> resume_state" where
  "resume_clear s = s\<lparr>pending := OpContinue\<rparr>"

definition set_continue :: "resume_state \<Rightarrow> resume_state" where
  "set_continue s = s"

definition set_step :: "tid \<Rightarrow> resume_state \<Rightarrow> resume_state" where
  "set_step t s = s\<lparr>pending := OpStep t\<rparr>"

definition set_range_step :: "tid \<Rightarrow> u64 \<Rightarrow> u64 \<Rightarrow> resume_state \<Rightarrow> resume_state" where
  "set_range_step t start stop s =
     s\<lparr>pending := (if start = stop then OpStep t else OpRangeStep t start stop)\<rparr>"

section \<open>A \<open>vCont\<close> packet\<close>

datatype vcont_action = ActContinue | ActStep tid | ActRange tid u64 u64

fun apply_action :: "vcont_action \<Rightarrow> resume_state \<Rightarrow> resume_state" where
  "apply_action ActContinue s = set_continue s"
| "apply_action (ActStep t) s = set_step t s"
| "apply_action (ActRange t start stop) s = set_range_step t start stop s"

text \<open>The operation a list of actions asks for: the last one that is not a plain continue.\<close>

fun action_op :: "vcont_action \<Rightarrow> replay_op option" where
  "action_op ActContinue = None"
| "action_op (ActStep t) = Some (OpStep t)"
| "action_op (ActRange t start stop) = Some (if start = stop then OpStep t else OpRangeStep t start stop)"

definition requested_op :: "vcont_action list \<Rightarrow> replay_op" where
  "requested_op acts =
     (case List.map_filter action_op acts of [] \<Rightarrow> OpContinue | ops \<Rightarrow> last ops)"

lemma apply_action_pending:
  "pending (apply_action a s) = (case action_op a of None \<Rightarrow> pending s | Some p \<Rightarrow> p)"
  by (cases a) (simp_all add: set_continue_def set_step_def set_range_step_def)

lemma apply_actions_pending:
  "pending (fold apply_action acts s) =
     (case List.map_filter action_op acts of [] \<Rightarrow> pending s | ops \<Rightarrow> last ops)"
proof (induction acts arbitrary: s)
  case Nil
  then show ?case by (simp add: map_filter_simps)
next
  case (Cons a acts)
  then show ?case
    by (cases "action_op a") (auto simp: map_filter_simps apply_action_pending split: list.split)
qed

text \<open>
  Whatever action was left pending before, a \<open>vCont\<close> packet runs exactly the last step or range
  step it names (an empty range being a step), or a plain continue when it names none; a wildcard
  continue never downgrades a step, the operation always replays forward, and nothing is left pending
  for the next resume.
\<close>

theorem vcont_runs_requested:
  "resume_take (fold apply_action acts (resume_clear s)) = (resume_default, requested_op acts)
   \<and> is_forward (requested_op acts)"
proof -
  have "action_op a = Some p \<Longrightarrow> is_forward p" for a p by (cases a) auto
  then have "x \<in> set (List.map_filter action_op acts) \<Longrightarrow> is_forward x" for x
    by (auto simp: map_filter_def)
  then have "is_forward (requested_op acts)"
    using last_in_set [of "List.map_filter action_op acts"] unfolding requested_op_def
    by (cases "List.map_filter action_op acts") (simp_all del: last.simps)
  moreover have "fst (resume_take r) = resume_default" for r
    by (simp add: resume_take_def resume_default_def)
  moreover have "snd (resume_take (fold apply_action acts (resume_clear s))) = requested_op acts"
    by (simp add: resume_take_def apply_actions_pending requested_op_def resume_clear_def split: list.split)
  ultimately show ?thesis by (metis prod.collapse)
qed

end
