(* ===== verification/Mapping_Wire.thy ===== *)
theory Mapping_Wire
  imports Debug_Target Resume
begin

text \<open>
  The wire mapping of backend results (\<open>gdb/mapping.rs\<close>): stop reasons to stop replies, access masks
  to watch kinds, exception codes to signals, and the thread a stop advertises. \<open>usize\<close> is 64 bits.
\<close>

datatype signal = SIGZERO | SIGINT | SIGTRAP | SIGABRT | SIGKILL | SIGSEGV

datatype watch_kind = WatchWrite | WatchRead | WatchReadWrite

text \<open>The part of \<open>MultiThreadStopReason\<close> this program reports.\<close>

datatype multi_stop =
    SignalWithThread tid signal
  | Watch tid watch_kind u64
  | Exited u8

definition to_wire_tid :: "u64 \<Rightarrow> tid option" where
  "to_wire_tid t = (if t = 0 then None else Some t)"

definition from_wire_tid :: "tid \<Rightarrow> u64" where
  "from_wire_tid t = t"

text \<open>Finding the first active thread queries the target, only when the current thread is unknown.\<close>

definition stop_tid :: "'t target_ops \<Rightarrow> 't \<Rightarrow> 't \<times> tid" where
  "stop_tid dt t =
     (case Option.bind (dt_current_thread_id dt t) to_wire_tid of
        Some i \<Rightarrow> (t, i)
      | None \<Rightarrow>
          (let (t', ids) = dt_active_thread_ids dt t
           in (t', case (case ids of [] \<Rightarrow> None | i # _ \<Rightarrow> to_wire_tid i) of Some i \<Rightarrow> i | None \<Rightarrow> 1)))"

definition watch_kind_from_access :: "access_mask \<Rightarrow> watch_kind" where
  "watch_kind_from_access access =
     (case (mask_contains access ACCESS_READ, mask_contains access ACCESS_WRITE) of
        (True, True) \<Rightarrow> WatchReadWrite
      | (True, False) \<Rightarrow> WatchRead
      | _ \<Rightarrow> WatchWrite)"

definition signal_for_exception :: "u32 \<Rightarrow> signal" where
  "signal_for_exception c =
     (if c = 0x80000003 \<or> c = 0x80000004 then SIGTRAP
      else if c = 0xC0000005 then SIGSEGV
      else if c = 0xE06D7363 \<or> c = 0x20474343 then SIGABRT
      else SIGSEGV)"

fun stop_reply :: "tid \<Rightarrow> stop_reason \<Rightarrow> multi_stop" where
  "stop_reply i ProcessExit = SignalWithThread i SIGKILL"
| "stop_reply i TraceEnd = SignalWithThread i SIGKILL"
| "stop_reply i TraceStart = SignalWithThread i SIGZERO"
| "stop_reply i (Watchpoint _ addr access) = Watch i (watch_kind_from_access access) addr"
| "stop_reply i (Exception c _) = SignalWithThread i (signal_for_exception c)"
| "stop_reply i Interrupted = SignalWithThread i SIGINT"
| "stop_reply i _ = SignalWithThread i SIGTRAP"

definition map_stop_reason ::
  "'t target_ops \<Rightarrow> (debug_error, stop_reason) result \<Rightarrow> 't \<Rightarrow> 't \<times> multi_stop" where
  "map_stop_reason dt reason t =
     (let (t', i) = stop_tid dt t
      in (t', case reason of Inl _ \<Rightarrow> SignalWithThread i SIGTRAP | Inr r \<Rightarrow> stop_reply i r))"

fun breakpoint_kind_from_watch_kind :: "watch_kind \<Rightarrow> breakpoint_kind" where
  "breakpoint_kind_from_watch_kind WatchWrite = BkWrite"
| "breakpoint_kind_from_watch_kind WatchRead = BkRead"
| "breakpoint_kind_from_watch_kind WatchReadWrite = BkAccess"

fun access_mask_from_watch_kind :: "watch_kind \<Rightarrow> access_mask" where
  "access_mask_from_watch_kind WatchWrite = ACCESS_WRITE"
| "access_mask_from_watch_kind WatchRead = ACCESS_READ"
| "access_mask_from_watch_kind WatchReadWrite = ACCESS_READ_WRITE"

section \<open>Lemmas\<close>

lemma wire_tid_round_trip: "to_wire_tid t = Some i \<Longrightarrow> from_wire_tid i = t \<and> i \<noteq> 0"
  by (auto simp: to_wire_tid_def from_wire_tid_def split: if_splits)

lemma stop_tid_nonzero: "snd (stop_tid dt t) \<noteq> 0"
proof -
  have "Option.bind x to_wire_tid = Some i \<Longrightarrow> i \<noteq> 0" for x i
    by (cases x) (auto simp: to_wire_tid_def split: if_splits)
  then show ?thesis
    by (auto simp: stop_tid_def split_beta Let_def to_wire_tid_def split: option.splits list.splits if_splits)
qed

lemma watch_kind_masks:
  "watch_kind_from_access (access_mask_from_watch_kind k) = k"
  "kind_access (breakpoint_kind_from_watch_kind k) = access_mask_from_watch_kind k"
  by (cases k; simp add: watch_kind_from_access_def mask_contains_def access_defs)+

fun stop_thread :: "multi_stop \<Rightarrow> tid option" where
  "stop_thread (SignalWithThread i _) = Some i"
| "stop_thread (Watch i _ _) = Some i"
| "stop_thread (Exited _) = None"

text \<open>A frontend over a lawful target: mapping a stop neither moves the target nor breaks its invariant.\<close>

context debug_target
begin

lemma stop_tid_inv: "inv t \<Longrightarrow> inv (fst (stop_tid dt t))"
  by (auto simp: stop_tid_def split_beta Let_def active_thread_ids_inv split: option.splits)

lemma stop_tid_pos: "dt_position dt (fst (stop_tid dt t)) = dt_position dt t"
  by (auto simp: stop_tid_def split_beta Let_def active_thread_ids_pos split: option.splits)

lemma map_stop_reason_inv: "inv t \<Longrightarrow> inv (fst (map_stop_reason dt r t))"
  by (simp add: map_stop_reason_def split_beta stop_tid_inv)

lemma map_stop_reason_pos: "dt_position dt (fst (map_stop_reason dt r t)) = dt_position dt t"
  by (simp add: map_stop_reason_def split_beta stop_tid_pos)

end

text \<open>The thread a stop of the debug process advertises when none is selected.\<close>

lemma active_ids_nonzero: "0 \<notin> set (snd (tp_active_thread_ids ca p))"
proof -
  have "(ucast t :: u64) \<noteq> 0" if "t \<noteq> 0" for t :: u32
  proof -
    have "narrow (ucast t :: u64) = Some t" by simp
    then have "unat (ucast t :: u64) = unat t" by (simp only: narrow_Some)
    with that show ?thesis by (metis unsigned_0 unsigned_eq_0_iff)
  qed
  then show ?thesis by (auto simp: tp_active_thread_ids_def with_cursor_def at_position_def split_beta Let_def)
qed

lemma stop_tid_unselected:
  assumes "current_thread_id p = None"
  shows "stop_tid (ttd_target ca arrived) p = (fst (tp_active_thread_ids ca p),
    if snd (tp_active_thread_ids ca p) = [] then 1 else hd (snd (tp_active_thread_ids ca p)))"
  using assms active_ids_nonzero [of ca p]
  by (auto simp: stop_tid_def to_wire_tid_def split_beta Let_def split: list.splits)

text \<open>
  C29. Every stop reply names a thread that exists and says what happened. The thread is the selected one;
  when none is selected it is the first thread active at the stop, and 1 only when the trace has no active
  thread there. The signal tells the cause apart: \<open>SIGKILL\<close> exactly for the end of the recording,
  \<open>SIGZERO\<close> for its start, \<open>SIGINT\<close> for an interrupt, \<open>SIGABRT\<close> for the two C++ exception codes, \<open>SIGSEGV\<close>
  for any other exception but the two debugger traps, and \<open>SIGTRAP\<close> for those traps, breakpoints, completed
  steps and jumps, and errors; a watchpoint stop reports the address that was hit and the kind its access
  mask spells, which is the kind the client asked for.
\<close>

theorem stop_reply_faithful:
  "case map_stop_reason (ttd_target ca arrived) r p of (p', s) \<Rightarrow>
     (\<exists>i. stop_thread s = Some i \<and> i \<noteq> 0
        \<and> (\<forall>j. current_thread_id p = Some j \<and> j \<noteq> 0 \<longrightarrow> i = j \<and> p' = p)
        \<and> (current_thread_id p = None \<longrightarrow> p' = fst (tp_active_thread_ids ca p)
             \<and> (if snd (tp_active_thread_ids ca p) = [] then i = 1 else i = hd (snd (tp_active_thread_ids ca p))))
        \<and> (s = SignalWithThread i SIGKILL \<longleftrightarrow> r \<in> {Inr ProcessExit, Inr TraceEnd})
        \<and> (s = SignalWithThread i SIGZERO \<longleftrightarrow> r = Inr TraceStart)
        \<and> (s = SignalWithThread i SIGINT \<longleftrightarrow> r = Inr Interrupted)
        \<and> (s = SignalWithThread i SIGABRT \<longleftrightarrow> (\<exists>c a. r = Inr (Exception c a) \<and> c \<in> {0xE06D7363, 0x20474343}))
        \<and> (s = SignalWithThread i SIGSEGV \<longleftrightarrow>
             (\<exists>c a. r = Inr (Exception c a) \<and> c \<notin> {0x80000003, 0x80000004, 0xE06D7363, 0x20474343}))
        \<and> (s = SignalWithThread i SIGTRAP \<longleftrightarrow> isl r \<or> r \<in> {Inr StepComplete, Inr PositionReached}
             \<or> (\<exists>n a. r = Inr (Breakpoint n a)) \<or> (\<exists>c a. r = Inr (Exception c a) \<and> c \<in> {0x80000003, 0x80000004}))
        \<and> (\<forall>k a. s = Watch i k a \<longleftrightarrow> (\<exists>n x. r = Inr (Watchpoint n a x) \<and>
             k = (if mask_contains x ACCESS_READ \<and> mask_contains x ACCESS_WRITE then WatchReadWrite
                  else if mask_contains x ACCESS_READ then WatchRead else WatchWrite)))
        \<and> (\<forall>n a k. r = Inr (Watchpoint n a (access_mask_from_watch_kind k)) \<longrightarrow> s = Watch i k a))"
proof -
  obtain p' i where st: "stop_tid (ttd_target ca arrived) p = (p', i)" by (rule prod.exhaust)
  have nz: "i \<noteq> 0" using stop_tid_nonzero [of "ttd_target ca arrived" p] st by simp
  have cur: "\<forall>j. current_thread_id p = Some j \<and> j \<noteq> 0 \<longrightarrow> i = j \<and> p' = p"
    using st by (auto simp: stop_tid_def to_wire_tid_def)
  have none: "current_thread_id p = None \<longrightarrow> p' = fst (tp_active_thread_ids ca p)
      \<and> (if snd (tp_active_thread_ids ca p) = [] then i = 1 else i = hd (snd (tp_active_thread_ids ca p)))"
    using stop_tid_unselected [of p ca arrived] st by auto
  have kind: "watch_kind_from_access y = (if mask_contains y ACCESS_READ \<and> mask_contains y ACCESS_WRITE then WatchReadWrite
      else if mask_contains y ACCESS_READ then WatchRead else WatchWrite)" for y
    by (simp add: watch_kind_from_access_def)
  show ?thesis
  proof (cases r)
    case (Inl e)
    show ?thesis
      unfolding map_stop_reason_def st Let_def Inl prod.case sum.case
      by (intro exI [of _ i] conjI nz cur none) simp_all
  next
    case (Inr x)
    have thread: "stop_thread (stop_reply i x) = Some i" by (cases x) simp_all
    show ?thesis
      unfolding map_stop_reason_def st Let_def Inr prod.case sum.case
      by (intro exI [of _ i] conjI thread nz cur none; cases x; simp add: signal_for_exception_def flip: kind)
        (auto simp: watch_kind_masks)
  qed
qed

theorem stop_reply_faithful_witness:
  "map_stop_reason (ttd_target sim_api (\<lambda>_. 0)) (Inr (Watchpoint 1 0x2000 ACCESS_READ_WRITE)) sim_process
     = (sim_process, Watch 7 WatchReadWrite 0x2000)
   \<and> snd (map_stop_reason (ttd_target sim_api (\<lambda>_. 0)) (Inr (Exception 0xC0000005 0)) (sim_process\<lparr>current_thread_id := None\<rparr>))
     = SignalWithThread 7 SIGSEGV"
proof
  have "current_thread_id sim_process = Some 7" by (simp add: sim_process_def Let_def)
  with stop_reply_faithful [where r = "Inr (Watchpoint 1 0x2000 ACCESS_READ_WRITE)" and p = sim_process and ca = sim_api and arrived = "\<lambda>_. 0"]
  show "map_stop_reason (ttd_target sim_api (\<lambda>_. 0)) (Inr (Watchpoint 1 0x2000 ACCESS_READ_WRITE)) sim_process
     = (sim_process, Watch 7 WatchReadWrite 0x2000)"
    by (auto simp: mask_contains_def access_defs split: prod.splits)
next
  let ?p = "sim_process\<lparr>current_thread_id := None\<rparr>"
  have "snd (tp_active_thread_ids sim_api ?p) = [7]" by code_simp
  then show "snd (map_stop_reason (ttd_target sim_api (\<lambda>_. 0)) (Inr (Exception 0xC0000005 0)) ?p) = SignalWithThread 7 SIGSEGV"
    using stop_reply_faithful [where r = "Inr (Exception 0xC0000005 0)" and p = ?p and ca = sim_api and arrived = "\<lambda>_. 0"]
    by (auto split: prod.splits)
qed

end
