(* ===== verification/Registers.thy ===== *)
theory Registers
  imports Ttd_Types
begin

text \<open>
  The register file GDB sees (\<open>gdb/regs.rs\<close>). \<open>X86_64CoreRegs\<close> and its register ids are records of
  the stub library; their serialiser and its numbering are parameters. The single-register read is
  shown to deliver exactly the bytes of the trace's own register context.
\<close>

section \<open>Data\<close>

datatype segment_id = CS | SS | DS | ES | FS | GS

datatype fpu_id = Fctrl | Fstat | Ftag | Fiseg | Fioff | Foseg | Fooff | Fop

text \<open>The variants of the library's non-exhaustive id type that this program names, and any other.\<close>

datatype core_reg_id = Gpr u8 | RegRip | RegEflags | Segment segment_id | St u8 | Fpu fpu_id | Xmm u8 | RegMxcsr | OtherReg

datatype ttd_reg_id = Core core_reg_id | FsBase | GsBase

record segment_regs =
  seg_cs :: u32
  seg_ss :: u32
  seg_ds :: u32
  seg_es :: u32
  seg_fs :: u32
  seg_gs :: u32

record fpu_regs =
  fctrl :: u32
  fstat :: u32
  ftag :: u32
  fiseg :: u32
  fioff :: u32
  foseg :: u32
  fooff :: u32
  fop :: u32

record core_regs =
  gprs :: "u64 list"
  eflags :: u32
  rip :: u64
  segments :: segment_regs
  st :: "u8 list list"
  fpu :: fpu_regs
  xmm :: "u128 list"
  mxcsr :: u32

record ttd_registers =
  core :: core_regs
  fs_base :: u64
  gs_base :: u64

definition CORE_SERIALIZED_SIZE :: nat where "CORE_SERIALIZED_SIZE = 536"
definition SEGMENT_BASE_SIZE :: nat where "SEGMENT_BASE_SIZE = 8"
definition G_BUFFER_SIZE :: nat where "G_BUFFER_SIZE = CORE_SERIALIZED_SIZE + 2 * SEGMENT_BASE_SIZE"
definition ST_REGISTER_SIZE :: nat where "ST_REGISTER_SIZE = 10"
definition XMM_REGISTER_SIZE :: nat where "XMM_REGISTER_SIZE = 16"
definition ST_REGISTER_COUNT :: nat where "ST_REGISTER_COUNT = 8"
definition XMM_REGISTER_COUNT :: nat where "XMM_REGISTER_COUNT = 16"

lemmas reg_sizes = CORE_SERIALIZED_SIZE_def SEGMENT_BASE_SIZE_def G_BUFFER_SIZE_def ST_REGISTER_SIZE_def
  XMM_REGISTER_SIZE_def ST_REGISTER_COUNT_def XMM_REGISTER_COUNT_def

section \<open>Target descriptions\<close>

text \<open>The four embedded files are parameters: \<open>xml_files\<close> gives the bytes of each.\<close>

definition target_xml :: "(string \<Rightarrow> u8 list) \<Rightarrow> string \<Rightarrow> (string, u8 list) result" where
  "target_xml xml_files annex =
     (if annex = [] \<or> annex = ''target.xml'' then Inr (xml_files ''target.xml'')
      else if annex \<in> {''64bit-core.xml'', ''64bit-sse.xml'', ''64bit-seg.xml''} then Inr (xml_files annex)
      else Inl annex)"

section \<open>Building the register file\<close>

text \<open>
  The \<open>zip\<close> of a fixed array of slots with the trace's registers: a slot without a register keeps its
  initial value.
\<close>

definition fill_slots :: "nat \<Rightarrow> 'b \<Rightarrow> ('a \<Rightarrow> 'b) \<Rightarrow> 'a list \<Rightarrow> 'b list" where
  "fill_slots n d f xs = map f (take n xs) @ replicate (n - length xs) d"

definition st_bytes :: "m128 \<Rightarrow> u8 list" where
  "st_bytes m = to_le_bytes (Low m) @ take 2 (to_le_bytes (High m))"

definition xmm_bytes :: "m128 \<Rightarrow> u8 list" where
  "xmm_bytes m = to_le_bytes (Low m) @ to_le_bytes (High m)"

definition from_ttd :: "x64_regs \<Rightarrow> u64 \<Rightarrow> ttd_registers" where
  "from_ttd r teb =
     (let flt = FltSave r in
      \<lparr>core = \<lparr>
         gprs = [Rax r, Rbx r, Rcx r, Rdx r, Rsi r, Rdi r, Rbp r, Rsp r,
                 R8 r, R9 r, R10 r, R11 r, R12 r, R13 r, R14 r, R15 r],
         eflags = EFlags r,
         rip = Rip r,
         segments = \<lparr>seg_cs = ucast (SegCs r), seg_ss = ucast (SegSs r), seg_ds = ucast (SegDs r),
                     seg_es = ucast (SegEs r), seg_fs = ucast (SegFs r), seg_gs = ucast (SegGs r)\<rparr>,
         st = fill_slots ST_REGISTER_COUNT (replicate ST_REGISTER_SIZE 0) st_bytes (FloatRegisters flt),
         fpu = \<lparr>fctrl = ucast (ControlWord flt), fstat = ucast (StatusWord flt), ftag = ucast (TagWord flt),
                fiseg = ucast (ErrorSelector flt), fioff = ErrorOffset flt, foseg = ucast (DataSelector flt),
                fooff = DataOffset flt, fop = ucast (ErrorOpcode flt)\<rparr>,
         xmm = fill_slots XMM_REGISTER_COUNT 0 (\<lambda>m. word_of_nat (le_value (xmm_bytes m))) (XmmRegisters flt),
         mxcsr = MxCsr flt\<rparr>,
       fs_base = 0,
       gs_base = teb\<rparr>)"

definition pc :: "ttd_registers \<Rightarrow> u64" where
  "pc r = rip (core r)"

text \<open>The library's core serialiser writes bytes, or gaps for registers it lacks.\<close>

definition gdb_serialize :: "(core_regs \<Rightarrow> u8 option list) \<Rightarrow> ttd_registers \<Rightarrow> u8 option list" where
  "gdb_serialize core_serialize r =
     core_serialize (core r) @ map Some (to_le_bytes (fs_base r)) @ map Some (to_le_bytes (gs_base r))"

definition gdb_deserialize ::
  "(core_regs \<Rightarrow> u8 list \<Rightarrow> core_regs option) \<Rightarrow> u8 list \<Rightarrow> ttd_registers \<Rightarrow> ttd_registers option" where
  "gdb_deserialize core_deserialize bytes r =
     (if length bytes < G_BUFFER_SIZE then None
      else case core_deserialize (core r) (take CORE_SERIALIZED_SIZE bytes) of
             None \<Rightarrow> None
           | Some c \<Rightarrow>
               let base = CORE_SERIALIZED_SIZE in
               Some \<lparr>core = c,
                     fs_base = word_of_nat (le_value (take SEGMENT_BASE_SIZE (drop base bytes))),
                     gs_base = word_of_nat (le_value (take SEGMENT_BASE_SIZE (drop (base + SEGMENT_BASE_SIZE) bytes)))\<rparr>)"

section \<open>Register ids\<close>

fun seg_regnum :: "segment_id \<Rightarrow> nat" where
  "seg_regnum CS = 0" | "seg_regnum SS = 1" | "seg_regnum DS = 2"
| "seg_regnum ES = 3" | "seg_regnum FS = 4" | "seg_regnum GS = 5"

fun fpu_regnum :: "fpu_id \<Rightarrow> nat" where
  "fpu_regnum Fctrl = 0" | "fpu_regnum Fstat = 1" | "fpu_regnum Ftag = 2" | "fpu_regnum Fiseg = 3"
| "fpu_regnum Fioff = 4" | "fpu_regnum Foseg = 5" | "fpu_regnum Fooff = 6" | "fpu_regnum Fop = 7"

definition from_raw_id ::
  "(nat \<Rightarrow> (core_reg_id \<times> nat option) option) \<Rightarrow> nat \<Rightarrow> (ttd_reg_id \<times> nat option) option" where
  "from_raw_id core_from_raw_id i =
     (if i < 57 then map_option (\<lambda>(reg, sz). (Core reg, sz)) (core_from_raw_id i)
      else if i = 57 then Some (FsBase, Some 8)
      else if i = 58 then Some (GsBase, Some 8)
      else None)"

fun to_raw_id :: "ttd_reg_id \<Rightarrow> nat option" where
  "to_raw_id (Core (Gpr i)) = Some (unat i)"
| "to_raw_id (Core RegRip) = Some 16"
| "to_raw_id (Core RegEflags) = Some 17"
| "to_raw_id (Core (Segment s)) = Some (18 + seg_regnum s)"
| "to_raw_id (Core (St i)) = Some (24 + unat i)"
| "to_raw_id (Core (Fpu f)) = Some (32 + fpu_regnum f)"
| "to_raw_id (Core (Xmm i)) = Some (40 + unat i)"
| "to_raw_id (Core RegMxcsr) = Some 56"
| "to_raw_id (Core OtherReg) = None"
| "to_raw_id FsBase = Some 57"
| "to_raw_id GsBase = Some 58"

section \<open>Reading one register\<close>

fun segment_value :: "segment_id \<Rightarrow> segment_regs \<Rightarrow> u32" where
  "segment_value CS s = seg_cs s" | "segment_value SS s = seg_ss s" | "segment_value DS s = seg_ds s"
| "segment_value ES s = seg_es s" | "segment_value FS s = seg_fs s" | "segment_value GS s = seg_gs s"

fun fpu_value :: "fpu_id \<Rightarrow> fpu_regs \<Rightarrow> u32" where
  "fpu_value Fctrl f = fctrl f" | "fpu_value Fstat f = fstat f" | "fpu_value Ftag f = ftag f"
| "fpu_value Fiseg f = fiseg f" | "fpu_value Fioff f = fioff f" | "fpu_value Foseg f = foseg f"
| "fpu_value Fooff f = fooff f" | "fpu_value Fop f = fop f"

text \<open>The bytes of a register at its width; an index outside the file panics in the source.\<close>

datatype register_read = RegBytes "u8 list" | RegUnknown | RegPanic

definition at_index :: "'a list \<Rightarrow> u8 \<Rightarrow> ('a \<Rightarrow> u8 list) \<Rightarrow> register_read" where
  "at_index xs i f = (if unat i < length xs then RegBytes (f (xs ! unat i)) else RegPanic)"

fun register_value :: "ttd_reg_id \<Rightarrow> ttd_registers \<Rightarrow> register_read" where
  "register_value (Core (Gpr i)) r = at_index (gprs (core r)) i to_le_bytes"
| "register_value (Core RegRip) r = RegBytes (to_le_bytes (rip (core r)))"
| "register_value (Core RegEflags) r = RegBytes (take 4 (to_le_bytes (ucast (eflags (core r)) :: u64)))"
| "register_value (Core (Segment s)) r = RegBytes (take 4 (to_le_bytes (ucast (segment_value s (segments (core r))) :: u64)))"
| "register_value (Core (St i)) r = at_index (st (core r)) i id"
| "register_value (Core (Fpu f)) r = RegBytes (take 4 (to_le_bytes (ucast (fpu_value f (fpu (core r))) :: u64)))"
| "register_value (Core (Xmm i)) r = at_index (xmm (core r)) i to_le_bytes"
| "register_value (Core RegMxcsr) r = RegBytes (take 4 (to_le_bytes (ucast (mxcsr (core r)) :: u64)))"
| "register_value FsBase r = RegBytes (to_le_bytes (fs_base r))"
| "register_value GsBase r = RegBytes (to_le_bytes (gs_base r))"
| "register_value (Core OtherReg) r = RegUnknown"

text \<open>The buffer after the call and the bytes written; \<open>None\<close> for an unknown register.\<close>

datatype 'a reg_result = RegOk 'a | RegNone | RegPanics

definition read_register_value ::
  "ttd_reg_id \<Rightarrow> ttd_registers \<Rightarrow> u8 list \<Rightarrow> (u8 list \<times> nat) reg_result" where
  "read_register_value reg_id r buf =
     (case register_value reg_id r of
        RegBytes bytes \<Rightarrow> RegOk (copy_into buf bytes)
      | RegUnknown \<Rightarrow> RegNone
      | RegPanic \<Rightarrow> RegPanics)"

section \<open>Lemmas\<close>

lemma take_le_bytes: "m \<le> n \<Longrightarrow> take m (le_bytes n x) = le_bytes m x"
proof (induction n arbitrary: m x)
  case (Suc n)
  then show ?case by (cases m) simp_all
qed simp

lemma le_bytes_zero: "le_bytes n 0 = replicate n 0"
  by (induction n) simp_all

lemma le_bytes_extend: "x < 256 ^ m \<Longrightarrow> le_bytes (m + k) x = le_bytes m x @ replicate k 0"
proof (induction m arbitrary: x)
  case 0
  then show ?case by (simp add: le_bytes_zero)
next
  case (Suc m)
  then have "x div 256 < 256 ^ m" by (simp add: less_mult_imp_div_less mult.commute)
  with Suc.IH show ?case by simp
qed

lemma unat_ucast_up: "LENGTH('a) \<le> LENGTH('b) \<Longrightarrow> unat (ucast (x :: 'a::len word) :: 'b::len word) = unat x"
  by (metis narrow_Some narrow_ucast)

lemma widened_bytes:
  "take 4 (to_le_bytes (ucast (x :: u32) :: u64)) = to_le_bytes x"
  "to_le_bytes (ucast (y :: u16) :: u32) = to_le_bytes y @ [0, 0]"
  "to_le_bytes (ucast (z :: u8) :: u32) = to_le_bytes z @ [0, 0, 0]"
proof -
  show "take 4 (to_le_bytes (ucast x :: u64)) = to_le_bytes x"
    by (simp add: to_le_bytes_def take_le_bytes unat_ucast_up)
  have "unat y < 256 ^ 2" "unat z < 256 ^ 1" using unsigned_less [of y] unsigned_less [of z] by simp_all
  note ext = le_bytes_extend [OF this(1), of 2] le_bytes_extend [OF this(2), of 3]
  have reps: "replicate 2 (0 :: u8) = [0, 0]" "replicate 3 (0 :: u8) = [0, 0, 0]"
    by (simp_all add: numeral_eq_Suc)
  have "le_bytes 4 (unat y) = le_bytes 2 (unat y) @ [0, 0]" "le_bytes 4 (unat z) = le_bytes 1 (unat z) @ [0, 0, 0]"
    using ext unfolding reps by simp_all
  then show "to_le_bytes (ucast y :: u32) = to_le_bytes y @ [0, 0]"
    "to_le_bytes (ucast z :: u32) = to_le_bytes z @ [0, 0, 0]"
    by (simp_all add: to_le_bytes_def unat_ucast_up)
qed

lemma xmm_value_bytes: "to_le_bytes (word_of_nat (le_value (xmm_bytes m)) :: u128) = xmm_bytes m"
proof -
  have len: "length (xmm_bytes m) = 16" by (simp add: xmm_bytes_def)
  have "unat (word_of_nat (le_value (xmm_bytes m)) :: u128) = le_value (xmm_bytes m)"
    using le_value_bound [of "xmm_bytes m"] len by (simp add: unsigned_of_nat take_bit_nat_eq_self)
  then show ?thesis using le_bytes_le_value [of "xmm_bytes m"] len by (simp add: to_le_bytes_def)
qed

text \<open>The bytes a register has in the trace's own context, without GDB's register file in between.\<close>

fun trace_fpu :: "fpu_id \<Rightarrow> xmm_save_area \<Rightarrow> u8 list" where
  "trace_fpu Fctrl f = to_le_bytes (ControlWord f) @ [0, 0]"
| "trace_fpu Fstat f = to_le_bytes (StatusWord f) @ [0, 0]"
| "trace_fpu Ftag f = to_le_bytes (TagWord f) @ [0, 0, 0]"
| "trace_fpu Fiseg f = to_le_bytes (ErrorSelector f) @ [0, 0]"
| "trace_fpu Fioff f = to_le_bytes (ErrorOffset f)"
| "trace_fpu Foseg f = to_le_bytes (DataSelector f) @ [0, 0]"
| "trace_fpu Fooff f = to_le_bytes (DataOffset f)"
| "trace_fpu Fop f = to_le_bytes (ErrorOpcode f) @ [0, 0]"

fun trace_segment :: "segment_id \<Rightarrow> x64_regs \<Rightarrow> u16" where
  "trace_segment CS r = SegCs r" | "trace_segment SS r = SegSs r" | "trace_segment DS r = SegDs r"
| "trace_segment ES r = SegEs r" | "trace_segment FS r = SegFs r" | "trace_segment GS r = SegGs r"

fun trace_register :: "ttd_reg_id \<Rightarrow> x64_regs \<Rightarrow> u64 \<Rightarrow> u8 list option" where
  "trace_register (Core (Gpr i)) r teb =
     (if i < 16 then Some (to_le_bytes
        ([Rax r, Rbx r, Rcx r, Rdx r, Rsi r, Rdi r, Rbp r, Rsp r, R8 r, R9 r, R10 r, R11 r, R12 r, R13 r, R14 r, R15 r] ! unat i))
      else None)"
| "trace_register (Core RegRip) r teb = Some (to_le_bytes (Rip r))"
| "trace_register (Core RegEflags) r teb = Some (to_le_bytes (EFlags r))"
| "trace_register (Core (Segment s)) r teb = Some (to_le_bytes (trace_segment s r) @ [0, 0])"
| "trace_register (Core (St i)) r teb = (if i < 8 then Some (st_bytes (FloatRegisters (FltSave r) ! unat i)) else None)"
| "trace_register (Core (Fpu f)) r teb = Some (trace_fpu f (FltSave r))"
| "trace_register (Core (Xmm i)) r teb = (if i < 16 then Some (xmm_bytes (XmmRegisters (FltSave r) ! unat i)) else None)"
| "trace_register (Core RegMxcsr) r teb = Some (to_le_bytes (MxCsr (FltSave r)))"
| "trace_register (Core OtherReg) r teb = None"
| "trace_register FsBase r teb = Some (replicate 8 0)"
| "trace_register GsBase r teb = Some (to_le_bytes teb)"

lemma fill_slots_full: "length xs = n \<Longrightarrow> fill_slots n d f xs = map f xs"
  by (simp add: fill_slots_def)

lemma register_value_trace:
  assumes "wf_save_area (FltSave r)" and "trace_register reg r teb = Some bs"
  shows "register_value reg (from_ttd r teb) = RegBytes bs"
proof (cases reg)
  case (Core c)
  have len: "length (FloatRegisters (FltSave r)) = 8" "length (XmmRegisters (FltSave r)) = 16"
    using assms(1) by (simp_all add: wf_save_area_def)
  show ?thesis
  proof (cases c)
    case (Segment s)
    with Core assms(2) show ?thesis by (cases s) (auto simp: from_ttd_def Let_def widened_bytes)
  next
    case (Fpu f)
    with Core assms(2) show ?thesis by (cases f) (auto simp: from_ttd_def Let_def widened_bytes)
  qed (use Core assms(2) len in \<open>auto simp: from_ttd_def Let_def widened_bytes at_index_def word_less_nat_alt
      fill_slots_full xmm_value_bytes ST_REGISTER_COUNT_def XMM_REGISTER_COUNT_def split: if_splits\<close>)
next
  case FsBase
  with assms(2) show ?thesis by (auto simp: from_ttd_def Let_def to_le_bytes_def le_bytes_zero)
next
  case GsBase
  with assms(2) show ?thesis by (auto simp: from_ttd_def Let_def)
qed

text \<open>
  C31. A \<open>p\<close> packet delivers the trace's register: for every general, segment, x87, SSE or base register
  and every buffer, the read returns the register's width capped at the buffer, the written bytes are
  the little-endian bytes of the value in the trace's context (16-bit fields widened with zeros, the two
  halves of an x87 or SSE register in order, \<open>gs_base\<close> the TEB), and the rest of the buffer is untouched.
\<close>

theorem register_read_exact:
  assumes "wf_save_area (FltSave r)" and "trace_register reg r teb = Some bs"
  shows "read_register_value reg (from_ttd r teb) buf =
    (let n = min (length buf) (length bs) in RegOk (take n bs @ drop n buf, n))"
  using register_value_trace [OF assms] by (simp add: read_register_value_def copy_into_def Let_def)

theorem register_read_exact_witness:
  "read_register_value (Core (Xmm 3)) (from_ttd (default_regs\<lparr>FltSave := default_save_area\<lparr>XmmRegisters := replicate 16 (M128 0x0201 0x0403)\<rparr>\<rparr>) 0x9000)
     (replicate 10 0xAA) = RegOk ([1, 2, 0, 0, 0, 0, 0, 0, 3, 4], 10)"
proof -
  let ?r = "default_regs\<lparr>FltSave := default_save_area\<lparr>XmmRegisters := replicate 16 (M128 0x0201 0x0403)\<rparr>\<rparr>"
  have wf: "wf_save_area (FltSave ?r)"
    by (simp add: wf_save_area_def default_regs_def default_save_area_def)
  have "XmmRegisters (FltSave ?r) ! unat (3 :: u8) = M128 0x0201 0x0403"
    by (simp add: default_regs_def default_save_area_def)
  moreover have "xmm_bytes (M128 0x0201 0x0403) = [1, 2, 0, 0, 0, 0, 0, 0, 3, 4, 0, 0, 0, 0, 0, 0]"
    by code_simp
  ultimately have "trace_register (Core (Xmm 3)) ?r 0x9000 = Some [1, 2, 0, 0, 0, 0, 0, 0, 3, 4, 0, 0, 0, 0, 0, 0]"
    by simp
  from register_read_exact [OF wf this, of "replicate 10 0xAA"] show ?thesis by (simp add: Let_def)
qed

section \<open>Numbering\<close>

text \<open>The ids the register file has: the indices of its arrays in range.\<close>

fun reg_in_file :: "ttd_reg_id \<Rightarrow> bool" where
  "reg_in_file (Core (Gpr i)) = (i < 16)"
| "reg_in_file (Core (St i)) = (i < 8)"
| "reg_in_file (Core (Xmm i)) = (i < 16)"
| "reg_in_file (Core OtherReg) = False"
| "reg_in_file _ = True"

lemma trace_register_in_file: "trace_register reg r teb \<noteq> None \<longleftrightarrow> reg_in_file reg"
  by (cases reg rule: reg_in_file.cases) simp_all

text \<open>The width of a register on the wire, and the shape of the register file: the sizes of its three arrays.\<close>

fun reg_width :: "ttd_reg_id \<Rightarrow> nat" where
  "reg_width (Core (Gpr _)) = 8"
| "reg_width (Core RegRip) = 8"
| "reg_width (Core (St _)) = ST_REGISTER_SIZE"
| "reg_width (Core (Xmm _)) = XMM_REGISTER_SIZE"
| "reg_width (Core _) = 4"
| "reg_width FsBase = SEGMENT_BASE_SIZE"
| "reg_width GsBase = SEGMENT_BASE_SIZE"

definition wf_registers :: "ttd_registers \<Rightarrow> bool" where
  "wf_registers r \<longleftrightarrow> length (gprs (core r)) = 16 \<and> length (st (core r)) = ST_REGISTER_COUNT
     \<and> (\<forall>b \<in> set (st (core r)). length b = ST_REGISTER_SIZE) \<and> length (xmm (core r)) = XMM_REGISTER_COUNT"

lemma length_fill_slots: "length (fill_slots n d f xs) = n"
  by (simp add: fill_slots_def)

lemma set_fill_slots: "set (fill_slots n d f xs) \<subseteq> insert d (range f)"
  by (auto simp: fill_slots_def)

lemma from_ttd_wf: "wf_registers (from_ttd r teb)"
  using set_fill_slots [of ST_REGISTER_COUNT "replicate ST_REGISTER_SIZE 0" st_bytes]
  by (fastforce simp: wf_registers_def from_ttd_def Let_def length_fill_slots st_bytes_def ST_REGISTER_SIZE_def)

lemma register_value_typed:
  assumes "wf_registers r"
  shows "case register_value reg r of
      RegBytes bs \<Rightarrow> reg_in_file reg \<and> length bs = reg_width reg
    | RegUnknown \<Rightarrow> reg = Core OtherReg
    | RegPanic \<Rightarrow> \<not> reg_in_file reg \<and> reg \<noteq> Core OtherReg"
  using assms
  by (cases "(reg, r)" rule: register_value.cases)
    (auto simp: at_index_def wf_registers_def word_less_nat_alt reg_sizes)

text \<open>
  A read of any id into any buffer is typed by the file: only an id the program does not name is reported
  unknown, and only an index outside the arrays panics.
\<close>

lemma register_file_typed:
  "wf_registers (from_ttd r teb) \<and>
   (case read_register_value reg (from_ttd r teb) buf of
      RegOk (buf', n) \<Rightarrow> reg_in_file reg \<and> length buf' = length buf \<and> n = min (length buf) (reg_width reg)
    | RegNone \<Rightarrow> reg = Core OtherReg
    | RegPanics \<Rightarrow> \<not> reg_in_file reg \<and> reg \<noteq> Core OtherReg)"
  using from_ttd_wf [of r teb] register_value_typed [OF from_ttd_wf, of reg r teb]
  by (auto simp: read_register_value_def copy_into_def Let_def split: register_read.splits)

text \<open>The register a number stands for.\<close>

definition reg_numbered :: "nat \<Rightarrow> ttd_reg_id" where
  "reg_numbered n =
     (if n < 16 then Core (Gpr (word_of_nat n)) else if n = 16 then Core RegRip else if n = 17 then Core RegEflags
      else if n < 24 then Core (Segment ([CS, SS, DS, ES, FS, GS] ! (n - 18)))
      else if n < 32 then Core (St (word_of_nat (n - 24)))
      else if n < 40 then Core (Fpu ([Fctrl, Fstat, Ftag, Fiseg, Fioff, Foseg, Fooff, Fop] ! (n - 32)))
      else if n < 56 then Core (Xmm (word_of_nat (n - 40)))
      else if n = 56 then Core RegMxcsr else if n = 57 then FsBase else GsBase)"

lemma reg_numbered_inverse:
  "reg_in_file reg \<Longrightarrow> \<exists>i. to_raw_id reg = Some i \<and> i < 59 \<and> reg_numbered i = reg"
proof (cases reg)
  case (Core c)
  assume "reg_in_file reg"
  with Core show ?thesis
  proof (cases c)
    case (Segment s)
    with Core show ?thesis by (cases s) (simp_all add: reg_numbered_def)
  next
    case (Fpu f)
    with Core show ?thesis by (cases f) (simp_all add: reg_numbered_def)
  qed (simp_all add: reg_numbered_def word_less_nat_alt)
qed (simp_all add: reg_numbered_def)

text \<open>
  The register numbers the stub advertises are unambiguous: every register of the file has a number
  below 59, and no two registers share one.
\<close>

theorem register_numbers_injective:
  assumes "reg_in_file a" and "reg_in_file b"
  shows "\<exists>i j. to_raw_id a = Some i \<and> to_raw_id b = Some j \<and> i < 59 \<and> j < 59 \<and> (i = j \<longleftrightarrow> a = b)"
proof -
  obtain i where i: "to_raw_id a = Some i" "i < 59" "reg_numbered i = a"
    using reg_numbered_inverse [OF assms(1)] by blast
  obtain j where j: "to_raw_id b = Some j" "j < 59" "reg_numbered j = b"
    using reg_numbered_inverse [OF assms(2)] by blast
  from i j have "i = j \<longleftrightarrow> a = b" by (metis option.inject)
  with i j show ?thesis by blast
qed

theorem register_numbers_injective_witness:
  "\<exists>i j. to_raw_id (Core (Xmm 15)) = Some i \<and> to_raw_id (Core RegMxcsr) = Some j \<and> i < 59 \<and> j < 59
     \<and> (i = j \<longleftrightarrow> Core (Xmm 15) = Core RegMxcsr)"
  by (rule register_numbers_injective) simp_all

section \<open>The \<open>g\<close> buffer\<close>

lemma gdb_round_trip:
  assumes "core_serialize (core r) = map Some bytes" and "length bytes = CORE_SERIALIZED_SIZE"
    and "core_deserialize (core r0) bytes = Some (core r)"
  shows "\<exists>buf. gdb_serialize core_serialize r = map Some buf \<and> length buf = G_BUFFER_SIZE
    \<and> gdb_deserialize core_deserialize buf r0 = Some r"
proof -
  let ?buf = "bytes @ to_le_bytes (fs_base r) @ to_le_bytes (gs_base r)"
  have "word_of_nat (le_value (to_le_bytes (x :: u64))) = x" for x
    using le64.decode_encode [of x] by (simp add: from_le_bytes_def)
  then have "gdb_deserialize core_deserialize ?buf r0 = Some r"
    using assms(2,3) by (simp add: gdb_deserialize_def G_BUFFER_SIZE_def SEGMENT_BASE_SIZE_def)
  with assms(1,2) show ?thesis
    by (intro exI [of _ ?buf]) (simp add: gdb_serialize_def G_BUFFER_SIZE_def SEGMENT_BASE_SIZE_def)
qed

lemma gdb_deserialize_short: "length bytes < G_BUFFER_SIZE \<Longrightarrow> gdb_deserialize core_deserialize bytes r = None"
  by (simp add: gdb_deserialize_def)

end
