(* ===== verification/Callbacks.thy ===== *)
theory Callbacks
  imports Prelude
begin

text \<open>
  The two thread hand-offs around a blocking engine call. \<open>ttd/callback.rs\<close>: a panicking callback is
  caught in its shim, the payload is stashed in a thread-local slot, and the guard of the enclosing
  call re-throws it once the foreign frames are gone. \<open>ttd/interrupt.rs\<close>: the replaying thread
  publishes its cursor's address for the duration of the call, so that another thread can interrupt
  it; the hand-off is a step relation over the two threads' atomic operations.
\<close>

section \<open>Panic escalation\<close>

text \<open>What \<open>catch_unwind\<close> sees of a closure: a value, or the payload of a panic.\<close>

datatype ('p, 'a) caught = Returned 'a | Panicked 'p

type_synonym 'p stash = "'p option"

definition call_guarded :: "('p, 'r) caught \<Rightarrow> 'r \<Rightarrow> 'p stash \<Rightarrow> 'r \<times> 'p stash" where
  "call_guarded f on_panic slot =
     (case f of
        Returned r \<Rightarrow> (r, slot)
      | Panicked payload \<Rightarrow> (on_panic, case slot of Some pending \<Rightarrow> Some pending | None \<Rightarrow> Some payload))"

definition callback_panic_guard :: "'p stash \<Rightarrow> 'p stash" where
  "callback_panic_guard slot = None"

definition guard_drop :: "'p stash \<Rightarrow> ('p, unit) caught \<times> 'p stash" where
  "guard_drop slot = (case slot of Some payload \<Rightarrow> (Panicked payload, None) | None \<Rightarrow> (Returned (), None))"

text \<open>One guarded engine call: the callbacks it makes, in order, each through its shim.\<close>

fun run_shims :: "'r \<Rightarrow> ('p, 'r) caught list \<Rightarrow> 'p stash \<Rightarrow> 'r list \<times> 'p stash" where
  "run_shims on_panic [] slot = ([], slot)"
| "run_shims on_panic (f # fs) slot =
     (let (r, slot1) = call_guarded f on_panic slot; (rs, slot2) = run_shims on_panic fs slot1
      in (r # rs, slot2))"

definition guarded_call :: "'r \<Rightarrow> ('p, 'r) caught list \<Rightarrow> 'p stash \<Rightarrow> 'r list \<times> ('p, unit) caught \<times> 'p stash" where
  "guarded_call on_panic fs slot =
     (let (rs, slot1) = run_shims on_panic fs (callback_panic_guard slot); (u, slot2) = guard_drop slot1
      in (rs, u, slot2))"

fun panic_of :: "('p, 'r) caught \<Rightarrow> 'p option" where
  "panic_of (Returned r) = None"
| "panic_of (Panicked p) = Some p"

fun answer_of :: "'r \<Rightarrow> ('p, 'r) caught \<Rightarrow> 'r" where
  "answer_of d (Returned r) = r"
| "answer_of d (Panicked p) = d"

lemma run_shims_spec:
  "run_shims d fs slot =
     (map (answer_of d) fs,
      case slot of Some p \<Rightarrow> Some p
      | None \<Rightarrow> (case List.map_filter panic_of fs of [] \<Rightarrow> None | p # ps \<Rightarrow> Some p))"
proof (induction fs arbitrary: slot)
  case (Cons f fs)
  then show ?case
    by (cases f; cases slot) (simp_all add: call_guarded_def List.map_filter_simps)
qed (simp add: List.map_filter_simps split: option.splits)

text \<open>
  C37. A guarded engine call returns to each callback's caller the callback's own answer, or the
  fallback when it panicked; it re-throws the payload of the first callback that panicked and
  nothing else, whatever stale payload it found on entry; and it leaves the slot empty.
\<close>

theorem guarded_call_rethrows_first:
  "guarded_call d fs slot =
     (map (answer_of d) fs,
      (case List.map_filter panic_of fs of [] \<Rightarrow> Returned () | p # ps \<Rightarrow> Panicked p),
      None)"
  by (cases "List.map_filter panic_of fs")
    (simp_all add: guarded_call_def callback_panic_guard_def run_shims_spec guard_drop_def)

section \<open>The interrupt slot\<close>

text \<open>
  Cursor addresses are non-zero numbers; zero means that no replay is in flight. \<open>live\<close> is the set of
  cursors that exist and \<open>poked\<close> records which cursors were interrupted, each with whether it was alive.
  The protocol thread owns the debug process; \<open>todo\<close> is what it still has to run, in program order.
  \<open>publishing\<close> is the cursor the guard of a replay on the worker thread borrows, and \<open>loaded\<close> the handle
  each thread has read inside \<open>interrupt\<close> and not yet used.
\<close>

datatype firer = Owner | Other

datatype owner_action = Load | Poke | Clear | Free nat

record interrupt_world =
  handle :: nat
  live :: "nat set"
  publishing :: "nat option"
  loaded :: "firer \<Rightarrow> nat option"
  todo :: "owner_action list"
  poked :: "(nat \<times> bool) list"

definition slot_publish :: "nat \<Rightarrow> interrupt_world \<Rightarrow> interrupt_world" where
  "slot_publish cursor w = w\<lparr>handle := cursor, publishing := Some cursor\<rparr>"

definition slot_clear :: "interrupt_world \<Rightarrow> interrupt_world" where
  "slot_clear w = w\<lparr>handle := 0\<rparr>"

text \<open>\<open>interrupt\<close> is a load followed, when the handle is not zero, by a call on the cursor it names.\<close>

definition interrupt_load :: "firer \<Rightarrow> interrupt_world \<Rightarrow> interrupt_world" where
  "interrupt_load t w = w\<lparr>loaded := (loaded w)(t := if handle w \<noteq> 0 then Some (handle w) else None)\<rparr>"

definition interrupt_raw :: "firer \<Rightarrow> interrupt_world \<Rightarrow> interrupt_world" where
  "interrupt_raw t w =
     (case loaded w t of
        None \<Rightarrow> w
      | Some h \<Rightarrow> w\<lparr>loaded := (loaded w)(t := None), poked := poked w @ [(h, h \<in> live w)]\<rparr>)"

text \<open>What the protocol thread calls, and the atomic actions each call runs through.\<close>

datatype owner_call = FireHandle | DropProcess nat

fun actions_of :: "owner_call \<Rightarrow> owner_action list" where
  "actions_of FireHandle = [Load, Poke]"
| "actions_of (DropProcess c) = [Clear, Free c]"

text \<open>
  The interleavings of the protocol thread, the replaying thread (publish, and the guard's drop) and, when
  \<open>others\<close> holds, any other thread that fires the handle. Rust's ownership says when a process can be used:
  publishing borrows an existing cursor, so it is not one whose process is being dropped, and dropping
  a process takes it from its one owner, so no guard borrows its cursor.
\<close>

inductive interrupt_step :: "bool \<Rightarrow> interrupt_world \<Rightarrow> interrupt_world \<Rightarrow> bool" for others where
  create: "c \<noteq> 0 \<Longrightarrow> interrupt_step others w (w\<lparr>live := insert c (live w)\<rparr>)"
| publish: "c \<in> live w \<Longrightarrow> c \<noteq> 0 \<Longrightarrow> publishing w = None \<Longrightarrow> \<forall>as. todo w \<noteq> Free c # as \<Longrightarrow>
    interrupt_step others w (slot_publish c w)"
| unpublish: "publishing w = Some c \<Longrightarrow> interrupt_step others w ((slot_clear w)\<lparr>publishing := None\<rparr>)"
| load: "todo w = Load # as \<Longrightarrow> interrupt_step others w ((interrupt_load Owner w)\<lparr>todo := as\<rparr>)"
| poke: "todo w = Poke # as \<Longrightarrow> interrupt_step others w ((interrupt_raw Owner w)\<lparr>todo := as\<rparr>)"
| clear: "todo w = Clear # as \<Longrightarrow> publishing w = None \<Longrightarrow> interrupt_step others w ((slot_clear w)\<lparr>todo := as\<rparr>)"
| free: "todo w = Free c # as \<Longrightarrow> interrupt_step others w (w\<lparr>live := live w - {c}, todo := as\<rparr>)"
| other_load: "others \<Longrightarrow> interrupt_step others w (interrupt_load Other w)"
| other_poke: "others \<Longrightarrow> interrupt_step others w (interrupt_raw Other w)"

definition idle_world :: "owner_call list \<Rightarrow> interrupt_world" where
  "idle_world calls = \<lparr>handle = 0, live = {}, publishing = None, loaded = (\<lambda>_. None),
     todo = concat (map actions_of calls), poked = []\<rparr>"

text \<open>Where the protocol thread can be: between two calls, inside an interrupt, or inside a drop.\<close>

inductive between_calls :: "owner_action list \<Rightarrow> bool" where
  "between_calls (concat (map actions_of calls))"

lemma between_calls_cases:
  assumes "between_calls as"
  obtains "as = []" | bs where "as = Load # Poke # bs" "between_calls bs" | c bs where "as = Clear # Free c # bs" "between_calls bs"
proof -
  from assms obtain calls where as: "as = concat (map actions_of calls)" by cases
  show ?thesis
  proof (cases calls)
    case (Cons x xs)
    with as that between_calls.intros [of xs] show ?thesis by (cases x) simp_all
  qed (use as that(1) in simp)
qed

definition protocol_at :: "interrupt_world \<Rightarrow> bool" where
  "protocol_at w \<longleftrightarrow> (between_calls (todo w) \<and> loaded w Owner = None)
     \<or> (\<exists>as. todo w = Poke # as \<and> between_calls as \<and> (\<forall>h. loaded w Owner = Some h \<longrightarrow> h \<in> live w))
     \<or> (\<exists>c as. todo w = Free c # as \<and> between_calls as \<and> loaded w Owner = None \<and> publishing w \<noteq> Some c)"

definition interrupts_safe :: "interrupt_world \<Rightarrow> bool" where
  "interrupts_safe w \<longleftrightarrow> (handle w \<noteq> 0 \<longrightarrow> publishing w = Some (handle w))
     \<and> (\<forall>c. publishing w = Some c \<longrightarrow> c \<in> live w) \<and> protocol_at w \<and> (\<forall>(h, alive) \<in> set (poked w). alive)"

lemma interrupt_step_safe: "interrupt_step False w w' \<Longrightarrow> interrupts_safe w \<Longrightarrow> interrupts_safe w'"
proof (induction rule: interrupt_step.induct)
  case (publish c w)
  then show ?case by (auto simp: interrupts_safe_def protocol_at_def slot_publish_def)
next
  case (load w as)
  then have "between_calls (Load # as)" by (auto simp: interrupts_safe_def protocol_at_def)
  then obtain bs where "as = Poke # bs" "between_calls bs" by (rule between_calls_cases) simp_all
  with load show ?case by (auto simp: interrupts_safe_def protocol_at_def interrupt_load_def)
next
  case (poke w as)
  then have "\<not> between_calls (Poke # as)" by (auto elim: between_calls_cases)
  with poke show ?case
    by (auto simp: interrupts_safe_def protocol_at_def interrupt_raw_def split: option.splits)
next
  case (clear w as)
  then have "between_calls (Clear # as)" and none: "loaded w Owner = None" by (auto simp: interrupts_safe_def protocol_at_def)
  then obtain c bs where "as = Free c # bs" "between_calls bs" by (auto elim: between_calls_cases)
  with clear none show ?case by (auto simp: interrupts_safe_def protocol_at_def slot_clear_def)
next
  case (free w c as)
  then have "\<not> between_calls (Free c # as)" by (auto elim: between_calls_cases)
  with free show ?case by (auto simp: interrupts_safe_def protocol_at_def)
qed (auto simp: interrupts_safe_def protocol_at_def slot_clear_def)

lemma idle_world_safe: "interrupts_safe (idle_world calls)"
  by (simp add: interrupts_safe_def idle_world_def protocol_at_def between_calls.intros)

text \<open>A drop that races with another thread's interrupt: the handle is loaded, then the process is dropped.\<close>

lemma drop_races: "\<exists>w. (interrupt_step True)\<^sup>*\<^sup>* (idle_world [DropProcess 8]) w \<and> (8, False) \<in> set (poked w)"
proof -
  let ?w0 = "idle_world [DropProcess 8]"
  let ?w1 = "?w0\<lparr>live := {8}\<rparr>" let ?w2 = "slot_publish 8 ?w1" let ?w3 = "interrupt_load Other ?w2"
  let ?w4 = "(slot_clear ?w3)\<lparr>publishing := None\<rparr>" let ?w5 = "(slot_clear ?w4)\<lparr>todo := [Free 8]\<rparr>"
  let ?w6 = "?w5\<lparr>live := live ?w5 - {8}, todo := []\<rparr>"
  have "interrupt_step True ?w0 ?w1" using create [of 8 True ?w0] by (simp add: idle_world_def)
  moreover have "interrupt_step True ?w1 ?w2" by (rule publish) (simp_all add: idle_world_def)
  moreover have "interrupt_step True ?w2 ?w3" by (rule other_load) simp
  moreover have "interrupt_step True ?w3 ?w4"
    by (rule unpublish [of _ 8]) (simp add: idle_world_def slot_publish_def interrupt_load_def)
  moreover have "interrupt_step True ?w4 ?w5"
    by (rule clear) (simp_all add: idle_world_def slot_publish_def interrupt_load_def slot_clear_def)
  moreover have "interrupt_step True ?w5 ?w6" by (rule free) simp
  moreover have "interrupt_step True ?w6 (interrupt_raw Other ?w6)" by (rule other_poke) simp
  ultimately have "(interrupt_step True)\<^sup>*\<^sup>* ?w0 (interrupt_raw Other ?w6)"
    by (meson r_into_rtranclp rtranclp_trans)
  moreover have "(8, False) \<in> set (poked (interrupt_raw Other ?w6))"
    by (simp add: interrupt_raw_def idle_world_def slot_publish_def interrupt_load_def slot_clear_def)
  ultimately show ?thesis by blast
qed

text \<open>
  C38. The hand-off of the cursor is safe under the program's calling convention and under no weaker one:
  whatever interrupts and drops the protocol thread runs, interleaved in any way with replays that publish
  and withdraw their cursor (a replay may end between the load and the call of an interrupt), an interrupt
  only ever reaches a cursor that exists, exactly if no other thread fires the handle; with one, a drop
  between its load and its call makes it reach a freed cursor.
\<close>

theorem interrupt_safe_iff_owner_fires:
  "(\<forall>calls w. (interrupt_step others)\<^sup>*\<^sup>* (idle_world calls) w \<longrightarrow> (\<forall>(h, alive) \<in> set (poked w). alive)) \<longleftrightarrow> \<not> others"
proof
  assume safe: "\<forall>calls w. (interrupt_step others)\<^sup>*\<^sup>* (idle_world calls) w \<longrightarrow> (\<forall>(h, alive) \<in> set (poked w). alive)"
  show "\<not> others"
  proof
    assume others
    with drop_races safe show False by fastforce
  qed
next
  assume "\<not> others"
  have "interrupts_safe w" if "(interrupt_step False)\<^sup>*\<^sup>* (idle_world calls) w" for calls w
    using that by (induction rule: rtranclp_induct) (blast intro: idle_world_safe interrupt_step_safe)+
  with \<open>\<not> others\<close> show "\<forall>calls w. (interrupt_step others)\<^sup>*\<^sup>* (idle_world calls) w \<longrightarrow> (\<forall>(h, alive) \<in> set (poked w). alive)"
    by (auto simp: interrupts_safe_def)
qed

theorem interrupt_safe_iff_owner_fires_witness:
  "\<exists>calls w h. (interrupt_step True)\<^sup>*\<^sup>* (idle_world calls) w \<and> (h, False) \<in> set (poked w)"
  using interrupt_safe_iff_owner_fires [of True] by fastforce

end
