(* ===== verification/Runner.thy ===== *)
theory Runner
  imports Debug_Target Callbacks
begin

text \<open>
  The concurrency core between the protocol thread and a replay worker (\<open>gdb/runner.rs\<close>). The worker
  is a sequence of phases; the protocol thread's operations and the worker's phases interleave in a
  labelled step relation. The theorems: an idle flag means a free backend; a result is delivered at
  most once and is the result of the job it belongs to; an interrupt replaces a result only when it
  was asked for during that job; a started job finishes.
\<close>

section \<open>Worker panics\<close>

datatype panic_payload = PayloadString string | PayloadStr string | PayloadOther

fun from_payload :: "panic_payload \<Rightarrow> string" where
  "from_payload (PayloadString s) = s"
| "from_payload (PayloadStr s) = s"
| "from_payload PayloadOther = ''non-string panic payload''"

text \<open>What the channel carries: a result, or a panic's message.\<close>

type_synonym 'r outcome = "string + 'r"

text \<open>A job on the backend; \<open>None\<close> when it never returns.\<close>

type_synonym ('t, 'r) job = "'t \<Rightarrow> ('t \<times> (panic_payload, 'r) caught) option"

section \<open>State\<close>

text \<open>
  The worker thread: spawned, holding the backend lock before the job, after the job, with the lock
  released, with its handle on the backend dropped. Both closures travel with it.
\<close>

datatype ('t, 'r) worker =
    NoWorker
  | Spawned "('t, 'r) job" "('t, 'r) job"
  | Locked "('t, 'r) job" "('t, 'r) job"
  | Ran 'r "('t, 'r) job"
  | Finished "'r outcome"
  | Detached "'r outcome"

text \<open>
  \<open>unsent\<close> are the outcomes of workers that have cleared the running flag and not sent yet, each with
  the channel it will send to; \<open>asking\<close> is \<open>request_interrupt\<close> between its load and its store.
\<close>

record ('t, 'r) runner =
  backend :: 't
  interrupt_fn :: "('t \<Rightarrow> 't) option"
  interrupted :: bool
  replay_running :: bool
  channel :: nat
  inbox :: "'r outcome option"
  guard_held :: bool
  worker :: "('t, 'r) worker"
  unsent :: "(nat \<times> 'r outcome) list"
  asking :: bool

text \<open>\<open>abort\<close> is the backend's \<open>interrupt_handle\<close>, taken once at construction.\<close>

definition runner_new :: "('t \<Rightarrow> 't) option \<Rightarrow> 't \<Rightarrow> ('t, 'r) runner" where
  "runner_new abort b =
     \<lparr>backend = b, interrupt_fn = abort, interrupted = False, replay_running = False,
      channel = 0, inbox = None, guard_held = False, worker = NoWorker, unsent = [], asking = False\<rparr>"

section \<open>Operations of the protocol thread\<close>

definition in_flight :: "('t, 'r) runner \<Rightarrow> bool" where
  "in_flight s = replay_running s"

text \<open>\<open>lock\<close> and \<open>query\<close>: a closure on the locked backend.\<close>

definition runner_query :: "('t \<Rightarrow> 't \<times> 'q) \<Rightarrow> ('t, 'r) runner \<Rightarrow> ('t, 'r) runner \<times> 'q" where
  "runner_query f s = (let (b, q) = f (backend s) in (s\<lparr>backend := b\<rparr>, q))"

definition try_lock :: "('t, 'r) runner \<Rightarrow> 't option" where
  "try_lock s = (if in_flight s then None else Some (backend s))"

text \<open>\<open>start\<close>: whether the job was accepted. \<open>prep\<close> is the backend's \<open>begin_resume\<close>.\<close>

definition runner_start ::
  "('t \<Rightarrow> 't) \<Rightarrow> ('t, 'r) job \<Rightarrow> ('t, 'r) job \<Rightarrow> ('t, 'r) runner \<Rightarrow> ('t, 'r) runner \<times> bool" where
  "runner_start prep job on_interrupt s =
     (if replay_running s then (s, False)
      else (s\<lparr>replay_running := True, interrupted := False, backend := prep (backend s),
              channel := channel s + 1, inbox := None, worker := Spawned job on_interrupt\<rparr>, True))"

definition take_result :: "('t, 'r) runner \<Rightarrow> ('t, 'r) runner \<times> 'r outcome option" where
  "take_result s = (s\<lparr>inbox := None\<rparr>, inbox s)"

text \<open>\<open>request_interrupt\<close>: the load of the running flag, then the store and the backend's handle.\<close>

definition interrupt_check :: "('t, 'r) runner \<Rightarrow> ('t, 'r) runner" where
  "interrupt_check s = (if replay_running s then s\<lparr>asking := True\<rparr> else s)"

definition interrupt_fire :: "('t, 'r) runner \<Rightarrow> ('t, 'r) runner" where
  "interrupt_fire s =
     s\<lparr>asking := False, interrupted := True,
       backend := (case interrupt_fn s of None \<Rightarrow> backend s | Some f \<Rightarrow> f (backend s))\<rparr>"

text \<open>The worker's handle on the backend keeps \<open>Arc::try_unwrap\<close> from succeeding.\<close>

fun holds_handle :: "('t, 'r) worker \<Rightarrow> bool" where
  "holds_handle NoWorker = False"
| "holds_handle (Detached _) = False"
| "holds_handle _ = True"

text \<open>\<open>into_backend\<close>, after its bounded wait for the worker.\<close>

definition into_backend :: "('t, 'r) runner \<Rightarrow> 't option" where
  "into_backend s = (if holds_handle (worker s) then None else Some (backend s))"

section \<open>The worker thread\<close>

text \<open>The job's answer: the guard is released by an unwinding job at once, otherwise after the swap.\<close>

definition job_returned :: "'t \<times> (panic_payload, 'r) caught \<Rightarrow> ('t, 'r) job \<Rightarrow> ('t, 'r) runner \<Rightarrow> ('t, 'r) runner" where
  "job_returned out on_interrupt s =
     (case out of
        (b, Returned r) \<Rightarrow> s\<lparr>backend := b, worker := Ran r on_interrupt\<rparr>
      | (b, Panicked p) \<Rightarrow> s\<lparr>backend := b, guard_held := False, worker := Finished (Inl (from_payload p))\<rparr>)"

definition keep_result :: "'r \<Rightarrow> ('t, 'r) runner \<Rightarrow> ('t, 'r) runner" where
  "keep_result r s = s\<lparr>guard_held := False, worker := Finished (Inr r)\<rparr>"

definition replace_result :: "'t \<times> (panic_payload, 'r) caught \<Rightarrow> ('t, 'r) runner \<Rightarrow> ('t, 'r) runner" where
  "replace_result out s =
     s\<lparr>interrupted := False, guard_held := False, backend := fst out,
       worker := Finished (case snd out of Returned r \<Rightarrow> Inr r | Panicked p \<Rightarrow> Inl (from_payload p))\<rparr>"

definition publish_idle :: "'r outcome \<Rightarrow> ('t, 'r) runner \<Rightarrow> ('t, 'r) runner" where
  "publish_idle x s = s\<lparr>replay_running := False, worker := NoWorker, unsent := unsent s @ [(channel s, x)]\<rparr>"

text \<open>A send reaches the receiver only on its own channel; a replaced receiver drops it.\<close>

definition send_result :: "nat \<times> 'r outcome \<Rightarrow> ('t, 'r) runner \<Rightarrow> ('t, 'r) runner" where
  "send_result m s =
     s\<lparr>unsent := remove1 m (unsent s), inbox := (if fst m = channel s then Some (snd m) else inbox s)\<rparr>"

datatype 'r label =
    Start nat
  | Ask
  | JobRan nat
  | Kept nat
  | Replaced nat
  | Published nat "'r outcome"
  | Delivered nat "'r outcome"
  | Internal

inductive worker_step :: "('t, 'r) runner \<Rightarrow> 'r label \<Rightarrow> ('t, 'r) runner \<Rightarrow> bool" where
  w_lock: "worker s = Spawned job oni \<Longrightarrow> \<not> guard_held s \<Longrightarrow>
    worker_step s Internal (s\<lparr>guard_held := True, worker := Locked job oni\<rparr>)"
| w_job: "worker s = Locked job oni \<Longrightarrow> job (backend s) = Some out \<Longrightarrow>
    worker_step s (JobRan (channel s)) (job_returned out oni s)"
| w_keep: "worker s = Ran r oni \<Longrightarrow> \<not> interrupted s \<Longrightarrow> worker_step s (Kept (channel s)) (keep_result r s)"
| w_replace: "worker s = Ran r oni \<Longrightarrow> interrupted s \<Longrightarrow> oni (backend s) = Some out \<Longrightarrow>
    worker_step s (Replaced (channel s)) (replace_result out s)"
| w_drop: "worker s = Finished x \<Longrightarrow> worker_step s Internal (s\<lparr>worker := Detached x\<rparr>)"
| w_idle: "worker s = Detached x \<Longrightarrow> worker_step s (Published (channel s) x) (publish_idle x s)"
| w_send: "m \<in> set (unsent s) \<Longrightarrow> worker_step s Internal (send_result m s)"

inductive runner_step :: "('t \<Rightarrow> 't) \<Rightarrow> ('t, 'r) runner \<Rightarrow> 'r label \<Rightarrow> ('t, 'r) runner \<Rightarrow> bool" for prep where
  r_worker: "worker_step s l s' \<Longrightarrow> runner_step prep s l s'"
| r_start: "\<not> asking s \<Longrightarrow> runner_start prep job oni s = (s', True) \<Longrightarrow> runner_step prep s (Start (channel s')) s'"
| r_check: "\<not> asking s \<Longrightarrow> runner_step prep s Internal (interrupt_check s)"
| r_fire: "asking s \<Longrightarrow> runner_step prep s Ask (interrupt_fire s)"
| r_take: "\<not> asking s \<Longrightarrow> take_result s = (s', Some x) \<Longrightarrow> runner_step prep s (Delivered (channel s) x) s'"
| r_query: "\<not> asking s \<Longrightarrow> try_lock s = Some b \<Longrightarrow> runner_step prep s Internal (fst (runner_query (\<lambda>b. (f b, ())) s))"

inductive_cases worker_stepE: "worker_step s l s'"

text \<open>An execution and its labels, the latest first.\<close>

inductive runner_run :: "('t \<Rightarrow> 't) \<Rightarrow> ('t, 'r) runner \<Rightarrow> 'r label list \<Rightarrow> ('t, 'r) runner \<Rightarrow> bool" for prep s0 where
  run_nil: "runner_run prep s0 [] s0"
| run_step: "runner_run prep s0 tr s \<Longrightarrow> runner_step prep s l s' \<Longrightarrow> runner_run prep s0 (l # tr) s'"

section \<open>Invariants\<close>

fun worker_holds_guard :: "('t, 'r) worker \<Rightarrow> bool" where
  "worker_holds_guard (Locked _ _) = True"
| "worker_holds_guard (Ran _ _) = True"
| "worker_holds_guard _ = False"

text \<open>The lock is held exactly inside the job, and the flag is set exactly while there is a worker.\<close>

definition runner_inv :: "('t, 'r) runner \<Rightarrow> bool" where
  "runner_inv s \<longleftrightarrow> (guard_held s \<longleftrightarrow> worker_holds_guard (worker s))
     \<and> (replay_running s \<longleftrightarrow> worker s \<noteq> NoWorker)"

lemmas worker_ops = job_returned_def keep_result_def replace_result_def publish_idle_def send_result_def

lemma worker_step_inv: "worker_step s l s' \<Longrightarrow> runner_inv s \<Longrightarrow> runner_inv s'"
  by (induction rule: worker_step.induct)
    (auto simp: runner_inv_def worker_ops split: prod.splits caught.splits)

lemma runner_step_inv:
  assumes "runner_step prep s l s'" and "runner_inv s"
  shows "runner_inv s'"
  using assms
proof (induction rule: runner_step.induct)
  case (r_worker s l s')
  then show ?case by (blast intro: worker_step_inv)
qed (auto simp: runner_inv_def runner_start_def interrupt_check_def interrupt_fire_def take_result_def
    runner_query_def split_beta Let_def split: if_splits)

lemma runner_run_inv: "runner_run prep s0 tr s \<Longrightarrow> runner_inv s0 \<Longrightarrow> runner_inv s"
  by (induction rule: runner_run.induct) (auto intro: runner_step_inv)

lemma runner_new_inv: "runner_inv (runner_new h b)"
  by (simp add: runner_inv_def runner_new_def)

text \<open>
  C13. An idle flag means a free backend: in every interleaving of the protocol thread and the workers,
  whenever no replay is in flight the backend lock is free and no worker has a handle on the backend.
  So the event loop's non-blocking access never blocks, a new job's \<open>begin_resume\<close> never contends, and
  a session that ends while idle always recovers the backend.
\<close>

theorem idle_means_backend_free:
  assumes "runner_run prep (runner_new h b) tr s" and "\<not> in_flight s"
  shows "\<not> guard_held s \<and> try_lock s = Some (backend s) \<and> into_backend s = Some (backend s)
    \<and> snd (runner_start prep job oni s)"
proof -
  have "runner_inv s" using runner_run_inv [OF assms(1) runner_new_inv] .
  with assms(2) have w: "worker s = NoWorker" and g: "\<not> guard_held s"
    by (auto simp: runner_inv_def in_flight_def)
  then show ?thesis using assms(2) by (simp add: try_lock_def into_backend_def runner_start_def in_flight_def)
qed

section \<open>Interrupts belong to their job\<close>

fun is_start :: "'r label \<Rightarrow> bool" where
  "is_start (Start _) = True"
| "is_start _ = False"

text \<open>The part of a trace since its latest start.\<close>

definition since_start :: "'r label list \<Rightarrow> 'r label list" where
  "since_start tr = takeWhile (\<lambda>l. \<not> is_start l) tr"

lemma since_start_simps [simp]:
  "since_start [] = []" "since_start (l # tr) = (if is_start l then [] else l # since_start tr)"
  by (simp_all add: since_start_def)

lemma since_start_split:
  "find is_start tr = Some l \<Longrightarrow> \<exists>tr2. tr = since_start tr @ l # tr2"
  by (induction tr) (auto split: if_splits)

text \<open>The latest start is the current channel's, and a pending interrupt was asked for after it.\<close>

definition interrupt_inv :: "'r label list \<Rightarrow> ('t, 'r) runner \<Rightarrow> bool" where
  "interrupt_inv tr s \<longleftrightarrow> find is_start tr = (if channel s = 0 then None else Some (Start (channel s)))
     \<and> (interrupted s \<longrightarrow> Ask \<in> set (since_start tr)) \<and> (channel s = 0 \<longrightarrow> worker s = NoWorker)"

lemma worker_step_frame:
  assumes "worker_step s l s'"
  shows "\<not> is_start l" and "channel s' = channel s" and "l \<noteq> Ask" and "interrupted s' \<longrightarrow> interrupted s"
    and "worker s' \<noteq> NoWorker \<longrightarrow> worker s \<noteq> NoWorker" and "asking s' = asking s"
  using assms by (induction rule: worker_step.induct; auto simp: worker_ops split: prod.splits caught.splits)+

lemma runner_step_interrupt_inv:
  assumes "runner_step prep s l s'" and "interrupt_inv tr s"
  shows "interrupt_inv (l # tr) s'"
  using assms
proof (induction rule: runner_step.induct)
  case (r_worker s l s')
  from worker_step_frame [OF r_worker(1)] r_worker(2) show ?case
    by (auto simp: interrupt_inv_def)
qed (auto simp: interrupt_inv_def runner_start_def interrupt_check_def interrupt_fire_def take_result_def
    runner_query_def split_beta Let_def split: if_splits)

lemma runner_run_interrupt_inv: "runner_run prep (runner_new h b) tr s \<Longrightarrow> interrupt_inv tr s"
proof (induction rule: runner_run.induct)
  case run_nil
  then show ?case by (simp add: interrupt_inv_def runner_new_def)
next
  case (run_step tr s l s')
  then show ?case by (blast intro: runner_step_interrupt_inv)
qed

text \<open>
  C14. A late interrupt never leaks into the next job: in every interleaving, also when an interrupt is
  requested just as a job finishes, a worker reports the interrupt result in place of its job's only if
  an interrupt was requested after that very job was started.
\<close>

theorem interrupt_belongs_to_job:
  assumes "runner_run prep (runner_new h b) (Replaced n # tr) s"
  shows "\<exists>tr1 tr2. tr = tr1 @ Start n # tr2 \<and> Ask \<in> set tr1 \<and> (\<forall>l\<in>set tr1. \<not> is_start l)"
proof -
  from assms obtain s1 where run: "runner_run prep (runner_new h b) tr s1" and st: "runner_step prep s1 (Replaced n) s"
    by (cases rule: runner_run.cases) auto
  from st have "worker_step s1 (Replaced n) s" by (cases rule: runner_step.cases) auto
  then have n: "n = channel s1" and i: "interrupted s1" and w: "worker s1 \<noteq> NoWorker"
    by (cases rule: worker_step.cases; simp)+
  have inv: "interrupt_inv tr s1" by (rule runner_run_interrupt_inv [OF run])
  with w have "find is_start tr = Some (Start n)" by (auto simp: interrupt_inv_def n split: if_splits)
  then obtain tr2 where "tr = since_start tr @ Start n # tr2" by (blast dest: since_start_split)
  moreover have "Ask \<in> set (since_start tr)" using inv i by (simp add: interrupt_inv_def)
  moreover have "\<forall>l\<in>set (since_start tr). \<not> is_start l" by (auto simp: since_start_def dest: set_takeWhileD)
  ultimately show ?thesis by blast
qed

section \<open>Results\<close>

fun delivered :: "'r label \<Rightarrow> (nat \<times> 'r outcome) option" where
  "delivered (Delivered n x) = Some (n, x)"
| "delivered _ = None"

fun published :: "'r label \<Rightarrow> (nat \<times> 'r outcome) option" where
  "published (Published n x) = Some (n, x)"
| "published _ = None"

abbreviation deliveries :: "'r label list \<Rightarrow> (nat \<times> 'r outcome) list" where
  "deliveries tr \<equiv> List.map_filter delivered tr"

abbreviation publications :: "'r label list \<Rightarrow> (nat \<times> 'r outcome) list" where
  "publications tr \<equiv> List.map_filter published tr"

text \<open>
  Where an outcome can be: published once, then unsent, in the inbox, delivered, or dropped with its
  channel.
\<close>

definition result_inv :: "'r label list \<Rightarrow> ('t, 'r) runner \<Rightarrow> bool" where
  "result_inv tr s \<longleftrightarrow>
     distinct (map fst (publications tr)) \<and> distinct (map fst (deliveries tr)) \<and> distinct (map fst (unsent s))
   \<and> set (deliveries tr) \<subseteq> set (publications tr) \<and> set (unsent s) \<subseteq> set (publications tr)
   \<and> (\<forall>n\<in>fst ` set (publications tr). n \<le> channel s)
   \<and> fst ` set (unsent s) \<inter> fst ` set (deliveries tr) = {}
   \<and> (worker s \<noteq> NoWorker \<longrightarrow> channel s \<notin> fst ` set (publications tr) \<and> inbox s = None)
   \<and> (\<forall>x. inbox s = Some x \<longrightarrow> (channel s, x) \<in> set (publications tr)
        \<and> channel s \<notin> fst ` set (unsent s) \<and> channel s \<notin> fst ` set (deliveries tr))"

text \<open>A step with a label that neither publishes nor delivers, and that keeps the channel's state.\<close>

lemma result_inv_internal:
  assumes "result_inv tr s" and "delivered l = None" and "published l = None"
    and "channel s' = channel s" and "inbox s' = inbox s" and "unsent s' = unsent s"
    and "worker s' \<noteq> NoWorker \<longrightarrow> worker s \<noteq> NoWorker"
  shows "result_inv (l # tr) s'"
  using assms by (simp add: result_inv_def map_filter_simps)

lemma result_inv_publish:
  assumes "result_inv tr s" and "worker s = Detached x"
  shows "result_inv (Published (channel s) x # tr) (publish_idle x s)"
proof -
  have "channel s \<notin> fst ` set (publications tr)" "inbox s = None"
    using assms by (auto simp: result_inv_def)
  moreover from this(1) have "channel s \<notin> fst ` set (unsent s)" "channel s \<notin> fst ` set (deliveries tr)"
    using assms(1) by (auto simp: result_inv_def)
  ultimately show ?thesis using assms(1) by (auto simp: result_inv_def publish_idle_def map_filter_simps)
qed

lemma result_inv_send:
  assumes "result_inv tr s" and "m \<in> set (unsent s)"
  shows "result_inv (Internal # tr) (send_result m s)"
proof -
  obtain n x where m: "m = (n, x)" by (rule prod.exhaust)
  from assms(1) have d: "distinct (map fst (unsent s))" by (simp add: result_inv_def)
  then have du: "distinct (unsent s)" by (simp add: distinct_map)
  have rest: "set (remove1 m (unsent s)) = set (unsent s) - {m}" using du by (simp add: set_remove1_eq)
  then have sub: "fst ` set (remove1 m (unsent s)) \<subseteq> fst ` set (unsent s)" by auto
  have d': "distinct (map fst (remove1 m (unsent s)))"
    using d du by (auto simp: distinct_map rest intro: inj_on_subset distinct_remove1)
  have gone: "n \<notin> fst ` set (remove1 m (unsent s))"
    using eq_key_imp_eq_value [OF d] assms(2) by (auto simp: rest [unfolded m] m)
  have pub: "(n, x) \<in> set (publications tr)" using assms m by (auto simp: result_inv_def)
  have "n \<in> fst ` set (unsent s)" "n \<in> fst ` set (publications tr)" using assms(2) pub m by force+
  then have undel: "n \<notin> fst ` set (deliveries tr)" and idle: "n = channel s \<Longrightarrow> worker s = NoWorker"
    using assms(1) unfolding result_inv_def by blast+
  have ib: "inbox (send_result m s) = (if n = channel s then Some x else inbox s)"
    and fields: "channel (send_result m s) = channel s" "unsent (send_result m s) = remove1 m (unsent s)"
      "worker (send_result m s) = worker s"
    by (simp_all add: send_result_def m)
  have labels: "publications (Internal # tr) = publications tr" "deliveries (Internal # tr) = deliveries tr"
    by (simp_all add: map_filter_simps)
  have sub': "set (remove1 m (unsent s)) \<subseteq> set (publications tr)"
    and dis: "fst ` set (remove1 m (unsent s)) \<inter> fst ` set (deliveries tr) = {}"
    using assms(1) rest sub by (auto simp: result_inv_def)
  have box: "(channel s, y) \<in> set (publications tr) \<and> channel s \<notin> fst ` set (remove1 m (unsent s))
      \<and> channel s \<notin> fst ` set (deliveries tr)" if "(if n = channel s then Some x else inbox s) = Some y" for y
  proof (cases "n = channel s")
    case True
    with that pub undel gone show ?thesis by simp
  next
    case False
    with that have "inbox s = Some y" by simp
    with assms(1) have "(channel s, y) \<in> set (publications tr)" "channel s \<notin> fst ` set (unsent s)"
      "channel s \<notin> fst ` set (deliveries tr)" by (simp_all add: result_inv_def)
    with sub show ?thesis by blast
  qed
  have "worker s \<noteq> NoWorker \<longrightarrow> channel s \<notin> fst ` set (publications tr) \<and> (if n = channel s then Some x else inbox s) = None"
    using assms(1) idle by (auto simp: result_inv_def)
  with box show ?thesis
    unfolding result_inv_def labels fields ib using assms(1) d' sub' dis by (simp add: result_inv_def)
qed

lemma worker_step_result_inv: "worker_step s l s' \<Longrightarrow> result_inv tr s \<Longrightarrow> result_inv (l # tr) s'"
proof (induction rule: worker_step.induct)
  case (w_lock s job oni)
  then show ?case by (intro result_inv_internal [OF w_lock(3)]) simp_all
next
  case (w_job s job oni out)
  then show ?case by (intro result_inv_internal [OF w_job(3)]) (auto simp: job_returned_def split: prod.splits caught.splits)
next
  case (w_keep s r oni)
  then show ?case by (intro result_inv_internal [OF w_keep(3)]) (simp_all add: keep_result_def)
next
  case (w_replace s r oni out)
  then show ?case by (intro result_inv_internal [OF w_replace(4)]) (simp_all add: replace_result_def)
next
  case (w_drop s x)
  then show ?case by (intro result_inv_internal [OF w_drop(2)]) simp_all
next
  case (w_idle s x)
  then show ?case by (intro result_inv_publish)
next
  case (w_send m s)
  then show ?case by (intro result_inv_send)
qed

lemma runner_step_result_inv:
  assumes "runner_step prep s l s'" and "result_inv tr s"
  shows "result_inv (l # tr) s'"
  using assms
proof (induction rule: runner_step.induct)
  case (r_worker s l s')
  then show ?case by (intro worker_step_result_inv)
next
  case (r_start s job oni s')
  have new: "Suc (channel s) \<notin> fst ` set (publications tr)"
    using r_start(3) by (auto simp: result_inv_def)
  have s': "s' = s\<lparr>replay_running := True, interrupted := False, backend := prep (backend s),
              channel := channel s + 1, inbox := None, worker := Spawned job oni\<rparr>"
    using r_start(2) by (auto simp: runner_start_def split: if_splits)
  show ?case using r_start(3) new unfolding s' by (auto simp: result_inv_def map_filter_simps)
next
  case (r_take s s' x)
  then have s': "s' = s\<lparr>inbox := None\<rparr>" and x: "inbox s = Some x" by (auto simp: take_result_def)
  show ?case using r_take(3) x unfolding s' by (auto simp: result_inv_def map_filter_simps)
next
  case (r_check s)
  then show ?case by (intro result_inv_internal [OF r_check(2)]) (simp_all add: interrupt_check_def)
next
  case (r_fire s)
  then show ?case by (intro result_inv_internal [OF r_fire(2)]) (simp_all add: interrupt_fire_def)
next
  case (r_query s b f)
  then show ?case by (intro result_inv_internal [OF r_query(3)]) (simp_all add: runner_query_def)
qed

lemma runner_run_result_inv: "runner_run prep (runner_new h b) tr s \<Longrightarrow> result_inv tr s"
proof (induction rule: runner_run.induct)
  case run_nil
  then show ?case by (simp add: result_inv_def runner_new_def map_filter_simps)
next
  case (run_step tr s l s')
  then show ?case by (blast intro: runner_step_result_inv)
qed

text \<open>
  C15. A result is never delivered twice and never to the wrong job: in every interleaving, each job
  publishes at most one outcome, the protocol thread receives at most one outcome per job, and what it
  receives for a job is the outcome that job's worker published.
\<close>

theorem results_delivered_once:
  assumes "runner_run prep (runner_new h b) tr s"
  shows "distinct (map fst (publications tr)) \<and> distinct (map fst (deliveries tr))
    \<and> set (deliveries tr) \<subseteq> set (publications tr)"
  using runner_run_result_inv [OF assms] by (simp add: result_inv_def)

section \<open>An uninterrupted job reports its own result\<close>

fun outcome_of :: "(panic_payload, 'r) caught \<Rightarrow> 'r outcome" where
  "outcome_of (Returned r) = Inr r"
| "outcome_of (Panicked p) = Inl (from_payload p)"

definition ran_outcome :: "('t, 'r) job \<Rightarrow> 't \<Rightarrow> 'r outcome \<Rightarrow> bool" where
  "ran_outcome job b x \<longleftrightarrow> (\<exists>b' c. job b = Some (b', c) \<and> x = outcome_of c)"

text \<open>What each phase knows of a job started on \<open>b\<close>, while no interrupt is asked for.\<close>

fun phase_inv :: "('t, 'r) job \<Rightarrow> ('t, 'r) job \<Rightarrow> 't \<Rightarrow> ('t, 'r) runner \<Rightarrow> ('t, 'r) worker \<Rightarrow> bool" where
  "phase_inv job oni b s (Spawned j k) \<longleftrightarrow> j = job \<and> k = oni \<and> backend s = b \<and> \<not> interrupted s \<and> replay_running s"
| "phase_inv job oni b s (Locked j k) \<longleftrightarrow> j = job \<and> k = oni \<and> backend s = b \<and> \<not> interrupted s \<and> replay_running s"
| "phase_inv job oni b s (Ran r k) \<longleftrightarrow> ran_outcome job b (Inr r) \<and> \<not> interrupted s \<and> replay_running s"
| "phase_inv job oni b s (Finished x) \<longleftrightarrow> ran_outcome job b x \<and> replay_running s"
| "phase_inv job oni b s (Detached x) \<longleftrightarrow> ran_outcome job b x \<and> replay_running s"
| "phase_inv job oni b s NoWorker \<longleftrightarrow> True"

definition job_inv :: "('t, 'r) job \<Rightarrow> ('t, 'r) job \<Rightarrow> 't \<Rightarrow> nat \<Rightarrow> 'r label list \<Rightarrow> ('t, 'r) runner \<Rightarrow> bool" where
  "job_inv job oni b n tr s \<longleftrightarrow> channel s = n \<and> phase_inv job oni b s (worker s)
     \<and> (\<forall>x. (n, x) \<in> set (publications tr) \<longrightarrow> ran_outcome job b x)"

lemma phase_inv_cong:
  "backend s' = backend s \<Longrightarrow> interrupted s' = interrupted s \<Longrightarrow> replay_running s' = replay_running s \<Longrightarrow>
   phase_inv job oni b s' w = phase_inv job oni b s w"
  by (cases w) simp_all

lemma job_inv_worker:
  assumes "worker_step s l s'" and "job_inv job oni b n tr s"
  shows "job_inv job oni b n (l # tr) s'"
  using assms
proof (induction rule: worker_step.induct)
  case (w_job s j k out)
  obtain b' c where out: "out = (b', c)" by (rule prod.exhaust)
  from w_job out have "job b = Some (b', c)" by (auto simp: job_inv_def)
  with w_job out show ?case
    by (cases c) (auto simp: job_inv_def job_returned_def ran_outcome_def map_filter_simps)
next
  case (w_send m s)
  then have "phase_inv job oni b (send_result m s) (worker s)"
    using phase_inv_cong [of "send_result m s" s] by (simp add: job_inv_def send_result_def)
  with w_send show ?case by (simp add: job_inv_def send_result_def map_filter_simps)
qed (auto simp: job_inv_def worker_ops map_filter_simps)

lemma job_inv_step:
  assumes "runner_step prep s l s'" and "job_inv job oni b n tr s" and "l \<noteq> Ask" and "\<not> is_start l"
  shows "job_inv job oni b n (l # tr) s'"
  using assms
proof (induction rule: runner_step.induct)
  case (r_worker s l s')
  then show ?case by (blast intro: job_inv_worker)
next
  case (r_check s)
  then show ?case by (cases "worker s") (auto simp: job_inv_def interrupt_check_def map_filter_simps)
next
  case (r_take s s' x)
  then have "s' = s\<lparr>inbox := None\<rparr>" by (simp add: take_result_def)
  with r_take show ?case by (cases "worker s") (auto simp: job_inv_def map_filter_simps)
next
  case (r_query s c f)
  then have "\<not> replay_running s" by (auto simp: try_lock_def in_flight_def split: if_splits)
  with r_query show ?case by (cases "worker s") (auto simp: job_inv_def runner_query_def map_filter_simps)
qed auto

text \<open>
  A job nobody interrupts reports its own outcome: from the start of a job on, in every interleaving
  without an interrupt request and before the next start, whatever the worker publishes is what the job
  returned on the backend prepared by \<open>begin_resume\<close>, or, if the job panicked, that panic's message.
\<close>

theorem uninterrupted_job_outcome:
  assumes "runner_start prep job oni s = (s1, True)" and "runner_run prep s1 tr s2"
    and "Ask \<notin> set tr" and "\<forall>l\<in>set tr. \<not> is_start l" and "(channel s1, x) \<in> set (publications tr)"
  shows "\<exists>b c. job (prep (backend s)) = Some (b, c) \<and> x = outcome_of c"
proof -
  have "job_inv job oni (prep (backend s)) (channel s1) tr s2" using assms(2-4)
  proof (induction rule: runner_run.induct)
    case run_nil
    from assms(1) show ?case
      by (auto simp: job_inv_def runner_start_def map_filter_simps split: if_splits)
  next
    case (run_step tr s l s')
    then show ?case by (intro job_inv_step) auto
  qed
  with assms(5) show ?thesis by (auto simp: job_inv_def ran_outcome_def)
qed

section \<open>A started job finishes\<close>

text \<open>The worker's remaining steps, and those of the sends still to come.\<close>

fun phase_rank :: "('t, 'r) worker \<Rightarrow> nat" where
  "phase_rank (Spawned _ _) = 6"
| "phase_rank (Locked _ _) = 5"
| "phase_rank (Ran _ _) = 4"
| "phase_rank (Finished _) = 3"
| "phase_rank (Detached _) = 2"
| "phase_rank NoWorker = 0"

definition runner_rank :: "('t, 'r) runner \<Rightarrow> nat" where
  "runner_rank s = phase_rank (worker s) + length (unsent s)"

text \<open>Both closures return on every backend.\<close>

fun closures_return :: "('t, 'r) worker \<Rightarrow> bool" where
  "closures_return (Spawned job oni) \<longleftrightarrow> (\<forall>b. job b \<noteq> None \<and> oni b \<noteq> None)"
| "closures_return (Locked job oni) \<longleftrightarrow> (\<forall>b. job b \<noteq> None \<and> oni b \<noteq> None)"
| "closures_return (Ran _ oni) \<longleftrightarrow> (\<forall>b. oni b \<noteq> None)"
| "closures_return _ \<longleftrightarrow> True"

definition worker_alone :: "('t, 'r) runner \<Rightarrow> ('t, 'r) runner \<Rightarrow> bool" where
  "worker_alone s s' \<longleftrightarrow> (\<exists>l. worker_step s l s')"

lemma worker_step_rank: "worker_step s l s' \<Longrightarrow> runner_rank s' < runner_rank s"
proof (induction rule: worker_step.induct)
  case (w_send m s)
  then have "length (remove1 m (unsent s)) < length (unsent s)"
    using length_pos_if_in_set [OF w_send] by (simp add: length_remove1)
  then show ?case by (simp add: runner_rank_def send_result_def)
qed (auto simp: runner_rank_def worker_ops split: prod.splits caught.splits)

lemma worker_step_closures: "worker_step s l s' \<Longrightarrow> closures_return (worker s) \<Longrightarrow> closures_return (worker s')"
  by (induction rule: worker_step.induct) (auto simp: worker_ops split: prod.splits caught.splits)

lemma worker_enabled:
  assumes "runner_inv s" and "closures_return (worker s)" and "worker s \<noteq> NoWorker \<or> unsent s \<noteq> []"
  shows "\<exists>s'. worker_alone s s'"
proof (cases "worker s")
  case NoWorker
  with assms(3) obtain m where "m \<in> set (unsent s)" by (cases "unsent s") auto
  then show ?thesis by (auto simp: worker_alone_def intro: w_send)
next
  case (Spawned job oni)
  with assms(1) have "\<not> guard_held s" by (simp add: runner_inv_def)
  with Spawned show ?thesis by (auto simp: worker_alone_def intro: w_lock)
next
  case (Locked job oni)
  with assms(2) obtain out where "job (backend s) = Some out" by fastforce
  with Locked show ?thesis by (auto simp: worker_alone_def intro: w_job)
next
  case (Ran r oni)
  with assms(2) obtain out where "oni (backend s) = Some out" by fastforce
  with Ran show ?thesis by (cases "interrupted s") (auto simp: worker_alone_def intro: w_keep w_replace)
next
  case (Finished x)
  then show ?thesis by (auto simp: worker_alone_def intro: w_drop)
next
  case (Detached x)
  then show ?thesis by (auto simp: worker_alone_def intro: w_idle)
qed

text \<open>The current job's outcome is still to come, on its way, or there.\<close>

definition outcome_due :: "('t, 'r) runner \<Rightarrow> bool" where
  "outcome_due s \<longleftrightarrow> worker s \<noteq> NoWorker \<or> channel s \<in> fst ` set (unsent s) \<or> inbox s \<noteq> None"

lemma worker_step_due: "worker_step s l s' \<Longrightarrow> outcome_due s \<Longrightarrow> outcome_due s'"
proof (induction rule: worker_step.induct)
  case (w_send m s)
  show ?case
  proof (cases "fst m = channel s")
    case False
    then have "y \<in> set (unsent s) \<Longrightarrow> fst y = channel s \<Longrightarrow> y \<in> set (remove1 m (unsent s))" for y
      by (auto intro: in_set_remove1 [THEN iffD2])
    with w_send False show ?thesis by (force simp: outcome_due_def send_result_def)
  qed (simp add: outcome_due_def send_result_def)
qed (auto simp: outcome_due_def worker_ops split: prod.splits caught.splits)

lemma worker_alone_keeps:
  assumes "worker_alone\<^sup>*\<^sup>* s s'" and "runner_inv s" and "closures_return (worker s)" and "outcome_due s"
  shows "runner_inv s' \<and> closures_return (worker s') \<and> outcome_due s'"
  using assms
  by (induction rule: rtranclp_induct)
    (auto simp: worker_alone_def dest: worker_step_inv worker_step_closures worker_step_due)

lemma worker_runs_out: "\<exists>s'. worker_alone\<^sup>*\<^sup>* s s' \<and> (\<nexists>s''. worker_alone s' s'')"
proof (induction "runner_rank s" arbitrary: s rule: less_induct)
  case less
  show ?case
  proof (cases "\<exists>s'. worker_alone s s'")
    case True
    then obtain s1 where s1: "worker_alone s s1" by blast
    then have "runner_rank s1 < runner_rank s" by (auto simp: worker_alone_def dest: worker_step_rank)
    from less [OF this] s1 show ?thesis by (meson converse_rtranclp_into_rtranclp)
  qed blast
qed

text \<open>
  C16. A started job always comes to an end: as long as its closures return, the worker can always take
  its next step whatever the protocol thread does, every step brings it strictly closer to the end, and
  once it can go no further the flag is clear, the lock is free and the job's outcome is waiting for the
  protocol thread. A panicking job is no exception.
\<close>

theorem started_job_delivers:
  assumes "runner_inv s" and "in_flight s" and "closures_return (worker s)"
  shows "(\<exists>s'. worker_alone\<^sup>*\<^sup>* s s' \<and> (\<nexists>s''. worker_alone s' s''))
    \<and> (\<forall>s1 s2. worker_alone\<^sup>*\<^sup>* s s1 \<and> worker_alone s1 s2 \<longrightarrow> runner_rank s2 < runner_rank s1)
    \<and> (\<forall>s'. worker_alone\<^sup>*\<^sup>* s s' \<and> (\<nexists>s''. worker_alone s' s'') \<longrightarrow>
        \<not> in_flight s' \<and> \<not> guard_held s' \<and> inbox s' \<noteq> None)"
proof (intro conjI allI impI)
  show "\<exists>s'. worker_alone\<^sup>*\<^sup>* s s' \<and> (\<nexists>s''. worker_alone s' s'')" by (rule worker_runs_out)
next
  fix s1 s2
  assume "worker_alone\<^sup>*\<^sup>* s s1 \<and> worker_alone s1 s2"
  then show "runner_rank s2 < runner_rank s1" by (auto simp: worker_alone_def dest: worker_step_rank)
next
  fix s'
  assume st: "worker_alone\<^sup>*\<^sup>* s s' \<and> (\<nexists>s''. worker_alone s' s'')"
  have "outcome_due s" using assms(1,2) by (auto simp: outcome_due_def runner_inv_def in_flight_def)
  with worker_alone_keeps [OF conjunct1 [OF st] assms(1,3)]
  have inv: "runner_inv s'" and cl: "closures_return (worker s')" and due: "outcome_due s'" by blast+
  from worker_enabled [OF inv cl] st have "worker s' = NoWorker" "unsent s' = []" by blast+
  with inv due show "\<not> in_flight s'" "\<not> guard_held s'" "inbox s' \<noteq> None"
    by (auto simp: runner_inv_def outcome_due_def in_flight_def)
qed

section \<open>A run of the simulated target\<close>

text \<open>A step of the simulated process as a job, and the report of its interrupt.\<close>

definition demo_job :: "(sim ttd_process, nat) job" where
  "demo_job p = Some (p, Returned 1)"

definition demo_interrupt :: "(sim ttd_process, nat) job" where
  "demo_interrupt p = Some (p, Returned 2)"

definition demo_new :: "(sim ttd_process, nat) runner" where
  "demo_new = runner_new (dt_interrupt_handle (ttd_target sim_api (\<lambda>_. 0)) sim_process) sim_process"

definition demo_started :: "(sim ttd_process, nat) runner" where
  "demo_started = fst (runner_start tp_begin_resume demo_job demo_interrupt demo_new)"

lemma demo_started_simps:
  "runner_start tp_begin_resume demo_job demo_interrupt demo_new = (demo_started, True)"
  "worker demo_started = Spawned demo_job demo_interrupt" "\<not> guard_held demo_started" "\<not> interrupted demo_started"
  "replay_running demo_started" "channel demo_started = 1" "unsent demo_started = []" "\<not> asking demo_started" "\<not> asking demo_new"
  by (simp_all add: demo_started_def runner_start_def demo_new_def runner_new_def)

lemma demo_run_start: "runner_run tp_begin_resume demo_new [Start 1] demo_started"
proof -
  have "runner_step tp_begin_resume demo_new (Start (channel demo_started)) demo_started"
    by (rule r_start [where job = demo_job and oni = demo_interrupt]) (simp_all add: demo_started_simps)
  then have "runner_step tp_begin_resume demo_new (Start 1) demo_started" by (simp add: demo_started_simps)
  then show ?thesis by (intro run_step [OF run_nil])
qed

text \<open>An interrupt arrives while the worker is starting up.\<close>

definition demo_ran :: "(sim ttd_process, nat) runner" where
  "demo_ran = (interrupt_fire (interrupt_check demo_started))
     \<lparr>guard_held := True, worker := Ran 1 demo_interrupt\<rparr>"

lemma demo_run_interrupted:
  "runner_run tp_begin_resume demo_new [Replaced 1, JobRan 1, Internal, Ask, Internal, Start 1]
     (replace_result (backend demo_ran, Returned 2) demo_ran)"
proof -
  let ?c = "interrupt_check demo_started" and ?f = "interrupt_fire (interrupt_check demo_started)"
  let ?l = "?f\<lparr>guard_held := True, worker := Locked demo_job demo_interrupt\<rparr>"
  note d = demo_started_simps interrupt_check_def interrupt_fire_def
  have "runner_run tp_begin_resume demo_new [Internal, Start 1] ?c"
    by (rule run_step [OF demo_run_start r_check]) (simp add: d)
  then have "runner_run tp_begin_resume demo_new [Ask, Internal, Start 1] ?f"
    by (rule run_step [OF _ r_fire]) (simp add: d)
  moreover have "worker_step ?f Internal ?l" by (rule w_lock) (simp_all add: d)
  ultimately have run: "runner_run tp_begin_resume demo_new [Internal, Ask, Internal, Start 1] ?l"
    by (meson run_step r_worker)
  have "worker_step ?l (JobRan (channel ?l)) (job_returned (backend ?l, Returned 1) demo_interrupt ?l)"
    by (rule w_job [where job = demo_job]) (simp_all add: demo_job_def)
  moreover have "job_returned (backend ?l, Returned 1) demo_interrupt ?l = demo_ran"
    by (simp add: job_returned_def demo_ran_def)
  moreover have "channel ?l = 1" by (simp add: d)
  ultimately have run2: "runner_run tp_begin_resume demo_new [JobRan 1, Internal, Ask, Internal, Start 1] demo_ran"
    using run by (metis run_step r_worker)
  have "worker_step demo_ran (Replaced (channel demo_ran)) (replace_result (backend demo_ran, Returned 2) demo_ran)"
    by (rule w_replace [where r = 1 and oni = demo_interrupt]) (simp_all add: demo_ran_def d demo_interrupt_def)
  moreover have "channel demo_ran = 1" by (simp add: demo_ran_def d)
  ultimately show ?thesis using run2 by (metis run_step r_worker)
qed

theorem interrupt_belongs_to_job_witness:
  "\<exists>tr1 tr2. [JobRan 1, Internal, Ask, Internal, Start 1] = tr1 @ (Start 1 :: nat label) # tr2
     \<and> Ask \<in> set tr1 \<and> (\<forall>l\<in>set tr1. \<not> is_start l)"
  by (rule interrupt_belongs_to_job [OF demo_run_interrupted [unfolded demo_new_def]])

text \<open>The same job uninterrupted, up to its delivery.\<close>

lemma demo_run_kept:
  "\<exists>s'. runner_run tp_begin_resume demo_started
     [Internal, Published 1 (Inr 1), Internal, Kept 1, JobRan 1, Internal] s' \<and> inbox s' = Some (Inr 1)
     \<and> channel s' = 1 \<and> \<not> asking s' \<and> \<not> in_flight s'"
proof -
  let ?l = "demo_started\<lparr>guard_held := True, worker := Locked demo_job demo_interrupt\<rparr>"
  let ?r = "job_returned (backend ?l, Returned 1) demo_interrupt ?l"
  let ?k = "keep_result 1 ?r" let ?d = "?k\<lparr>worker := Detached (Inr 1)\<rparr>"
  let ?p = "publish_idle (Inr 1) ?d" let ?s = "send_result (1, Inr 1) ?p"
  note d = demo_started_simps job_returned_def keep_result_def publish_idle_def send_result_def
  have "worker_step demo_started Internal ?l" by (rule w_lock) (simp_all add: d)
  moreover have "worker_step ?l (JobRan 1) ?r"
    using w_job [of ?l demo_job demo_interrupt "(backend ?l, Returned 1)"] by (simp add: d demo_job_def)
  moreover have "worker_step ?r (Kept 1) ?k" using w_keep [of ?r 1 demo_interrupt] by (simp add: d)
  moreover have "worker_step ?k Internal ?d" by (rule w_drop) (simp add: d)
  moreover have "worker_step ?d (Published 1 (Inr 1)) ?p" using w_idle [of ?d "Inr 1"] by (simp add: d)
  moreover have "worker_step ?p Internal ?s" by (rule w_send) (simp add: d)
  ultimately have "runner_run tp_begin_resume demo_started
     [Internal, Published 1 (Inr 1), Internal, Kept 1, JobRan 1, Internal] ?s"
    by (meson run_nil run_step r_worker)
  moreover have "inbox ?s = Some (Inr 1)" "channel ?s = 1" "\<not> asking ?s" "\<not> in_flight ?s"
    by (simp_all add: d in_flight_def)
  ultimately show ?thesis by blast
qed

theorem uninterrupted_job_outcome_witness:
  "\<exists>b c. demo_job (tp_begin_resume (backend demo_new)) = Some (b, c) \<and> Inr 1 = outcome_of c"
proof -
  obtain s' where "runner_run tp_begin_resume demo_started
     [Internal, Published 1 (Inr 1), Internal, Kept 1, JobRan 1, Internal] s'" using demo_run_kept by blast
  from uninterrupted_job_outcome [OF demo_started_simps(1) this, of "Inr 1"] show ?thesis
    by (simp add: demo_started_simps map_filter_simps)
qed

lemma runner_run_append:
  "runner_run prep s1 tr2 s2 \<Longrightarrow> runner_run prep s0 tr1 s1 \<Longrightarrow> runner_run prep s0 (tr2 @ tr1) s2"
  by (induction rule: runner_run.induct) (auto intro: run_step)

lemma demo_run_delivered:
  "\<exists>s'. runner_run tp_begin_resume demo_new
     [Delivered 1 (Inr 1), Internal, Published 1 (Inr 1), Internal, Kept 1, JobRan 1, Internal, Start 1] s' \<and> \<not> in_flight s'"
proof -
  from demo_run_kept obtain s1 where s1: "runner_run tp_begin_resume demo_started
     [Internal, Published 1 (Inr 1), Internal, Kept 1, JobRan 1, Internal] s1" "inbox s1 = Some (Inr 1)"
     "channel s1 = 1" "\<not> asking s1" "\<not> in_flight s1" by blast
  have "runner_step tp_begin_resume s1 (Delivered (channel s1) (Inr 1)) (s1\<lparr>inbox := None\<rparr>)"
    using s1 by (intro r_take) (simp_all add: take_result_def)
  with s1 runner_run_append [OF s1(1) demo_run_start]
  have "runner_run tp_begin_resume demo_new
     [Delivered 1 (Inr 1), Internal, Published 1 (Inr 1), Internal, Kept 1, JobRan 1, Internal, Start 1] (s1\<lparr>inbox := None\<rparr>)"
    by (metis append.simps run_step)
  moreover have "\<not> in_flight (s1\<lparr>inbox := None\<rparr>)" using s1(5) by (simp add: in_flight_def)
  ultimately show ?thesis by blast
qed

theorem idle_means_backend_free_witness:
  "\<exists>s :: (sim ttd_process, nat) runner. runner_run tp_begin_resume demo_new
     [Delivered 1 (Inr 1), Internal, Published 1 (Inr 1), Internal, Kept 1, JobRan 1, Internal, Start 1] s
     \<and> into_backend s = Some (backend s)"
  using demo_run_delivered idle_means_backend_free unfolding demo_new_def by metis

theorem results_delivered_once_witness:
  "set (deliveries [Delivered 1 (Inr 1), Internal, Published 1 (Inr 1), Internal, Kept 1, JobRan 1, Internal, Start 1 :: nat label])
     \<subseteq> set (publications [Delivered 1 (Inr 1), Internal, Published 1 (Inr 1), Internal, Kept 1, JobRan 1, Internal, Start 1])"
  using demo_run_delivered results_delivered_once unfolding demo_new_def by metis

theorem started_job_delivers_witness:
  "\<exists>s'. worker_alone\<^sup>*\<^sup>* demo_started s' \<and> \<not> in_flight s' \<and> inbox s' \<noteq> None"
proof -
  have h: "runner_inv demo_started" "in_flight demo_started" "closures_return (worker demo_started)"
    by (simp_all add: runner_inv_def in_flight_def demo_started_simps demo_job_def demo_interrupt_def)
  from started_job_delivers [OF h] show ?thesis by blast
qed

end
