(* ===== verification/Monitor.thy ===== *)
theory Monitor
  imports Debug_Target Packet
begin

text \<open>
  The \<open>monitor ttd\<close> commands (\<open>gdb/monitor.rs\<close>): text rendered from the target's diagnostics. Rendering
  queries the target, so it returns it; a diagnostics call that panics makes the command panic. The
  theorems: a command leaves the target where it was, a memory dump is bounded, and the module lookup
  is the half-open interval of exact integers although the code works on wrapping words.
\<close>

section \<open>Text\<close>

definition ln :: "string \<Rightarrow> string" where
  "ln s = s @ [CHR 0x0A]"

definition quoted :: "string \<Rightarrow> string" where
  "quoted s = [CHR 0x27] @ s @ [CHR 0x27]"

definition hex0x :: "nat \<Rightarrow> string" where
  "hex0x n = ''0x'' @ fmt_hex n"

definition USAGE :: string where
  "USAGE = ''supported: ttd info | ttd threads | ttd module <addr> | ttd mem <addr> [len] | ttd events [n] | ttd stats''"

definition DEFAULT_MEM_LEN :: nat where "DEFAULT_MEM_LEN = 16"
definition MEM_LEN_CAP :: nat where "MEM_LEN_CAP = 256"
definition MEM_RANGES_CAP :: u32 where "MEM_RANGES_CAP = 16"

definition PKG_VERSION :: string where "PKG_VERSION = ''0.1.0''"

section \<open>\<open>f64\<close>\<close>

text \<open>
  The ratio printed by \<open>stats\<close>: both counters converted to \<open>f64\<close>, divided, and printed to three
  decimals. Each step rounds to the nearest, ties to even; the values are far inside the normal range.
\<close>

definition round_even :: "nat \<Rightarrow> nat \<Rightarrow> nat" where
  "round_even n d =
     (let q = n div d; r = n mod d
      in if 2 * r < d \<or> (2 * r = d \<and> even q) then q else q + 1)"

definition bit_length :: "nat \<Rightarrow> nat" where
  "bit_length n = length (takeWhile (\<lambda>k. 2 ^ k \<le> n) [0..<256])"

definition f64_of :: "nat \<Rightarrow> nat" where
  "f64_of n = (let k = bit_length n - 53 in round_even n (2 ^ k) * 2 ^ k)"

text \<open>The quotient as a numerator over \<open>2 ^ 117\<close>.\<close>

definition f64_div :: "nat \<Rightarrow> nat \<Rightarrow> nat" where
  "f64_div a b =
     (let k = bit_length (a * 2 ^ 117 div b) - 53 in round_even (a * 2 ^ 117) (b * 2 ^ k) * 2 ^ k)"

definition fmt_ratio :: "u64 \<Rightarrow> u64 \<Rightarrow> string" where
  "fmt_ratio a b =
     (let m = round_even (f64_div (f64_of (unat a)) (f64_of (unat b)) * 1000) (2 ^ 117)
      in fmt_dec (m div 1000) @ ''.'' @ pad_left 3 (CHR ''0'') (fmt_dec (m mod 1000)))"

section \<open>Subcommands\<close>

fun index_status_label :: "index_status \<Rightarrow> string" where
  "index_status_label IndexLoaded = ''loaded''"
| "index_status_label IndexNotPresent = ''missing (memory reads are unreliable)''"
| "index_status_label IndexUnloadable = ''unusable (memory reads are unreliable)''"
| "index_status_label IndexUnknown = ''unknown (memory reads may be unreliable)''"

definition monitor_info :: "target_diagnostics \<Rightarrow> string" where
  "monitor_info d =
     ln ''trace: loaded (TTD replay engine)''
   @ ln (''version: '' @ PKG_VERSION)
   @ ln (''lifetime: '' @ position_display (diag_first d) @ '' .. '' @ position_display (diag_last d))
   @ ln (''current: '' @ position_display (diag_current d))
   @ ln (''index: '' @ index_status_label (diag_index_status d))
   @ ln (''modules: '' @ fmt_dec (unat (diag_module_count d)))
   @ ln (''threads (lifetime): '' @ fmt_dec (length (diag_threads d)))
   @ ln (''exception events: '' @ fmt_dec (unat (diag_exception_count d)))"

definition thread_row :: "thread_diagnostics \<Rightarrow> string" where
  "thread_row t =
     (let pos = (\<lambda>p. pad_left 9 (CHR '' '') (fmt_hex (unat (seq_id p))) @ '':'' @ pad_left 4 (CHR ''0'') (fmt_hex (unat (steps p))))
      in pad_left 6 (CHR '' '') (fmt_dec (unat (td_unique_id t))) @ ''  0x''
         @ pad_left 8 (CHR ''0'') (fmt_hex (unat (td_os_thread_id t))) @ ''  ''
         @ pos (fst (td_active_time t)) @ ''  '' @ pos (snd (td_active_time t)))"

definition monitor_threads :: "target_diagnostics \<Rightarrow> string" where
  "monitor_threads d =
     ln (pad_left 6 (CHR '' '') ''UTID'' @ ''  '' @ pad_left 10 (CHR '' '') ''OS_TID'' @ ''  ''
         @ pad_left 14 (CHR '' '') ''active_min'' @ ''  '' @ pad_left 14 (CHR '' '') ''active_max'')
   @ concat (map (\<lambda>t. ln (thread_row t)) (diag_threads d))"

definition parse_hex :: "string \<Rightarrow> u64 option" where
  "parse_hex text =
     from_str_radix 16
       (case strip_prefix ''0x'' text of
          Some h \<Rightarrow> h
        | None \<Rightarrow> (case strip_prefix ''0X'' text of Some h \<Rightarrow> h | None \<Rightarrow> text))"

definition module_contains :: "u64 \<Rightarrow> module_info \<Rightarrow> bool" where
  "module_contains addr m \<longleftrightarrow> addr \<ge> base_addr m \<and> addr - base_addr m < mod_size m"

definition monitor_module :: "string option \<Rightarrow> module_info list \<Rightarrow> string" where
  "monitor_module arg modules =
     (case arg of
        None \<Rightarrow> ln ''usage: monitor ttd module <hex-addr>''
      | Some rest \<Rightarrow>
          (case parse_hex rest of
             None \<Rightarrow> ln (''ttd: bad address '' @ quoted rest)
           | Some addr \<Rightarrow>
               (case find (module_contains addr) modules of
                  Some m \<Rightarrow>
                    ln (hex0x (unat (base_addr m)) @ ''..'' @ hex0x (unat (saturating_add (base_addr m) (mod_size m)))
                        @ '' (+'' @ hex0x (unat (mod_size m)) @ '') '' @ mod_name m)
                | None \<Rightarrow> ln (''no module contains '' @ hex0x (unat addr)))))"

text \<open>\<open>TraceView::read_memory_ranges\<close>.\<close>

definition view_read_memory_ranges ::
  "'t target_ops \<Rightarrow> u64 \<Rightarrow> nat \<Rightarrow> 't \<Rightarrow> 't \<times> u8 list \<times> memory_range list" where
  "view_read_memory_ranges dt addr len t =
     (let (t', buf, n, ranges) = dt_read_memory_ranges dt addr (replicate len 0) MEM_RANGES_CAP t
      in (t', take n buf, ranges))"

definition mem_len :: "string list \<Rightarrow> (string, nat) result" where
  "mem_len args =
     (case args of
        _ # s # _ \<Rightarrow>
          (case from_str_radix 10 s of
             Some v \<Rightarrow> if 0 < unat v \<and> unat v \<le> MEM_LEN_CAP then Inr (unat v) else Inl s
           | None \<Rightarrow> Inl s)
      | _ \<Rightarrow> Inr DEFAULT_MEM_LEN)"

definition range_row :: "memory_range \<Rightarrow> string" where
  "range_row r = ''  '' @ hex0x (unat (mr_address r)) @ '' +'' @ hex0x (unat (mr_size r)) @ '' seq '' @ hex0x (unat (mr_sequence r))"

fun join :: "string \<Rightarrow> string list \<Rightarrow> string" where
  "join sep [] = []"
| "join sep [x] = x"
| "join sep (x # xs) = x @ sep @ join sep xs"

definition mem_text :: "u64 \<Rightarrow> nat \<Rightarrow> position \<Rightarrow> u8 list \<Rightarrow> memory_range list \<Rightarrow> string" where
  "mem_text addr len current bytes ranges =
     ln (hex0x (unat addr) @ '': '' @ fmt_dec (length bytes) @ '' of '' @ fmt_dec len @ '' byte(s) at '' @ position_display current)
   @ (if ranges = [] then ln ''  provenance unavailable (backend cannot attribute bytes to a position)''
      else concat (map (\<lambda>r. ln (range_row r)) ranges)
        @ (if length ranges = unat MEM_RANGES_CAP then ln (''  (range list capped at '' @ fmt_dec (unat MEM_RANGES_CAP) @ '')'') else []))
   @ (if bytes = [] then []
      else ln (''  bytes: '' @ join '' '' (map (\<lambda>b. pad_left 2 (CHR ''0'') (fmt_hex (unat b))) bytes)))"

definition monitor_mem :: "'t target_ops \<Rightarrow> string list \<Rightarrow> 't \<Rightarrow> ('t \<times> string) run" where
  "monitor_mem dt args t =
     (case args of
        [] \<Rightarrow> Ret (t, ln ''usage: monitor ttd mem <hex-addr> [len]'')
      | rest # _ \<Rightarrow>
          (case parse_hex rest of
             None \<Rightarrow> Ret (t, ln (''ttd: bad address '' @ quoted rest))
           | Some addr \<Rightarrow>
               (case mem_len args of
                  Inl s \<Rightarrow> Ret (t, ln (''ttd: bad length '' @ quoted s @ '' (1..='' @ fmt_dec MEM_LEN_CAP @ '')''))
                | Inr len \<Rightarrow>
                    (case dt_diagnostics dt t of
                       Ret d \<Rightarrow>
                         (let (t', bytes, ranges) = view_read_memory_ranges dt addr len t
                          in Ret (t', mem_text addr len (diag_current d) bytes ranges))
                     | Panic m \<Rightarrow> Panic m
                     | Spin \<Rightarrow> Spin))))"

definition monitor_stats :: "target_stats \<Rightarrow> string" where
  "monitor_stats s =
     ln (''queries: '' @ fmt_dec (unat (queries s)))
   @ ln (''cursor seeks: '' @ fmt_dec (unat (cursor_seeks s)))
   @ ln (''steps: '' @ fmt_dec (unat (steps_done s)))
   @ ln (''replays: '' @ fmt_dec (unat (replays s)))
   @ ln (''watchpoint adds: '' @ fmt_dec (unat (stat_watchpoint_adds s)))
   @ ln (''watchpoint removes: '' @ fmt_dec (unat (stat_watchpoint_removes s)))
   @ (if queries s > 0 then ln (''seeks per query: '' @ fmt_ratio (cursor_seeks s) (queries s)) else [])"

definition event_row :: "exception_info \<Rightarrow> string" where
  "event_row ev =
     ''0x'' @ pad_left 8 (CHR ''0'') (fmt_hex (unat (code ev))) @ '' at '' @ hex0x (unat (record_address ev))
     @ '' (pc '' @ hex0x (unat (program_counter ev)) @ '') pos '' @ position_display (ex_position ev)"

definition monitor_events :: "string option \<Rightarrow> exception_info list \<Rightarrow> string" where
  "monitor_events arg evs =
     (case (case arg of None \<Rightarrow> Inr 20 | Some s \<Rightarrow> (case from_str_radix 10 s of None \<Rightarrow> Inl s | Some v \<Rightarrow> Inr (unat v))) of
        Inl s \<Rightarrow> ln (''ttd: bad event count '' @ quoted s)
      | Inr n \<Rightarrow>
          ln (''exception events: '' @ fmt_dec (length evs) @ '' (showing up to '' @ fmt_dec n @ '')'')
          @ concat (map (\<lambda>ev. ln (event_row ev)) (take n evs)))"

definition first_word :: "string list \<Rightarrow> string" where
  "first_word ws = (case ws of [] \<Rightarrow> [] | w # _ \<Rightarrow> w)"

definition first_arg :: "string list \<Rightarrow> string option" where
  "first_arg ws = (case ws of [] \<Rightarrow> None | w # _ \<Rightarrow> Some w)"

definition with_diagnostics :: "'t target_ops \<Rightarrow> (target_diagnostics \<Rightarrow> string) \<Rightarrow> 't \<Rightarrow> ('t \<times> string) run" where
  "with_diagnostics dt f t =
     (case dt_diagnostics dt t of Ret d \<Rightarrow> Ret (t, f d) | Panic m \<Rightarrow> Panic m | Spin \<Rightarrow> Spin)"

definition render :: "'t target_ops \<Rightarrow> string \<Rightarrow> 't \<Rightarrow> ('t \<times> string) run" where
  "render dt cmd t =
     (let ws = split_whitespace cmd; head = first_word ws in
      if head \<noteq> ''ttd'' then Ret (t, ln (''ttd-gdbserver: unknown monitor subcommand '' @ quoted head) @ ln USAGE)
      else let sub = first_word (tl ws); args = tl (tl ws) in
        if sub = ''info'' then with_diagnostics dt monitor_info t
        else if sub = ''threads'' then with_diagnostics dt monitor_threads t
        else if sub = ''module'' then Ret (t, monitor_module (first_arg args) (dt_modules dt t))
        else if sub = ''mem'' then monitor_mem dt args t
        else if sub = ''events'' then Ret (t, monitor_events (first_arg args) (dt_exceptions dt t))
        else if sub = ''stats'' then Ret (t, monitor_stats (dt_stats dt t))
        else Ret (t, ln (''ttd: unknown subcommand '' @ quoted sub) @ ln USAGE))"

section \<open>A command does not move the target\<close>

lemma render_target:
  assumes "render dt cmd t = Ret (t', reply)"
  shows "t' = t \<or> (\<exists>addr len. 0 < len \<and> len \<le> MEM_LEN_CAP \<and> t' = fst (view_read_memory_ranges dt addr len t))"
proof (cases "t' = t")
  case False
  have "\<exists>args. monitor_mem dt args t = Ret (t', reply)"
    using assms False by (auto simp: render_def Let_def with_diagnostics_def split: if_splits run.splits)
  then obtain args where m: "monitor_mem dt args t = Ret (t', reply)" by blast
  then obtain addr len where ml: "mem_len args = Inr len" and t': "t' = fst (view_read_memory_ranges dt addr len t)"
    using False by (auto simp: monitor_mem_def split_beta Let_def split: list.splits option.splits sum.splits run.splits)
  from ml have "0 < len" "len \<le> MEM_LEN_CAP"
    by (auto simp: mem_len_def DEFAULT_MEM_LEN_def MEM_LEN_CAP_def split: list.splits option.splits if_splits)
  with t' show ?thesis by blast
qed simp

context debug_target
begin

lemma view_inv: "inv t \<Longrightarrow> inv (fst (view_read_memory_ranges dt addr len t))"
  using read_memory_ranges_inv [of t addr "replicate len 0" MEM_RANGES_CAP]
  by (simp add: view_read_memory_ranges_def split_beta Let_def)

lemma view_pos: "dt_position dt (fst (view_read_memory_ranges dt addr len t)) = dt_position dt t"
  using read_memory_ranges_pos [of addr "replicate len 0" MEM_RANGES_CAP t]
  by (simp add: view_read_memory_ranges_def split_beta Let_def)

lemma render_keeps:
  assumes "inv t" and "render dt cmd t = Ret (t', reply)"
  shows "inv t' \<and> dt_position dt t' = dt_position dt t"
  using render_target [OF assms(2)] assms(1) view_inv view_pos by blast

end

context total_target
begin

lemma render_returns:
  assumes "inv t"
  shows "\<exists>t' reply. render dt cmd t = Ret (t', reply)"
proof -
  obtain d where "dt_diagnostics dt t = Ret d" using diagnostics_return [OF assms] by blast
  then show ?thesis
    by (auto simp: render_def Let_def with_diagnostics_def monitor_mem_def split_beta split: list.split option.split sum.split)
qed

end

text \<open>
  A \<open>monitor\<close> command is an observation: on an engine that keeps its contract, for any command reply
  the debug process keeps its invariant and its position, and the command either does not query memory
  at all or reads between 1 and 256 bytes.
\<close>

theorem monitor_only_observes:
  assumes "process_inv ca watched p" and "engine_contract ca watched"
    and "render (ttd_target ca arrived) cmd p = Ret (q, reply)"
  shows "process_inv ca watched q \<and> tp_position q = tp_position p
    \<and> (q = p \<or> (\<exists>addr len. 0 < len \<and> len \<le> 256
         \<and> q = fst (tp_read_memory_ranges ca addr (replicate len 0) MEM_RANGES_CAP p)))"
proof -
  have "process_inv ca watched q \<and> tp_position q = tp_position p"
    using debug_target.render_keeps [OF ttd_debug_target [OF assms(2), of arrived] assms(1,3)] by simp
  moreover have "q = p \<or> (\<exists>addr len. 0 < len \<and> len \<le> 256
         \<and> q = fst (tp_read_memory_ranges ca addr (replicate len 0) MEM_RANGES_CAP p))"
    using render_target [OF assms(3)] by (simp add: MEM_LEN_CAP_def view_read_memory_ranges_def split_beta Let_def)
  ultimately show ?thesis by blast
qed

theorem monitor_only_observes_witness:
  "\<exists>q reply. render (ttd_target sim_api (\<lambda>_. 0)) ''ttd stats'' sim_process = Ret (q, reply)
     \<and> tp_position q = sim_position 0 \<and> process_inv sim_api (\<lambda>c. set (sim_keys c)) q"
proof -
  have "(case render (ttd_target sim_api (\<lambda>_. 0)) ''ttd stats'' sim_process of Ret _ \<Rightarrow> True | _ \<Rightarrow> False)"
    by code_simp
  then obtain q reply where r: "render (ttd_target sim_api (\<lambda>_. 0)) ''ttd stats'' sim_process = Ret (q, reply)"
    by (auto split: run.splits)
  from monitor_only_observes [OF sim_process_inv sim_contract r] r show ?thesis
    by (simp add: sim_process_def Let_def)
qed

section \<open>Module lookup\<close>

lemma module_contains_interval:
  "module_contains addr m \<longleftrightarrow> unat (base_addr m) \<le> unat addr \<and> unat addr < unat (base_addr m) + unat (mod_size m)"
  by (auto simp: module_contains_def word_le_nat_alt word_less_nat_alt unat_sub)

text \<open>
  \<open>monitor ttd module\<close> resolves an address as on exact integers, also for a module range that runs
  past the end of the address space: it names the first module of the list whose half-open interval
  contains the address, and says that there is none exactly when no interval does.
\<close>

theorem module_lookup_exact:
  assumes "parse_hex arg = Some addr"
  shows "(monitor_module (Some arg) modules = ln (''no module contains '' @ hex0x (unat addr)))
      \<or> (\<exists>m pre post. modules = pre @ m # post
           \<and> unat (base_addr m) \<le> unat addr \<and> unat addr < unat (base_addr m) + unat (mod_size m)
           \<and> (\<forall>k\<in>set pre. \<not> (unat (base_addr k) \<le> unat addr \<and> unat addr < unat (base_addr k) + unat (mod_size k)))
           \<and> monitor_module (Some arg) modules =
               ln (hex0x (unat (base_addr m)) @ ''..'' @ hex0x (min (unat (base_addr m) + unat (mod_size m)) (2 ^ 64 - 1))
                   @ '' (+'' @ hex0x (unat (mod_size m)) @ '') '' @ mod_name m))"
    and "(\<forall>m\<in>set modules. \<not> (unat (base_addr m) \<le> unat addr \<and> unat addr < unat (base_addr m) + unat (mod_size m)))
      \<longleftrightarrow> monitor_module (Some arg) modules = ln (''no module contains '' @ hex0x (unat addr))"
proof -
  let ?in = "module_contains addr"
  have reply: "monitor_module (Some arg) modules =
      (case find ?in modules of
         Some m \<Rightarrow> ln (hex0x (unat (base_addr m)) @ ''..'' @ hex0x (min (unat (base_addr m) + unat (mod_size m)) (2 ^ 64 - 1))
                   @ '' (+'' @ hex0x (unat (mod_size m)) @ '') '' @ mod_name m)
       | None \<Rightarrow> ln (''no module contains '' @ hex0x (unat addr)))"
    using assms by (simp add: monitor_module_def unat_saturating_add split: option.split)
  show "(monitor_module (Some arg) modules = ln (''no module contains '' @ hex0x (unat addr)))
      \<or> (\<exists>m pre post. modules = pre @ m # post
           \<and> unat (base_addr m) \<le> unat addr \<and> unat addr < unat (base_addr m) + unat (mod_size m)
           \<and> (\<forall>k\<in>set pre. \<not> (unat (base_addr k) \<le> unat addr \<and> unat addr < unat (base_addr k) + unat (mod_size k)))
           \<and> monitor_module (Some arg) modules =
               ln (hex0x (unat (base_addr m)) @ ''..'' @ hex0x (min (unat (base_addr m) + unat (mod_size m)) (2 ^ 64 - 1))
                   @ '' (+'' @ hex0x (unat (mod_size m)) @ '') '' @ mod_name m))"
  proof (cases "find ?in modules")
    case (Some m)
    then obtain i where i: "i < length modules" "?in (modules ! i)" "m = modules ! i" "\<forall>j<i. \<not> ?in (modules ! j)"
      by (auto simp: find_Some_iff)
    have split: "modules = take i modules @ m # drop (Suc i) modules" using i by (simp add: id_take_nth_drop)
    have pre: "\<forall>k\<in>set (take i modules). \<not> (unat (base_addr k) \<le> unat addr \<and> unat addr < unat (base_addr k) + unat (mod_size k))"
      using i(4) unfolding module_contains_interval by (auto simp: in_set_conv_nth)
    have m: "unat (base_addr m) \<le> unat addr" "unat addr < unat (base_addr m) + unat (mod_size m)"
      using i(2,3) by (simp_all add: module_contains_interval)
    show ?thesis
      by (rule disjI2, intro exI conjI, rule split, rule m(1), rule m(2), rule pre) (simp add: reply Some)
  qed (simp add: reply)
  show "(\<forall>m\<in>set modules. \<not> (unat (base_addr m) \<le> unat addr \<and> unat addr < unat (base_addr m) + unat (mod_size m)))
      \<longleftrightarrow> monitor_module (Some arg) modules = ln (''no module contains '' @ hex0x (unat addr))"
  proof (cases "find ?in modules")
    case None
    then have "\<forall>m\<in>set modules. \<not> ?in m" by (simp add: find_None_all)
    with None show ?thesis unfolding module_contains_interval [symmetric] reply by simp
  next
    case (Some m)
    then have "m \<in> set modules \<and> ?in m" by (rule find_Some_in)
    with Some show ?thesis
      unfolding module_contains_interval [symmetric] reply by (auto simp: ln_def hex0x_def)
  qed
qed

theorem module_lookup_exact_witness:
  "monitor_module (Some ''0xfffffffffffffff0'') [ModuleInfo 0xfffffffffffff000 0x2000 ''high.dll'']
      \<noteq> ln (''no module contains '' @ hex0x (unat (0xfffffffffffffff0 :: u64)))"
proof -
  have p: "parse_hex ''0xfffffffffffffff0'' = Some 0xfffffffffffffff0" by code_simp
  show ?thesis unfolding module_lookup_exact(2) [OF p, symmetric] by simp
qed

end
