(* ===== verification/Gdb_Target.thy ===== *)
theory Gdb_Target
  imports Commands Xml Mapping_Wire Registers Runner Monitor
begin

text \<open>
  The protocol target (\<open>gdb/target.rs\<close> and its submodules): every packet handler the stub calls, over a
  backend behind a \<open>TargetRunner\<close>. The runner's shared state is the backend and the end-state flag the
  worker sets. Handlers that need the backend use the non-blocking access and answer busy while a replay
  is in flight.
\<close>

section \<open>State\<close>

datatype target_error = NonFatal

record 't gdb_target =
  gt_runner :: "('t \<times> bool, multi_stop) runner"
  text_seg :: "u64 option"
  libraries_xml :: string
  gt_resume :: resume_state
  restart_pending :: bool
  checkpoints :: checkpoint_table

definition server_pid :: nat where
  "server_pid = 1"

text \<open>The atomic flag the worker shares, outside the backend's lock.\<close>

definition end_state :: "'t gdb_target \<Rightarrow> bool" where
  "end_state g = snd (backend (gt_runner g))"

definition store_end_state :: "bool \<Rightarrow> 't gdb_target \<Rightarrow> 't gdb_target" where
  "store_end_state e g = g\<lparr>gt_runner := (gt_runner g)\<lparr>backend := (fst (backend (gt_runner g)), e)\<rparr>\<rparr>"

definition shared_modules :: "'t target_ops \<Rightarrow> 't \<Rightarrow> module_info list" where
  "shared_modules dt b =
     filter (\<lambda>m. case dt_main_module dt b of
        None \<Rightarrow> True
      | Some main \<Rightarrow> base_addr main \<noteq> base_addr m \<or> mod_name main \<noteq> mod_name m) (dt_modules dt b)"

definition gdb_target_new ::
  "(string \<Rightarrow> u8 list option) \<Rightarrow> (xml_element \<Rightarrow> string) \<Rightarrow> 't target_ops \<Rightarrow> 't \<Rightarrow> checkpoint_table \<Rightarrow> 't gdb_target" where
  "gdb_target_new opened render_xml dt b cps =
     \<lparr>gt_runner = runner_new (map_option (\<lambda>f (b, e). (f b, e)) (dt_interrupt_handle dt b)) (b, False),
      text_seg = map_option (module_text opened) (dt_main_module dt b),
      libraries_xml = build_libraries_xml opened render_xml (shared_modules dt b),
      gt_resume = resume_default,
      restart_pending = False,
      checkpoints = cps\<rparr>"

definition replay_in_flight :: "'t gdb_target \<Rightarrow> bool" where
  "replay_in_flight g = in_flight (gt_runner g)"

text \<open>\<open>interrupt_replay\<close> when nothing interleaves between its load and its store.\<close>

definition interrupt_replay :: "'t gdb_target \<Rightarrow> 't gdb_target" where
  "interrupt_replay g =
     g\<lparr>gt_runner := (let s = interrupt_check (gt_runner g) in if asking s then interrupt_fire s else s)\<rparr>"

definition into_parts :: "'t gdb_target \<Rightarrow> 't option \<times> checkpoint_table" where
  "into_parts g = (map_option fst (into_backend (gt_runner g)), checkpoints g)"

text \<open>A read of the backend under its lock; \<open>None\<close> when a replay is in flight.\<close>

definition try_backend :: "('t \<Rightarrow> 't \<times> 'q) \<Rightarrow> 't gdb_target \<Rightarrow> ('t gdb_target \<times> 'q) option" where
  "try_backend f g =
     (case try_lock (gt_runner g) of
        None \<Rightarrow> None
      | Some _ \<Rightarrow>
          (let (r, q) = runner_query (\<lambda>(b, e). let (b', q) = f b in ((b', e), q)) (gt_runner g)
           in Some (g\<lparr>gt_runner := r\<rparr>, q)))"

definition map_worker_result ::
  "'t target_ops \<Rightarrow> multi_stop outcome option \<Rightarrow> 't gdb_target \<Rightarrow> 't gdb_target \<times> multi_stop option" where
  "map_worker_result dt result g =
     (case result of
        None \<Rightarrow> (g, None)
      | Some (Inr reason) \<Rightarrow> (g, Some reason)
      | Some (Inl _) \<Rightarrow>
          (let (r, i) = runner_query (\<lambda>(b, e). let (b', i) = stop_tid dt b in ((b', e), i)) (gt_runner g)
           in (g\<lparr>gt_runner := r\<rparr>, Some (SignalWithThread i SIGTRAP))))"

definition take_stop_reason :: "'t target_ops \<Rightarrow> 't gdb_target \<Rightarrow> 't gdb_target \<times> multi_stop option" where
  "take_stop_reason dt g =
     (let (r, x) = take_result (gt_runner g) in map_worker_result dt x (g\<lparr>gt_runner := r\<rparr>))"

section \<open>Resuming\<close>

definition select_then :: "'t target_ops \<Rightarrow> tid \<Rightarrow> ('t \<Rightarrow> 'a) \<Rightarrow> 't \<Rightarrow> 'a" where
  "select_then dt i f b = f (dt_set_current_thread dt (from_wire_tid i) b)"

fun execute_op :: "'t target_ops \<Rightarrow> replay_op \<Rightarrow> ('t, stop_reason) target_verb" where
  "execute_op dt OpContinue b = dt_continue_forward dt b"
| "execute_op dt (OpStep i) b = select_then dt i (dt_step dt) b"
| "execute_op dt OpBackwardContinue b = dt_continue_backward dt b"
| "execute_op dt (OpBackwardStep i) b = select_then dt i (dt_step_back dt) b"
| "execute_op dt (OpRangeStep i start stop) b =
     select_then dt i (dt_step_range dt (Some (from_wire_tid i)) start stop) b"

text \<open>
  The worker's job: the operation, the end-state flag, the mapped stop. A panic inside the operation
  unwinds the job.
\<close>

definition replay_job :: "'t target_ops \<Rightarrow> replay_op \<Rightarrow> ('t \<times> bool, multi_stop) job" where
  "replay_job dt op be =
     (case execute_op dt op (fst be) of
        Spin \<Rightarrow> None
      | Panic s \<Rightarrow> Some (be, Panicked (PayloadString s))
      | Ret (b1, reason) \<Rightarrow>
          (let e1 = (if is_forward op \<and> reason = Inr ProcessExit then True else snd be);
               (b2, stop) = map_stop_reason dt reason b1
           in Some ((b2, e1), Returned stop)))"

definition signal_job :: "'t target_ops \<Rightarrow> signal \<Rightarrow> ('t \<times> bool, multi_stop) job" where
  "signal_job dt sig be =
     (let (b, i) = stop_tid dt (fst be) in Some ((b, snd be), Returned (SignalWithThread i sig)))"

definition exit_job :: "('t \<times> bool, multi_stop) job" where
  "exit_job be = Some (be, Returned (Exited 0))"

definition start_job ::
  "'t target_ops \<Rightarrow> ('t \<times> bool, multi_stop) job \<Rightarrow> ('t \<times> bool, multi_stop) job \<Rightarrow> 't gdb_target
     \<Rightarrow> 't gdb_target \<times> (debug_error, unit) result" where
  "start_job dt job on_interrupt g =
     (let (r, accepted) = runner_start (\<lambda>(b, e). (dt_begin_resume dt b, e)) job on_interrupt (gt_runner g)
      in (g\<lparr>gt_runner := r\<rparr>, if accepted then Inr () else Inl ReplayAlreadyRunning))"

definition spawn_position_stop :: "'t target_ops \<Rightarrow> 't gdb_target \<Rightarrow> 't gdb_target \<times> (debug_error, unit) result" where
  "spawn_position_stop dt = start_job dt (signal_job dt SIGTRAP) (signal_job dt SIGTRAP)"

definition spawn_exit_reply :: "'t target_ops \<Rightarrow> 't gdb_target \<Rightarrow> 't gdb_target \<times> (debug_error, unit) result" where
  "spawn_exit_reply dt = start_job dt exit_job exit_job"

definition clear_end_state :: "'t gdb_target \<Rightarrow> 't gdb_target" where
  "clear_end_state g = store_end_state False g"

definition note_restart :: "'t gdb_target \<Rightarrow> 't gdb_target" where
  "note_restart g = g\<lparr>restart_pending := True\<rparr>"

definition spawn_replay ::
  "'t target_ops \<Rightarrow> replay_op \<Rightarrow> 't gdb_target \<Rightarrow> 't gdb_target \<times> (debug_error, unit) result" where
  "spawn_replay dt op g =
     (let g1 = g\<lparr>restart_pending := False\<rparr> in
      if restart_pending g \<and> is_forward op then spawn_position_stop dt g1
      else if end_state g1 then
        (if is_forward op then spawn_exit_reply dt g1
         else start_job dt (replay_job dt op) (signal_job dt SIGINT) (store_end_state False g1))
      else start_job dt (replay_job dt op) (signal_job dt SIGINT) g1)"

section \<open>Base operations\<close>

definition read_registers ::
  "'t target_ops \<Rightarrow> tid \<Rightarrow> 't gdb_target \<Rightarrow> 't gdb_target \<times> (target_error, ttd_registers) result" where
  "read_registers dt i g =
     (case try_backend (dt_thread_state dt (Some (from_wire_tid i))) g of
        None \<Rightarrow> (g, Inl NonFatal)
      | Some (g', None) \<Rightarrow> (g', Inl NonFatal)
      | Some (g', Some (regs, teb)) \<Rightarrow> (g', Inr (from_ttd regs teb)))"

text \<open>Writes are refused: replay is read-only.\<close>

definition write_registers :: "ttd_registers \<Rightarrow> tid \<Rightarrow> 't gdb_target \<Rightarrow> 't gdb_target \<times> (target_error, unit) result" where
  "write_registers regs i g = (g, Inl NonFatal)"

definition write_addrs :: "u64 \<Rightarrow> u8 list \<Rightarrow> tid \<Rightarrow> 't gdb_target \<Rightarrow> 't gdb_target \<times> (target_error, unit) result" where
  "write_addrs addr data i g = (g, Inl NonFatal)"

definition write_register :: "tid \<Rightarrow> ttd_reg_id \<Rightarrow> u8 list \<Rightarrow> 't gdb_target \<Rightarrow> 't gdb_target \<times> (target_error, unit) result" where
  "write_register i reg v g = (g, Inl NonFatal)"

definition read_addrs ::
  "'t target_ops \<Rightarrow> u64 \<Rightarrow> u8 list \<Rightarrow> tid \<Rightarrow> 't gdb_target \<Rightarrow> 't gdb_target \<times> u8 list \<times> (target_error, nat) result" where
  "read_addrs dt addr data i g =
     (case try_backend (dt_read_memory dt addr data) g of
        None \<Rightarrow> (g, data, Inl NonFatal)
      | Some (g', data', n) \<Rightarrow> (g', data', if n = 0 \<and> data \<noteq> [] then Inl NonFatal else Inr n))"

definition list_active_threads :: "'t target_ops \<Rightarrow> 't gdb_target \<Rightarrow> 't gdb_target \<times> tid list" where
  "list_active_threads dt g =
     (case try_backend (dt_active_thread_ids dt) g of
        None \<Rightarrow> (g, [])
      | Some (g', ids) \<Rightarrow> (g', List.map_filter to_wire_tid ids))"

definition read_register ::
  "'t target_ops \<Rightarrow> tid \<Rightarrow> ttd_reg_id \<Rightarrow> u8 list \<Rightarrow> 't gdb_target
     \<Rightarrow> ('t gdb_target \<times> u8 list \<times> (target_error, nat) result) run" where
  "read_register dt i reg buf g =
     (case try_backend (dt_thread_state dt (Some (from_wire_tid i))) g of
        None \<Rightarrow> Ret (g, buf, Inl NonFatal)
      | Some (g', None) \<Rightarrow> Ret (g', buf, Inl NonFatal)
      | Some (g', Some (regs, teb)) \<Rightarrow>
          (case read_register_value reg (from_ttd regs teb) buf of
             RegOk (buf', n) \<Rightarrow> Ret (g', buf', Inr n)
           | RegNone \<Rightarrow> Ret (g', buf, Inl NonFatal)
           | RegPanics \<Rightarrow> Panic ''index out of bounds''))"

definition gt_resume_op :: "'t target_ops \<Rightarrow> 't gdb_target \<Rightarrow> 't gdb_target \<times> (debug_error, unit) result" where
  "gt_resume_op dt g =
     (let (rs, op) = resume_take (gt_resume g) in spawn_replay dt op (g\<lparr>gt_resume := rs\<rparr>))"

definition clear_resume_actions :: "'t gdb_target \<Rightarrow> 't gdb_target" where
  "clear_resume_actions g = g\<lparr>gt_resume := resume_clear (gt_resume g)\<rparr>"

definition set_resume_action_continue :: "tid \<Rightarrow> 't gdb_target \<Rightarrow> 't gdb_target" where
  "set_resume_action_continue i g = g\<lparr>gt_resume := set_continue (gt_resume g)\<rparr>"

definition set_resume_action_step :: "tid \<Rightarrow> 't gdb_target \<Rightarrow> 't gdb_target" where
  "set_resume_action_step i g = g\<lparr>gt_resume := set_step i (gt_resume g)\<rparr>"

definition set_resume_action_range_step :: "tid \<Rightarrow> u64 \<Rightarrow> u64 \<Rightarrow> 't gdb_target \<Rightarrow> 't gdb_target" where
  "set_resume_action_range_step i start stop g = g\<lparr>gt_resume := set_range_step i start stop (gt_resume g)\<rparr>"

definition set_resume_action_scheduler_lock :: "'t gdb_target \<Rightarrow> 't gdb_target" where
  "set_resume_action_scheduler_lock g = g"

definition reverse_cont :: "'t target_ops \<Rightarrow> 't gdb_target \<Rightarrow> 't gdb_target \<times> (debug_error, unit) result" where
  "reverse_cont dt g = spawn_replay dt OpBackwardContinue g"

definition reverse_step :: "'t target_ops \<Rightarrow> tid \<Rightarrow> 't gdb_target \<Rightarrow> 't gdb_target \<times> (debug_error, unit) result" where
  "reverse_step dt i g = spawn_replay dt (OpBackwardStep i) g"

section \<open>Breakpoints\<close>

definition inserted :: "('t gdb_target \<times> (debug_error, u64) result) option \<Rightarrow> 't gdb_target \<Rightarrow> 't gdb_target \<times> (target_error, bool) result" where
  "inserted r g = (case r of None \<Rightarrow> (g, Inl NonFatal) | Some (g', Inr _) \<Rightarrow> (g', Inr True) | Some (g', Inl _) \<Rightarrow> (g', Inr False))"

definition deleted :: "('t gdb_target \<times> bool) option \<Rightarrow> 't gdb_target \<Rightarrow> 't gdb_target \<times> (target_error, bool) result" where
  "deleted r g = (case r of None \<Rightarrow> (g, Inl NonFatal) | Some (g', _) \<Rightarrow> (g', Inr True))"

definition add_sw_breakpoint where
  "add_sw_breakpoint dt addr g = inserted (try_backend (dt_set_breakpoint dt addr None) g) g"

definition remove_sw_breakpoint where
  "remove_sw_breakpoint dt addr g = deleted (try_backend (dt_remove_breakpoint_exact dt addr 1 ACCESS_EXECUTE) g) g"

definition add_hw_breakpoint where
  "add_hw_breakpoint dt addr g = inserted (try_backend (dt_set_breakpoint dt addr None) g) g"

definition remove_hw_breakpoint where
  "remove_hw_breakpoint dt addr g = deleted (try_backend (dt_remove_breakpoint_exact dt addr 1 ACCESS_EXECUTE) g) g"

definition add_hw_watchpoint where
  "add_hw_watchpoint dt addr len kind g =
     inserted (try_backend (dt_set_data_breakpoint dt addr len (breakpoint_kind_from_watch_kind kind)) g) g"

definition remove_hw_watchpoint where
  "remove_hw_watchpoint dt addr len kind g =
     deleted (try_backend (dt_remove_breakpoint_exact dt addr len (access_mask_from_watch_kind kind)) g) g"

section \<open>Restarting\<close>

text \<open>A restart that moved the target: \<open>note_restart\<close> after \<open>clear_end_state\<close>.\<close>

definition restarted :: "'t \<Rightarrow> 't gdb_target \<Rightarrow> 't gdb_target" where
  "restarted b g = note_restart (clear_end_state (g\<lparr>gt_runner := (gt_runner g)\<lparr>backend := (b, end_state g)\<rparr>\<rparr>))"

definition put_backend :: "'t \<Rightarrow> 't gdb_target \<Rightarrow> 't gdb_target" where
  "put_backend b g = g\<lparr>gt_runner := (gt_runner g)\<lparr>backend := (b, end_state g)\<rparr>\<rparr>"

definition gt_run ::
  "'t target_ops \<Rightarrow> string list \<Rightarrow> 't gdb_target \<Rightarrow> ('t gdb_target \<times> (target_error, nat) result) run" where
  "gt_run dt args g =
     (case try_lock (gt_runner g) of
        None \<Rightarrow> Ret (g, Inl NonFatal)
      | Some (b, _) \<Rightarrow>
          (case handle_vrun dt (checkpoints g) args b of
             Ret (b', Inl _) \<Rightarrow> Ret (put_backend b' g, Inl NonFatal)
           | Ret (b', Inr _) \<Rightarrow> Ret (restarted b' g, Inr server_pid)
           | Panic s \<Rightarrow> Panic s
           | Spin \<Rightarrow> Spin))"

definition gt_restart :: "'t target_ops \<Rightarrow> 't gdb_target \<Rightarrow> 't gdb_target run" where
  "gt_restart dt g =
     (case try_lock (gt_runner g) of
        None \<Rightarrow> Ret g
      | Some (b, _) \<Rightarrow>
          (case dt_goto dt (fst (dt_lifetime dt b)) b of
             Ret (b', Inl _) \<Rightarrow> Ret (put_backend b' g)
           | Ret (b', Inr _) \<Rightarrow> Ret (restarted b' g)
           | Panic s \<Rightarrow> Panic s
           | Spin \<Rightarrow> Spin))"

datatype attach_kind = AttachAttach | AttachRun
datatype should_terminate = TerminateYes | TerminateNo

definition gt_attach :: "nat \<Rightarrow> (target_error, unit) result" where
  "gt_attach pid = Inl NonFatal"

definition query_if_attached :: "nat \<Rightarrow> (target_error, attach_kind) result" where
  "query_if_attached pid = Inr AttachAttach"

definition gt_kill :: "nat option \<Rightarrow> (target_error, should_terminate) result" where
  "gt_kill pid = Inr TerminateYes"

section \<open>Blobs\<close>

definition get_exec_file ::
  "'t target_ops \<Rightarrow> u64 \<Rightarrow> u64 \<Rightarrow> u8 list \<Rightarrow> 't gdb_target \<Rightarrow> (target_error, u8 list \<times> nat) result" where
  "get_exec_file dt offset len buf g =
     (case try_lock (gt_runner g) of
        None \<Rightarrow> Inl NonFatal
      | Some (b, _) \<Rightarrow>
          (case dt_main_module dt b of
             None \<Rightarrow> Inl NonFatal
           | Some m \<Rightarrow> Inr (write_xml_chunk (as_bytes (mod_name m)) offset len buf)))"

definition auxv_bytes :: "u64 \<Rightarrow> u8 list" where
  "auxv_bytes base = to_le_bytes (9 :: u64) @ to_le_bytes base @ to_le_bytes (0 :: u64) @ to_le_bytes (0 :: u64)"

definition get_auxv ::
  "'t target_ops \<Rightarrow> u64 \<Rightarrow> u64 \<Rightarrow> u8 list \<Rightarrow> 't gdb_target \<Rightarrow> (target_error, u8 list \<times> nat) result" where
  "get_auxv dt offset len buf g =
     (case Option.bind (try_lock (gt_runner g)) (\<lambda>(b, _). map_option base_addr (dt_main_module dt b)) of
        None \<Rightarrow> Inl NonFatal
      | Some base \<Rightarrow> Inr (write_xml_chunk (auxv_bytes base) offset len buf))"

definition get_section_offsets :: "'t gdb_target \<Rightarrow> u64 \<times> u64 option" where
  "get_section_offsets g = (case text_seg g of None \<Rightarrow> 0 | Some a \<Rightarrow> a, None)"

definition target_description_xml ::
  "(string \<Rightarrow> u8 list) \<Rightarrow> string \<Rightarrow> u64 \<Rightarrow> u64 \<Rightarrow> u8 list \<Rightarrow> (target_error, u8 list \<times> nat) result" where
  "target_description_xml xml_files annex offset len buf =
     (case from_utf8 annex of
        None \<Rightarrow> Inl NonFatal
      | Some a \<Rightarrow>
          (case target_xml xml_files a of
             Inl _ \<Rightarrow> Inl NonFatal
           | Inr xml \<Rightarrow> Inr (write_xml_chunk xml offset len buf)))"

definition get_libraries :: "u64 \<Rightarrow> u64 \<Rightarrow> u8 list \<Rightarrow> 't gdb_target \<Rightarrow> u8 list \<times> nat" where
  "get_libraries offset len buf g = write_xml_chunk (as_bytes (libraries_xml g)) offset len buf"

section \<open>Threads, monitor and unknown packets\<close>

definition RUNNING_REPLY :: string where
  "RUNNING_REPLY = ''target is running''"

definition extra_info_text :: "tid \<Rightarrow> thread_extra_info option \<Rightarrow> string" where
  "extra_info_text i info =
     (case info of
        Some x \<Rightarrow> ''UTID '' @ fmt_dec (unat (tei_unique_id x)) @ '' (OS 0x'' @ fmt_hex (unat i) @ ''); pos ''
                  @ position_display (tei_current_position x)
      | None \<Rightarrow> ''UTID ? (OS 0x'' @ fmt_hex (unat i) @ '')'')"

definition thread_extra_info_handler ::
  "'t target_ops \<Rightarrow> tid \<Rightarrow> u8 list \<Rightarrow> 't gdb_target \<Rightarrow> 't gdb_target \<times> u8 list \<times> nat" where
  "thread_extra_info_handler dt i buf g =
     (case try_backend (dt_thread_info dt (from_wire_tid i)) g of
        None \<Rightarrow> (g, copy_into buf (as_bytes RUNNING_REPLY))
      | Some (g', info) \<Rightarrow> (g', copy_into buf (as_bytes (extra_info_text i info))))"

definition handle_monitor_cmd :: "'t target_ops \<Rightarrow> string \<Rightarrow> 't gdb_target \<Rightarrow> ('t gdb_target \<times> string) run" where
  "handle_monitor_cmd dt cmd g =
     (let s = (case from_utf8 cmd of None \<Rightarrow> [] | Some s \<Rightarrow> s) in
      case try_lock (gt_runner g) of
        None \<Rightarrow> Ret (g, ln ''target is running; retry when stopped'')
      | Some (b, _) \<Rightarrow>
          (case render dt s b of
             Ret (b', reply) \<Rightarrow> Ret (put_backend b' g, reply)
           | Panic m \<Rightarrow> Panic m
           | Spin \<Rightarrow> Spin))"

definition answer_qrrcmd :: "'t target_ops \<Rightarrow> string \<Rightarrow> 't gdb_target \<Rightarrow> 't gdb_target \<times> string" where
  "answer_qrrcmd dt args g =
     (case try_lock (gt_runner g) of
        None \<Rightarrow> (g, [])
      | Some (b, _) \<Rightarrow>
          (let (cps, resp) = handle_qrrcmd dt b (checkpoints g) args
           in (g\<lparr>checkpoints := cps\<rparr>, encode_hex resp)))"

definition tib_reply :: "thread_extra_info option \<Rightarrow> string" where
  "tib_reply info =
     (let teb = (case info of None \<Rightarrow> 0 | Some x \<Rightarrow> tei_teb x)
      in if teb = 0 then ''E01'' else fmt_hex (unat teb))"

definition answer_tib_addr :: "'t target_ops \<Rightarrow> string \<Rightarrow> 't gdb_target \<Rightarrow> 't gdb_target \<times> string" where
  "answer_tib_addr dt args g =
     (let query = (case parse_tid_from_qpacket (hd (split_on (CHR '','') args)) of
                     None \<Rightarrow> (\<lambda>b. (b, None)) | Some i \<Rightarrow> dt_thread_info dt i)
      in case try_backend query g of
           None \<Rightarrow> (g, ''E01'')
         | Some (g', info) \<Rightarrow> (g', tib_reply info))"

definition handle_unknown_packet :: "'t target_ops \<Rightarrow> string \<Rightarrow> 't gdb_target \<Rightarrow> 't gdb_target \<times> string" where
  "handle_unknown_packet dt body g =
     (let s = (case from_utf8 body of None \<Rightarrow> [] | Some s \<Rightarrow> s) in
      case strip_prefix ''qRRCmd'' s of
        Some args \<Rightarrow> answer_qrrcmd dt args g
      | None \<Rightarrow>
          if s = ''QThreadSuffixSupported'' \<or> s = ''QListThreadsInStopReply'' then (g, [])
          else if starts_with ''QPassSignals'' s \<or> starts_with ''QProgramSignals'' s then (g, ''OK'')
          else if s = ''vCtrlC'' then (interrupt_replay g, ''OK'')
          else (case (case strip_prefix ''qGetTIBAddr:'' s of Some a \<Rightarrow> Some a | None \<Rightarrow> strip_prefix ''qGetTLSAddr:'' s) of
                  Some args \<Rightarrow> answer_tib_addr dt args g
                | None \<Rightarrow> (g, [])))"

end
