(* ===== verification/Gdb_Invariants.thy ===== *)
theory Gdb_Invariants
  imports Gdb_Target
begin

text \<open>
  The server under every interleaving of packets and worker steps: the protocol target keeps the
  backend's invariant, the runner's and the checkpoint table's; the handler of every packet returns;
  while a replay is in flight packets change nothing but two flags; how a worker left alone runs out.
\<close>

section \<open>Packets\<close>

datatype packet =
    PkReadRegisters tid
  | PkReadRegister tid ttd_reg_id "u8 list"
  | PkReadMemory u64 "u8 list" tid
  | PkThreads
  | PkResume
  | PkClear
  | PkContinue tid
  | PkStep tid
  | PkRangeStep tid u64 u64
  | PkReverseContinue
  | PkReverseStep tid
  | PkAddSw u64
  | PkRemoveSw u64
  | PkAddHw u64
  | PkRemoveHw u64
  | PkAddWatch u64 u64 watch_kind
  | PkRemoveWatch u64 u64 watch_kind
  | PkRun "string list"
  | PkRestart
  | PkThreadExtra tid "u8 list"
  | PkMonitor string
  | PkUnknown string
  | PkInterrupt
  | PkPoll

definition after :: "('a \<times> 'b) run \<Rightarrow> 'a run" where
  "after r = (case r of Ret (x, _) \<Rightarrow> Ret x | Panic s \<Rightarrow> Panic s | Spin \<Rightarrow> Spin)"

text \<open>
  The target after a packet. A handler that panics on the protocol thread has no target to go on with:
  the panic unwinds out of the session and the server.
\<close>

fun handle_packet :: "'t target_ops \<Rightarrow> packet \<Rightarrow> 't gdb_target \<Rightarrow> 't gdb_target run" where
  "handle_packet dt (PkReadRegisters i) g = Ret (fst (read_registers dt i g))"
| "handle_packet dt (PkReadRegister i reg buf) g = after (read_register dt i reg buf g)"
| "handle_packet dt (PkReadMemory addr buf i) g = Ret (fst (read_addrs dt addr buf i g))"
| "handle_packet dt PkThreads g = Ret (fst (list_active_threads dt g))"
| "handle_packet dt PkResume g = Ret (fst (gt_resume_op dt g))"
| "handle_packet dt PkClear g = Ret (clear_resume_actions g)"
| "handle_packet dt (PkContinue i) g = Ret (set_resume_action_continue i g)"
| "handle_packet dt (PkStep i) g = Ret (set_resume_action_step i g)"
| "handle_packet dt (PkRangeStep i start stop) g = Ret (set_resume_action_range_step i start stop g)"
| "handle_packet dt PkReverseContinue g = Ret (fst (reverse_cont dt g))"
| "handle_packet dt (PkReverseStep i) g = Ret (fst (reverse_step dt i g))"
| "handle_packet dt (PkAddSw addr) g = Ret (fst (add_sw_breakpoint dt addr g))"
| "handle_packet dt (PkRemoveSw addr) g = Ret (fst (remove_sw_breakpoint dt addr g))"
| "handle_packet dt (PkAddHw addr) g = Ret (fst (add_hw_breakpoint dt addr g))"
| "handle_packet dt (PkRemoveHw addr) g = Ret (fst (remove_hw_breakpoint dt addr g))"
| "handle_packet dt (PkAddWatch addr len kind) g = Ret (fst (add_hw_watchpoint dt addr len kind g))"
| "handle_packet dt (PkRemoveWatch addr len kind) g = Ret (fst (remove_hw_watchpoint dt addr len kind g))"
| "handle_packet dt (PkRun args) g = after (gt_run dt args g)"
| "handle_packet dt PkRestart g = gt_restart dt g"
| "handle_packet dt (PkThreadExtra i buf) g = Ret (fst (thread_extra_info_handler dt i buf g))"
| "handle_packet dt (PkMonitor cmd) g = after (handle_monitor_cmd dt cmd g)"
| "handle_packet dt (PkUnknown body) g = Ret (fst (handle_unknown_packet dt body g))"
| "handle_packet dt PkInterrupt g = Ret (interrupt_replay g)"
| "handle_packet dt PkPoll g = Ret (fst (take_stop_reason dt g))"

section \<open>The invariant\<close>

text \<open>A closure that keeps the backend's invariant.\<close>

definition closure_ok :: "('t \<Rightarrow> bool) \<Rightarrow> ('t \<times> bool, 'r) job \<Rightarrow> bool" where
  "closure_ok I job \<longleftrightarrow> (\<forall>be be' c. I (fst be) \<longrightarrow> job be = Some (be', c) \<longrightarrow> I (fst be'))"

fun worker_ok :: "('t \<Rightarrow> bool) \<Rightarrow> ('t \<times> bool, 'r) worker \<Rightarrow> bool" where
  "worker_ok I (Spawned job oni) \<longleftrightarrow> closure_ok I job \<and> closure_ok I oni"
| "worker_ok I (Locked job oni) \<longleftrightarrow> closure_ok I job \<and> closure_ok I oni"
| "worker_ok I (Ran _ oni) \<longleftrightarrow> closure_ok I oni"
| "worker_ok I _ \<longleftrightarrow> True"

definition shared_ok :: "('t \<Rightarrow> bool) \<Rightarrow> ('t \<times> bool, 'r) runner \<Rightarrow> bool" where
  "shared_ok I r \<longleftrightarrow> I (fst (backend r)) \<and> worker_ok I (worker r) \<and> runner_inv r
     \<and> (\<forall>f be. interrupt_fn r = Some f \<longrightarrow> I (fst be) \<longrightarrow> I (fst (f be)))"

definition gdb_inv :: "('t \<Rightarrow> bool) \<Rightarrow> 't gdb_target \<Rightarrow> bool" where
  "gdb_inv I g \<longleftrightarrow> shared_ok I (gt_runner g) \<and> wf_checkpoints (checkpoints g)"

text \<open>Both id counters still have room.\<close>

definition has_capacity :: "('t \<Rightarrow> bool) \<Rightarrow> 't gdb_target \<Rightarrow> bool" where
  "has_capacity room g \<longleftrightarrow> room (fst (backend (gt_runner g))) \<and> cp_next_id (checkpoints g) \<noteq> u64_max"

lemma worker_step_shared_ok: "worker_step r l r' \<Longrightarrow> shared_ok I r \<Longrightarrow> shared_ok I r'"
proof -
  assume st: "worker_step r l r'" and ok: "shared_ok I r"
  have ri: "runner_inv r'" using worker_step_inv [OF st] ok by (simp add: shared_ok_def)
  show "shared_ok I r'"
    using st ok ri
  proof (induction rule: worker_step.induct)
    case (w_job s job oni out)
    then have ok: "closure_ok I job" "closure_ok I oni" "I (fst (backend s))"
      by (simp_all add: shared_ok_def)
    then have "I (fst (fst out))" using w_job(2) unfolding closure_ok_def by (metis prod.collapse)
    with w_job ok(2) show ?case
      by (cases out; cases "snd out") (simp_all add: shared_ok_def job_returned_def)
  next
    case (w_replace s r oni out)
    then have ok: "closure_ok I oni" "I (fst (backend s))" by (simp_all add: shared_ok_def)
    then have "I (fst (fst out))" using w_replace(3) unfolding closure_ok_def by (metis prod.collapse)
    with w_replace show ?case by (simp add: shared_ok_def replace_result_def)
  qed (auto simp: shared_ok_def keep_result_def publish_idle_def send_result_def)
qed

lemma shared_ok_backend:
  "shared_ok I r \<Longrightarrow> I (fst be) \<Longrightarrow> shared_ok I (r\<lparr>backend := be\<rparr>)"
  by (simp add: shared_ok_def runner_inv_def)

lemma try_backend_Some:
  assumes "try_backend f g = Some (g', q)"
  shows "g' = put_backend (fst (f (fst (backend (gt_runner g))))) g" and "q = snd (f (fst (backend (gt_runner g))))"
    and "\<not> in_flight (gt_runner g)"
  using assms by (auto simp: try_backend_def try_lock_def runner_query_def put_backend_def end_state_def split_beta
      Let_def split: option.splits if_splits)

lemma put_backend_inv: "gdb_inv I g \<Longrightarrow> I b \<Longrightarrow> gdb_inv I (put_backend b g)"
  by (simp add: gdb_inv_def put_backend_def shared_ok_backend)

lemma restarted_inv: "gdb_inv I g \<Longrightarrow> I b \<Longrightarrow> gdb_inv I (restarted b g)"
  by (simp add: gdb_inv_def restarted_def note_restart_def clear_end_state_def store_end_state_def shared_ok_backend)

lemma backend_ok: "gdb_inv I g \<Longrightarrow> I (fst (backend (gt_runner g)))"
  by (simp add: gdb_inv_def shared_ok_def)

lemma query_inv_of:
  assumes "gdb_inv I g" and "\<And>b. I b \<Longrightarrow> I (fst (f b))" and "try_backend f g = Some (g', q)"
  shows "gdb_inv I g'"
  unfolding try_backend_Some(1) [OF assms(3)]
  by (rule put_backend_inv [OF assms(1) assms(2) [OF backend_ok [OF assms(1)]]])

lemma try_lock_Some: "try_lock r = Some b \<longleftrightarrow> \<not> in_flight r \<and> b = backend r"
  by (auto simp: try_lock_def)

context debug_target
begin

lemma execute_op_inv: "inv b \<Longrightarrow> execute_op dt op b = Ret (b', r) \<Longrightarrow> inv b'"
  by (cases op) (auto simp: select_then_def intro: continue_forward_inv continue_backward_inv step_inv step_back_inv
      step_range_inv select_inv dest: continue_forward_inv continue_backward_inv step_inv [OF select_inv]
      step_back_inv [OF select_inv] step_range_inv [OF select_inv])

lemma replay_job_ok: "closure_ok inv (replay_job dt op)"
  using execute_op_inv map_stop_reason_inv
  by (fastforce simp: closure_ok_def replay_job_def split_beta Let_def split: run.splits prod.splits)

lemma signal_job_ok: "closure_ok inv (signal_job dt sig)"
  using stop_tid_inv by (force simp: closure_ok_def signal_job_def split_beta Let_def)

lemma exit_job_ok: "closure_ok inv exit_job"
  by (simp add: closure_ok_def exit_job_def)

lemma start_job_inv:
  assumes "gdb_inv inv g" and "closure_ok inv job" and "closure_ok inv oni"
  shows "gdb_inv inv (fst (start_job dt job oni g))"
  using assms begin_inv
  by (auto simp: start_job_def runner_start_def gdb_inv_def shared_ok_def runner_inv_def split_beta Let_def)

lemma spawn_replay_inv:
  assumes "gdb_inv inv g"
  shows "gdb_inv inv (fst (spawn_replay dt op g))"
proof -
  have g1: "gdb_inv inv (g\<lparr>restart_pending := False\<rparr>)" "gdb_inv inv (store_end_state False (g\<lparr>restart_pending := False\<rparr>))"
    using assms backend_ok [OF assms] by (simp_all add: gdb_inv_def store_end_state_def shared_ok_backend)
  show ?thesis
    using g1 start_job_inv [OF g1(1)] start_job_inv [OF g1(2)] replay_job_ok signal_job_ok exit_job_ok
    by (simp add: spawn_replay_def Let_def spawn_position_stop_def spawn_exit_reply_def)
qed

lemma vrun_inv: "inv b \<Longrightarrow> handle_vrun dt cps args b = Ret (b', r) \<Longrightarrow> inv b'"
  using goto_inv by (auto simp: handle_vrun_def command_goto_def split: sum.splits run.splits prod.splits)

lemma interrupt_fire_ok:
  assumes "shared_ok inv r"
  shows "shared_ok inv (interrupt_fire r)"
proof (cases "interrupt_fn r")
  case None
  with assms show ?thesis by (simp add: shared_ok_def interrupt_fire_def runner_inv_def)
next
  case (Some f)
  with assms have "inv (fst (f (backend r)))" unfolding shared_ok_def by blast
  with assms Some show ?thesis by (simp add: shared_ok_def interrupt_fire_def runner_inv_def)
qed

lemma interrupt_check_ok: "shared_ok inv r \<Longrightarrow> shared_ok inv (interrupt_check r)"
  by (auto simp: shared_ok_def interrupt_check_def runner_inv_def)

lemma interrupt_replay_inv: "gdb_inv inv g \<Longrightarrow> gdb_inv inv (interrupt_replay g)"
  by (simp add: gdb_inv_def interrupt_replay_def Let_def interrupt_fire_ok interrupt_check_ok)

lemma take_stop_reason_inv:
  assumes "gdb_inv inv g"
  shows "gdb_inv inv (fst (take_stop_reason dt g))"
proof -
  let ?r = "(gt_runner g)\<lparr>inbox := None\<rparr>"
  have ok: "shared_ok inv ?r" using assms by (simp add: gdb_inv_def shared_ok_def runner_inv_def)
  have "shared_ok inv (?r\<lparr>backend := (fst (stop_tid dt (fst (backend (gt_runner g)))), e)\<rparr>)" for e
    using shared_ok_backend [OF ok, of "(fst (stop_tid dt (fst (backend (gt_runner g)))), e)"]
      stop_tid_inv [OF backend_ok [OF assms]] by simp
  with ok assms show ?thesis
    by (auto simp: take_stop_reason_def take_result_def map_worker_result_def runner_query_def split_beta Let_def
        gdb_inv_def split: option.splits sum.splits)
qed

lemma qrrcmd_wf:
  assumes "wf_checkpoints cps" and "cp_next_id cps \<noteq> u64_max"
  shows "wf_checkpoints (fst (handle_qrrcmd dt b cps args))"
  using assms wf_checkpoint_insert [OF assms] wf_checkpoint_remove [OF assms(1)]
  by (auto simp: handle_qrrcmd_def Let_def split_beta split: option.splits)

lemma answer_qrrcmd_inv:
  assumes "gdb_inv inv g" and "has_capacity room g"
  shows "gdb_inv inv (fst (answer_qrrcmd dt args g))"
  using assms qrrcmd_wf
  by (auto simp: answer_qrrcmd_def gdb_inv_def has_capacity_def split_beta Let_def split: option.splits)

lemma answer_tib_addr_inv: "gdb_inv inv g \<Longrightarrow> gdb_inv inv (fst (answer_tib_addr dt args g))"
  using thread_info_inv
  by (auto simp: answer_tib_addr_def Let_def split: option.splits elim!: query_inv_of [rotated 2])

lemma unknown_packet_inv:
  assumes "gdb_inv inv g" and "has_capacity room g"
  shows "gdb_inv inv (fst (handle_unknown_packet dt body g))"
  using assms answer_qrrcmd_inv interrupt_replay_inv answer_tib_addr_inv
  by (auto simp: handle_unknown_packet_def Let_def split: option.splits)

lemma insert_inv:
  assumes "gdb_inv inv g" and "has_capacity room g"
    and "\<And>b. inv b \<Longrightarrow> room b \<Longrightarrow> inv (fst (f b))"
  shows "gdb_inv inv (fst (inserted (try_backend f g) g))"
proof (cases "try_backend f g")
  case (Some x)
  obtain g' q where x: "x = (g', q)" by (rule prod.exhaust)
  have "inv (fst (f (fst (backend (gt_runner g)))))"
    using assms by (auto simp: gdb_inv_def shared_ok_def has_capacity_def)
  then have "gdb_inv inv g'"
    using try_backend_Some(1) [OF Some [unfolded x]] put_backend_inv [OF assms(1)] by simp
  with Some x show ?thesis by (simp add: inserted_def split: sum.splits)
qed (simp add: inserted_def assms(1))

lemma delete_inv:
  assumes "gdb_inv inv g" and "has_capacity room g"
    and "\<And>b. inv b \<Longrightarrow> room b \<Longrightarrow> inv (fst (f b))"
  shows "gdb_inv inv (fst (deleted (try_backend f g) g))"
proof (cases "try_backend f g")
  case (Some x)
  obtain g' q where x: "x = (g', q)" by (rule prod.exhaust)
  have "inv (fst (f (fst (backend (gt_runner g)))))"
    using assms by (auto simp: gdb_inv_def shared_ok_def has_capacity_def)
  then have "gdb_inv inv g'"
    using try_backend_Some(1) [OF Some [unfolded x]] put_backend_inv [OF assms(1)] by simp
  with Some x show ?thesis by (simp add: deleted_def)
qed (simp add: deleted_def assms(1))

lemmas query_handlers = read_registers_def read_register_def read_addrs_def list_active_threads_def
  thread_extra_info_handler_def

lemma resume_ops_inv:
  "gdb_inv inv g \<Longrightarrow> gdb_inv inv (clear_resume_actions g)" "gdb_inv inv g \<Longrightarrow> gdb_inv inv (set_resume_action_continue i g)"
  "gdb_inv inv g \<Longrightarrow> gdb_inv inv (set_resume_action_step i g)"
  "gdb_inv inv g \<Longrightarrow> gdb_inv inv (set_resume_action_range_step i start stop g)"
  "gdb_inv inv g \<Longrightarrow> gdb_inv inv (fst (gt_resume_op dt g))"
  using spawn_replay_inv
  by (simp_all add: gdb_inv_def clear_resume_actions_def set_resume_action_continue_def set_resume_action_step_def
      set_resume_action_range_step_def gt_resume_op_def split_beta Let_def)

lemma restart_inv:
  "gdb_inv inv g \<Longrightarrow> gt_run dt args g = Ret (g', r) \<Longrightarrow> gdb_inv inv g'"
  "gdb_inv inv g \<Longrightarrow> gt_restart dt g = Ret g' \<Longrightarrow> gdb_inv inv g'"
  by (auto simp: gt_run_def gt_restart_def try_lock_def split_beta split: if_splits option.splits run.splits prod.splits sum.splits
      intro!: put_backend_inv restarted_inv intro: vrun_inv goto_inv backend_ok)

lemma monitor_inv: "gdb_inv inv g \<Longrightarrow> handle_monitor_cmd dt cmd g = Ret (g', r) \<Longrightarrow> gdb_inv inv g'"
  by (auto simp: handle_monitor_cmd_def try_lock_def Let_def split: if_splits option.splits run.splits prod.splits
      intro!: put_backend_inv dest: render_keeps [OF backend_ok])

lemma handle_packet_inv:
  assumes "gdb_inv inv g" and "has_capacity room g" and "handle_packet dt pk g = Ret g'"
  shows "gdb_inv inv g'"
proof (cases pk)
  case (PkReadRegisters i)
  with assms thread_state_inv show ?thesis
    by (auto simp: query_handlers split: option.splits elim!: query_inv_of [rotated 2])
next
  case (PkReadRegister i reg buf)
  with assms thread_state_inv show ?thesis
    by (auto simp: query_handlers after_def split: option.splits reg_result.splits run.splits elim!: query_inv_of [rotated 2])
next
  case (PkReadMemory addr buf i)
  with assms read_memory_inv show ?thesis
    by (auto simp: query_handlers split: option.splits elim!: query_inv_of [rotated 2])
next
  case PkThreads
  with assms active_thread_ids_inv show ?thesis
    by (auto simp: query_handlers split: option.splits elim!: query_inv_of [rotated 2])
next
  case (PkThreadExtra i buf)
  with assms thread_info_inv show ?thesis
    by (auto simp: query_handlers split: option.splits elim!: query_inv_of [rotated 2])
next
  case (PkRun args)
  with assms restart_inv(1) show ?thesis by (auto simp: after_def split: run.splits)
next
  case PkRestart
  with assms restart_inv(2) show ?thesis by (auto split: run.splits)
next
  case (PkMonitor cmd)
  with assms monitor_inv show ?thesis by (auto simp: after_def split: run.splits)
qed (use assms resume_ops_inv spawn_replay_inv unknown_packet_inv interrupt_replay_inv take_stop_reason_inv
      insert_inv [OF assms(1,2) set_breakpoint_inv] insert_inv [OF assms(1,2) set_data_breakpoint_inv]
      delete_inv [OF assms(1,2) remove_exact_inv] in
    \<open>auto simp: reverse_cont_def reverse_step_def add_sw_breakpoint_def remove_sw_breakpoint_def add_hw_breakpoint_def
      remove_hw_breakpoint_def add_hw_watchpoint_def remove_hw_watchpoint_def\<close>)

end

section \<open>Every interleaving\<close>

text \<open>
  A packet of the protocol thread, a step of the worker, or one half of an interrupt request. Packets
  are taken from states whose 64-bit id counters are not exhausted.
\<close>

inductive server_step :: "'t target_ops \<Rightarrow> ('t \<Rightarrow> bool) \<Rightarrow> 't gdb_target \<Rightarrow> 't gdb_target \<Rightarrow> bool" for dt room where
  s_packet: "\<not> asking (gt_runner g) \<Longrightarrow> has_capacity room g \<Longrightarrow> handle_packet dt pk g = Ret g' \<Longrightarrow> server_step dt room g g'"
| s_worker: "worker_step (gt_runner g) l r \<Longrightarrow> server_step dt room g (g\<lparr>gt_runner := r\<rparr>)"
| s_check: "\<not> asking (gt_runner g) \<Longrightarrow> server_step dt room g (g\<lparr>gt_runner := interrupt_check (gt_runner g)\<rparr>)"
| s_fire: "asking (gt_runner g) \<Longrightarrow> server_step dt room g (g\<lparr>gt_runner := interrupt_fire (gt_runner g)\<rparr>)"

context debug_target
begin

lemma server_step_inv: "server_step dt room g g' \<Longrightarrow> gdb_inv inv g \<Longrightarrow> gdb_inv inv g'"
proof (induction rule: server_step.induct)
  case (s_packet g pk g')
  then show ?case by (blast intro: handle_packet_inv)
next
  case (s_worker g l r)
  then show ?case by (auto simp: gdb_inv_def intro: worker_step_shared_ok)
qed (auto simp: gdb_inv_def interrupt_check_ok interrupt_fire_ok)

lemma server_run_inv: "(server_step dt room)\<^sup>*\<^sup>* g g' \<Longrightarrow> gdb_inv inv g \<Longrightarrow> gdb_inv inv g'"
  by (induction rule: rtranclp_induct) (auto intro: server_step_inv)

lemma gdb_target_new_inv:
  assumes "inv b" and "wf_checkpoints cps"
  shows "gdb_inv inv (gdb_target_new opened render_xml dt b cps)"
  using assms interrupt_inv
  by (auto simp: gdb_inv_def gdb_target_new_def shared_ok_def runner_new_def runner_inv_def split_beta)

end

section \<open>Progress\<close>

text \<open>
  The register ids the stub passes are the ones \<open>from_raw_id\<close> gave it: registers of the file, or one that
  the core architecture knows and this program does not.
\<close>

fun packet_ids_ok :: "packet \<Rightarrow> bool" where
  "packet_ids_ok (PkReadRegister i reg buf) \<longleftrightarrow> reg_in_file reg \<or> reg = Core OtherReg"
| "packet_ids_ok _ \<longleftrightarrow> True"

lemma read_register_returns:
  assumes "reg_in_file reg \<or> reg = Core OtherReg"
  shows "\<exists>g' v. read_register dt i reg buf g = Ret (g', v)"
proof -
  have "read_register_value reg (from_ttd regs teb) buf \<noteq> RegPanics" for regs teb
    using register_file_typed [of regs teb reg buf] assms by auto
  then show ?thesis
    by (auto simp: read_register_def split: option.split reg_result.split)
qed

context total_target
begin

lemma vrun_returns:
  assumes "inv b"
  shows "\<exists>b' r. handle_vrun dt cps args b = Ret (b', r)"
proof (cases "restart_target (fst (dt_lifetime dt b)) cps (restart_text args)")
  case (Inr pos)
  with goto_returns [OF assms, of pos] show ?thesis by (auto simp: handle_vrun_def command_goto_def)
qed (simp add: handle_vrun_def)

lemma gt_run_returns:
  assumes "gdb_inv inv g"
  shows "\<exists>g' r. gt_run dt args g = Ret (g', r)"
proof -
  obtain b' r where "handle_vrun dt (checkpoints g) args (fst (backend (gt_runner g))) = Ret (b', r)"
    using vrun_returns [OF backend_ok [OF assms]] by blast
  then show ?thesis by (cases r) (simp_all add: gt_run_def try_lock_def split_beta)
qed

lemma gt_restart_returns:
  assumes "gdb_inv inv g"
  shows "\<exists>g'. gt_restart dt g = Ret g'"
proof -
  let ?b = "fst (backend (gt_runner g))"
  obtain b' r where "dt_goto dt (fst (dt_lifetime dt ?b)) ?b = Ret (b', r)"
    using goto_returns [OF backend_ok [OF assms]] by blast
  then show ?thesis by (cases r) (simp_all add: gt_restart_def try_lock_def split_beta)
qed

lemma monitor_returns:
  assumes "gdb_inv inv g"
  shows "\<exists>g' s. handle_monitor_cmd dt cmd g = Ret (g', s)"
proof -
  obtain b' s where "render dt (case from_utf8 cmd of None \<Rightarrow> [] | Some s \<Rightarrow> s) (fst (backend (gt_runner g))) = Ret (b', s)"
    using render_returns [OF backend_ok [OF assms]] by blast
  then show ?thesis by (simp add: handle_monitor_cmd_def try_lock_def split_beta Let_def)
qed

lemma handle_packet_returns:
  assumes "gdb_inv inv g" and "packet_ids_ok pk"
  shows "\<exists>g'. handle_packet dt pk g = Ret g'"
proof (cases pk)
  case (PkReadRegister i reg buf)
  with read_register_returns [of reg dt i buf g] assms(2) show ?thesis by (auto simp: after_def)
next
  case (PkRun args)
  with gt_run_returns [OF assms(1), of args] show ?thesis by (auto simp: after_def)
next
  case PkRestart
  with gt_restart_returns [OF assms(1)] show ?thesis by simp
next
  case (PkMonitor cmd)
  with monitor_returns [OF assms(1), of cmd] show ?thesis by (auto simp: after_def)
qed simp_all

end

section \<open>The server's safety\<close>

text \<open>
  C1. The server as a whole is safe: start a protocol target on a debug process that satisfies its
  invariant, let any packets arrive in any order, interleaved in any way with the replay worker's steps
  and with interrupt requests at any moment. Then at every moment the backend satisfies its invariant
  again (every breakpoint backed by a watchpoint the engine has, both cursors coherent), the checkpoint
  table is well formed, and whenever no replay is in flight the backend's lock is free.
\<close>

theorem server_always_consistent:
  assumes "process_inv ca watched p" and "engine_contract ca watched" and "wf_checkpoints cps"
    and "(server_step (ttd_target ca arrived) has_room)\<^sup>*\<^sup>*
           (gdb_target_new opened render_xml (ttd_target ca arrived) p cps) g"
  shows "process_inv ca watched (fst (backend (gt_runner g))) \<and> wf_checkpoints (checkpoints g)
    \<and> (\<not> replay_in_flight g \<longrightarrow> \<not> guard_held (gt_runner g) \<and> fst (into_parts g) = Some (fst (backend (gt_runner g))))"
proof -
  note dtl = ttd_debug_target [OF assms(2), of arrived]
  have "gdb_inv (process_inv ca watched) g"
    using debug_target.server_run_inv [OF dtl assms(4)] debug_target.gdb_target_new_inv [OF dtl assms(1,3)] by blast
  then show ?thesis
    by (auto simp: gdb_inv_def shared_ok_def runner_inv_def replay_in_flight_def in_flight_def into_parts_def into_backend_def)
qed

definition no_file :: "string \<Rightarrow> u8 list option" where "no_file path = None"
definition no_text :: "xml_element \<Rightarrow> string" where "no_text x = []"

definition sim_gdb :: "sim ttd_process gdb_target" where
  "sim_gdb = gdb_target_new no_file no_text (ttd_target sim_api (\<lambda>_. 0)) sim_process checkpoints_new"

lemma sim_gdb_capacity: "has_capacity has_room sim_gdb" "\<not> asking (gt_runner sim_gdb)"
  by (simp_all add: has_capacity_def has_room_def sim_gdb_def gdb_target_new_def runner_new_def sim_process_def Let_def
      state_new_def manager_new_def checkpoints_new_def)

theorem server_always_consistent_witness:
  "process_inv sim_api (\<lambda>c. set (sim_keys c))
     (fst (backend (gt_runner (fst (add_sw_breakpoint (ttd_target sim_api (\<lambda>_. 0)) 0x1002 sim_gdb)))))"
proof -
  have "server_step (ttd_target sim_api (\<lambda>_. 0)) has_room sim_gdb
      (fst (add_sw_breakpoint (ttd_target sim_api (\<lambda>_. 0)) 0x1002 sim_gdb))"
    by (rule s_packet [OF sim_gdb_capacity(2,1), of _ "PkAddSw 0x1002"]) simp
  then have "(server_step (ttd_target sim_api (\<lambda>_. 0)) has_room)\<^sup>*\<^sup>* sim_gdb
      (fst (add_sw_breakpoint (ttd_target sim_api (\<lambda>_. 0)) 0x1002 sim_gdb))" by (rule r_into_rtranclp)
  from server_always_consistent [OF sim_process_inv sim_contract wf_checkpoints_new this [unfolded sim_gdb_def]]
  show ?thesis by (simp add: sim_gdb_def)
qed

text \<open>
  C30. No packet takes the server down: on a trace whose first position is not after its last and whose
  tables fit the engine's counts, in every state the server reaches under any interleaving of packets,
  worker steps and interrupts, the handler of every packet returns. The jumps of \<open>vRun\<close> and \<open>R\<close>, the
  diagnostics behind \<open>monitor\<close> and the indexed register reads, which can panic, never do; the register
  ids are the ones the stub got from \<open>from_raw_id\<close>.
\<close>

theorem every_packet_returns:
  assumes "process_inv ca watched p" and "trace_sound p" and "engine_contract ca watched" and "wf_checkpoints cps"
    and "(server_step (ttd_target ca arrived) has_room)\<^sup>*\<^sup>*
           (gdb_target_new opened render_xml (ttd_target ca arrived) p cps) g"
    and "packet_ids_ok pk"
  shows "\<exists>g'. handle_packet (ttd_target ca arrived) pk g = Ret g'"
proof -
  let ?inv = "\<lambda>p. process_inv ca watched p \<and> trace_sound p"
  note ttl = ttd_total_target [OF assms(3), of arrived]
  note dtl = total_target.axioms(1) [OF ttl]
  have "gdb_inv ?inv g"
    using debug_target.server_run_inv [OF dtl assms(5)] debug_target.gdb_target_new_inv [OF dtl _ assms(4)] assms(1,2) by blast
  with assms(6) show ?thesis by (intro total_target.handle_packet_returns [OF ttl])
qed

lemma sim_process_sound: "trace_sound sim_process"
  by (simp add: trace_sound_def sim_process_def sim_metadata_def metadata_new_def Let_def less_eq_position_def sim_position_def)

theorem every_packet_returns_witness:
  "\<exists>g'. handle_packet (ttd_target sim_api (\<lambda>_. 0)) (PkReadRegister 7 (Core (Xmm 15)) (replicate 16 0)) sim_gdb = Ret g'"
  unfolding sim_gdb_def
  by (rule every_packet_returns [OF sim_process_inv sim_process_sound sim_contract wf_checkpoints_new rtranclp.rtrancl_refl]) simp

section \<open>While a replay runs\<close>

text \<open>Packets one after the other, the packets that are meant for the worker, and the ones that ask for a replay.\<close>

fun handle_packets :: "'t target_ops \<Rightarrow> packet list \<Rightarrow> 't gdb_target \<Rightarrow> 't gdb_target run" where
  "handle_packets dt [] g = Ret g"
| "handle_packets dt (pk # pks) g =
     (case handle_packet dt pk g of Ret g' \<Rightarrow> handle_packets dt pks g' | Panic s \<Rightarrow> Panic s | Spin \<Rightarrow> Spin)"

fun asks_worker :: "packet \<Rightarrow> bool" where
  "asks_worker PkInterrupt \<longleftrightarrow> True"
| "asks_worker PkPoll \<longleftrightarrow> True"
| "asks_worker (PkUnknown body) \<longleftrightarrow> from_utf8 body = Some ''vCtrlC''"
| "asks_worker _ \<longleftrightarrow> False"

fun asks_replay :: "packet \<Rightarrow> bool" where
  "asks_replay PkResume \<longleftrightarrow> True"
| "asks_replay PkReverseContinue \<longleftrightarrow> True"
| "asks_replay (PkReverseStep i) \<longleftrightarrow> True"
| "asks_replay _ \<longleftrightarrow> False"

text \<open>The busy reply of every handler that needs the backend, whatever its arguments.\<close>

definition answers_busy :: "'t target_ops \<Rightarrow> 't gdb_target \<Rightarrow> bool" where
  "answers_busy dt g \<longleftrightarrow>
     (\<forall>i. read_registers dt i g = (g, Inl NonFatal))
   \<and> (\<forall>i reg buf. read_register dt i reg buf g = Ret (g, buf, Inl NonFatal))
   \<and> (\<forall>addr buf i. read_addrs dt addr buf i g = (g, buf, Inl NonFatal))
   \<and> list_active_threads dt g = (g, [])
   \<and> (\<forall>i buf. thread_extra_info_handler dt i buf g = (g, copy_into buf (as_bytes RUNNING_REPLY)))
   \<and> (\<forall>offset len buf. get_exec_file dt offset len buf g = Inl NonFatal)
   \<and> (\<forall>offset len buf. get_auxv dt offset len buf g = Inl NonFatal)
   \<and> (\<forall>addr. add_sw_breakpoint dt addr g = (g, Inl NonFatal))
   \<and> (\<forall>addr. remove_sw_breakpoint dt addr g = (g, Inl NonFatal))
   \<and> (\<forall>addr. add_hw_breakpoint dt addr g = (g, Inl NonFatal))
   \<and> (\<forall>addr. remove_hw_breakpoint dt addr g = (g, Inl NonFatal))
   \<and> (\<forall>addr len kind. add_hw_watchpoint dt addr len kind g = (g, Inl NonFatal))
   \<and> (\<forall>addr len kind. remove_hw_watchpoint dt addr len kind g = (g, Inl NonFatal))
   \<and> (\<forall>args. gt_run dt args g = Ret (g, Inl NonFatal))
   \<and> gt_restart dt g = Ret g
   \<and> (\<forall>cmd. handle_monitor_cmd dt cmd g = Ret (g, ln ''target is running; retry when stopped''))
   \<and> (\<forall>args. answer_qrrcmd dt args g = (g, []))
   \<and> (\<forall>args. answer_tib_addr dt args g = (g, ''E01''))
   \<and> (\<forall>op. snd (spawn_replay dt op g) = Inl ReplayAlreadyRunning)"

text \<open>What a refused packet may change: the resume actions being collected, the restart hold and the end state, both only downwards.\<close>

definition only_flags :: "'t gdb_target \<Rightarrow> 't gdb_target \<Rightarrow> bool" where
  "only_flags g g' \<longleftrightarrow> gt_runner g' = (gt_runner g)\<lparr>backend := (fst (backend (gt_runner g)), end_state g')\<rparr>
     \<and> (end_state g' \<longrightarrow> end_state g) \<and> (restart_pending g' \<longrightarrow> restart_pending g)
     \<and> checkpoints g' = checkpoints g \<and> text_seg g' = text_seg g \<and> libraries_xml g' = libraries_xml g"

definition flags_kept :: "'t gdb_target \<Rightarrow> 't gdb_target \<Rightarrow> bool" where
  "flags_kept g g' \<longleftrightarrow> end_state g' = end_state g \<and> restart_pending g' = restart_pending g"

lemma only_flags_refl [simp]: "only_flags g g"
  by (simp add: only_flags_def end_state_def)

lemma flag_stored: "r = r\<lparr>backend := (fst (backend r), e)\<rparr> \<longleftrightarrow> e = snd (backend r)"
  by (cases r) auto

lemma only_flags_trans: "only_flags g g1 \<Longrightarrow> only_flags g1 g2 \<Longrightarrow> only_flags g g2"
  by (auto simp: only_flags_def)

lemma only_flags_busy: "only_flags g g' \<Longrightarrow> replay_in_flight g' = replay_in_flight g"
  by (simp add: only_flags_def replay_in_flight_def in_flight_def)

lemmas busy_defs = read_registers_def read_register_def read_addrs_def list_active_threads_def thread_extra_info_handler_def
  get_exec_file_def get_auxv_def add_sw_breakpoint_def remove_sw_breakpoint_def add_hw_breakpoint_def remove_hw_breakpoint_def
  add_hw_watchpoint_def remove_hw_watchpoint_def gt_run_def gt_restart_def handle_monitor_cmd_def answer_qrrcmd_def
  answer_tib_addr_def try_backend_def inserted_def deleted_def

lemma busy_no_lock: "replay_in_flight g \<Longrightarrow> try_lock (gt_runner g) = None"
  by (simp add: try_lock_def replay_in_flight_def)

lemma busy_answers: "replay_in_flight g \<Longrightarrow> answers_busy dt g"
  by (simp add: answers_busy_def busy_defs busy_no_lock spawn_replay_def spawn_position_stop_def spawn_exit_reply_def
      start_job_def runner_start_def store_end_state_def replay_in_flight_def in_flight_def try_lock_def Let_def)

lemma busy_spawn: "replay_in_flight g \<Longrightarrow> only_flags g (fst (spawn_replay dt op g))"
  by (simp add: only_flags_def spawn_replay_def spawn_position_stop_def spawn_exit_reply_def start_job_def runner_start_def
      store_end_state_def end_state_def replay_in_flight_def in_flight_def flag_stored Let_def)

lemma busy_resume: "replay_in_flight g \<Longrightarrow> only_flags g (fst (gt_resume_op dt g))"
  using busy_spawn [of "g\<lparr>gt_resume := fst (resume_take (gt_resume g))\<rparr>" dt "snd (resume_take (gt_resume g))"]
  by (simp add: gt_resume_op_def split_beta Let_def only_flags_def replay_in_flight_def end_state_def)

lemma busy_unknown:
  assumes "replay_in_flight g" and "from_utf8 body \<noteq> Some ''vCtrlC''"
  shows "fst (handle_unknown_packet dt body g) = g"
proof -
  have "(case from_utf8 body of None \<Rightarrow> [] | Some s \<Rightarrow> s) \<noteq> ''vCtrlC''"
    using assms(2) by (cases "from_utf8 body") simp_all
  with busy_answers [OF assms(1), of dt] show ?thesis
    by (auto simp: handle_unknown_packet_def answers_busy_def Let_def split: option.split)
qed

lemma busy_packet:
  assumes "replay_in_flight g" and "\<not> asks_worker pk"
  shows "\<exists>g'. handle_packet dt pk g = Ret g' \<and> only_flags g g' \<and> (\<not> asks_replay pk \<longrightarrow> flags_kept g g')"
proof -
  note busy = busy_answers [OF assms(1), of dt, unfolded answers_busy_def]
  show ?thesis
  proof (cases pk)
    case (PkUnknown body)
    with busy_unknown [OF assms(1), of body dt] assms(2) show ?thesis by (simp add: flags_kept_def)
  qed (use assms busy busy_resume busy_spawn in
      \<open>simp_all add: after_def flags_kept_def reverse_cont_def reverse_step_def clear_resume_actions_def set_resume_action_continue_def
        set_resume_action_step_def set_resume_action_range_step_def only_flags_def end_state_def\<close>)
qed

text \<open>
  C20. A running target is never disturbed by a packet. While a replay is in flight, any sequence of
  packets except the interrupt and the poll (which are meant for the worker) is handled to the end without
  blocking and without a panic. Of all that the protocol target and the worker share, it can change only
  two flags: a resume, which is refused, still uses up a pending restart and may clear the end state. The
  debuggee, the lock, the job, the pending interrupt and result, and the checkpoints are as before. And
  after it every handler that needs the backend still answers its busy reply at once, whatever its arguments.
\<close>

theorem busy_target_untouched:
  assumes "replay_in_flight g" and "\<forall>pk\<in>set pks. \<not> asks_worker pk"
  shows "\<exists>g'. handle_packets dt pks g = Ret g' \<and> only_flags g g'
    \<and> ((\<forall>pk\<in>set pks. \<not> asks_replay pk) \<longrightarrow> flags_kept g g') \<and> answers_busy dt g'"
  using assms
proof (induction pks arbitrary: g)
  case Nil
  then show ?case by (simp add: busy_answers flags_kept_def)
next
  case (Cons pk pks)
  obtain g1 where g1: "handle_packet dt pk g = Ret g1" "only_flags g g1" "\<not> asks_replay pk \<longrightarrow> flags_kept g g1"
    using busy_packet [OF Cons.prems(1), of pk dt] Cons.prems(2) by auto
  then obtain g' where "handle_packets dt pks g1 = Ret g'" "only_flags g1 g'"
    "(\<forall>pk\<in>set pks. \<not> asks_replay pk) \<longrightarrow> flags_kept g1 g'" "answers_busy dt g'"
    using Cons.IH [of g1] Cons.prems only_flags_busy [OF g1(2)] by auto
  with g1 only_flags_trans show ?case by (auto simp: flags_kept_def)
qed

definition sim_running :: "sim ttd_process gdb_target" where
  "sim_running = fst (gt_resume_op (ttd_target sim_api (\<lambda>_. 0)) sim_gdb)"

lemma sim_running_in_flight: "replay_in_flight sim_running"
  by (simp add: sim_running_def gt_resume_op_def resume_take_def spawn_replay_def start_job_def runner_start_def
      replay_in_flight_def in_flight_def sim_gdb_def gdb_target_new_def runner_new_def end_state_def resume_default_def
      Let_def split_beta)

theorem busy_target_untouched_witness:
  "\<exists>g'. handle_packets (ttd_target sim_api (\<lambda>_. 0)) [PkAddSw 0x1002, PkResume, PkMonitor ''ttd stats''] sim_running = Ret g'
     \<and> worker (gt_runner g') = worker (gt_runner sim_running) \<and> get_auxv (ttd_target sim_api (\<lambda>_. 0)) 0 16 [0, 0] g' = Inl NonFatal"
proof -
  have "\<forall>pk\<in>set [PkAddSw 0x1002, PkResume, PkMonitor ''ttd stats'']. \<not> asks_worker pk" by simp
  from busy_target_untouched [OF sim_running_in_flight this, of "ttd_target sim_api (\<lambda>_. 0)"] show ?thesis
    by (force simp: only_flags_def answers_busy_def)
qed

section \<open>A worker left alone\<close>

text \<open>The only step each phase has when no send is outstanding.\<close>

lemma worker_alone_simps:
  "worker s = Spawned job oni \<Longrightarrow> unsent s = [] \<Longrightarrow>
     worker_alone s t \<longleftrightarrow> \<not> guard_held s \<and> t = s\<lparr>guard_held := True, worker := Locked job oni\<rparr>"
  "worker s = Locked job oni \<Longrightarrow> unsent s = [] \<Longrightarrow>
     worker_alone s t \<longleftrightarrow> (\<exists>out. job (backend s) = Some out \<and> t = job_returned out oni s)"
  "worker s = Ran x oni \<Longrightarrow> unsent s = [] \<Longrightarrow>
     worker_alone s t \<longleftrightarrow> (if interrupted s then \<exists>out. oni (backend s) = Some out \<and> t = replace_result out s else t = keep_result x s)"
  "worker s = Finished y \<Longrightarrow> unsent s = [] \<Longrightarrow> worker_alone s t \<longleftrightarrow> t = s\<lparr>worker := Detached y\<rparr>"
  "worker s = Detached y \<Longrightarrow> unsent s = [] \<Longrightarrow> worker_alone s t \<longleftrightarrow> t = publish_idle y s"
  "worker s = NoWorker \<Longrightarrow> unsent s = [m] \<Longrightarrow> worker_alone s t \<longleftrightarrow> t = send_result m s"
  unfolding worker_alone_def by (cases m; auto simp: worker_step.simps)+

text \<open>Stepping on from a state with one successor.\<close>

lemma run_out_step:
  assumes "worker_alone\<^sup>*\<^sup>* s r" and "\<nexists>r'. worker_alone r r'" and "\<And>t. worker_alone s t \<longleftrightarrow> t = s1"
  shows "worker_alone\<^sup>*\<^sup>* s1 r"
  using assms(1) by (cases rule: converse_rtranclpE) (use assms(2,3) in auto)

lemma finished_runs_out:
  assumes "worker_alone\<^sup>*\<^sup>* s r" and "\<nexists>r'. worker_alone r r'" and "worker s = Finished y" and "unsent s = []"
  shows "r = s\<lparr>worker := NoWorker, replay_running := False, inbox := Some y\<rparr>"
proof -
  let ?d = "s\<lparr>worker := Detached y\<rparr>" let ?p = "publish_idle y ?d" let ?f = "send_result (channel s, y) ?p"
  note run_d = run_out_step [OF assms(1,2) worker_alone_simps(4) [OF assms(3,4)]]
  have "worker_alone ?d t \<longleftrightarrow> t = ?p" for t by (rule worker_alone_simps(5)) (simp_all add: assms)
  note run_p = run_out_step [OF run_d assms(2) this]
  have "worker_alone ?p t \<longleftrightarrow> t = ?f" for t
    by (rule worker_alone_simps(6)) (simp_all add: publish_idle_def assms)
  note run = run_out_step [OF run_p assms(2) this]
  have f: "?f = s\<lparr>worker := NoWorker, replay_running := False, inbox := Some y\<rparr>"
    by (simp add: publish_idle_def send_result_def assms(4))
  have "\<not> worker_alone ?f t" for t by (auto simp: f worker_alone_def worker_step.simps assms(4))
  with run have "r = ?f" by (metis converse_rtranclpE)
  with f show ?thesis by simp
qed

text \<open>The end of a job that nothing interrupted, and of one that was interrupted while it ran.\<close>

lemma job_runs_out:
  assumes "worker_alone\<^sup>*\<^sup>* s r" and "\<nexists>r'. worker_alone r r'"
    and "worker s = Spawned job oni" and "unsent s = []" and "\<not> guard_held s" and "job (backend s) = Some (b, Returned x)"
    and "if interrupted s then oni b = Some (b', Returned y) else b' = b \<and> y = x"
  shows "r = s\<lparr>guard_held := False, backend := b', interrupted := False, worker := NoWorker,
    replay_running := False, inbox := Some (Inr y)\<rparr>"
proof -
  let ?l = "s\<lparr>guard_held := True, worker := Locked job oni\<rparr>"
  let ?j = "job_returned (b, Returned x) oni ?l"
  let ?k = "s\<lparr>guard_held := False, backend := b', interrupted := False, worker := Finished (Inr y)\<rparr>"
  have "worker_alone s t \<longleftrightarrow> t = ?l" for t
    using worker_alone_simps(1) [OF assms(3,4), of t] assms(5) by simp
  note run_l = run_out_step [OF assms(1,2) this]
  have "worker_alone ?l t \<longleftrightarrow> t = ?j" for t
    using worker_alone_simps(2) [of ?l job oni t] assms(4,6) by simp
  note run_j = run_out_step [OF run_l assms(2) this]
  have "worker_alone ?j t \<longleftrightarrow> t = ?k" for t
  proof (cases "interrupted s")
    case True
    have k: "replace_result (b', Returned y) ?j = ?k" by (simp add: job_returned_def replace_result_def)
    have "worker_alone ?j t \<longleftrightarrow> t = replace_result (b', Returned y) ?j"
      using True worker_alone_simps(3) [of ?j x oni t] assms(4,7) by (simp add: job_returned_def)
    then show ?thesis unfolding k .
  next
    case False
    then have "?k = keep_result x ?j" using assms(7) by (simp add: job_returned_def keep_result_def)
    with False worker_alone_simps(3) [of ?j x oni t] assms(4) show ?thesis
      by (simp add: job_returned_def)
  qed
  note run_k = run_out_step [OF run_j assms(2) this]
  from finished_runs_out [OF run_k assms(2), of "Inr y"] assms(4) show ?thesis by simp
qed

end
