(* ===== verification/Stop_Sequences.thy ===== *)
theory Stop_Sequences
  imports Gdb_Invariants
begin

text \<open>
  What a client sees of a resume, from the packet to the stop reply: the two-stage exit, the stop after a
  restart, and what an interrupt changes. A resume here is \<open>spawn_replay\<close>, the worker's whole run, and
  the poll that takes its result.
\<close>

section \<open>A resume and its reply\<close>

text \<open>No job is under way and no send outstanding: the state between a stop reply and the next packet.\<close>

definition at_rest :: "'t gdb_target \<Rightarrow> bool" where
  "at_rest g \<longleftrightarrow> runner_inv (gt_runner g) \<and> \<not> replay_in_flight g \<and> unsent (gt_runner g) = [] \<and> \<not> asking (gt_runner g)"

definition runs_out :: "('t, 'r) runner \<Rightarrow> ('t, 'r) runner \<Rightarrow> bool" where
  "runs_out s r \<longleftrightarrow> worker_alone\<^sup>*\<^sup>* s r \<and> (\<nexists>r'. worker_alone r r')"

definition polled :: "'t target_ops \<Rightarrow> 't gdb_target \<Rightarrow> multi_stop \<Rightarrow> 't gdb_target \<Rightarrow> bool" where
  "polled dt g s g' \<longleftrightarrow> (\<exists>r. runs_out (gt_runner g) r \<and> take_stop_reason dt (g\<lparr>gt_runner := r\<rparr>) = (g', Some s))"

definition replies :: "'t target_ops \<Rightarrow> replay_op \<Rightarrow> 't gdb_target \<Rightarrow> multi_stop \<Rightarrow> 't gdb_target \<Rightarrow> bool" where
  "replies dt op g s g' \<longleftrightarrow> (\<exists>g1. spawn_replay dt op g = (g1, Inr ()) \<and> polled dt g1 s g')"

text \<open>The same with an interrupt requested while the job runs.\<close>

definition replies_interrupted :: "'t target_ops \<Rightarrow> replay_op \<Rightarrow> 't gdb_target \<Rightarrow> multi_stop \<Rightarrow> 't gdb_target \<Rightarrow> bool" where
  "replies_interrupted dt op g s g' \<longleftrightarrow>
     (\<exists>g1. spawn_replay dt op g = (g1, Inr ()) \<and> polled dt (interrupt_replay g1) s g')"

definition begun :: "'t target_ops \<Rightarrow> 't gdb_target \<Rightarrow> 't \<times> bool" where
  "begun dt g = (dt_begin_resume dt (fst (backend (gt_runner g))), end_state g)"

text \<open>The target after its worker ended with the shared state \<open>be\<close> and its result was taken.\<close>

definition settled :: "'t \<times> bool \<Rightarrow> 't gdb_target \<Rightarrow> 't gdb_target" where
  "settled be g = g\<lparr>gt_runner := (gt_runner g)\<lparr>guard_held := False, backend := be, interrupted := False,
     worker := NoWorker, replay_running := False, inbox := None\<rparr>\<rparr>"

text \<open>A job waiting for the lock, in a state where nothing else is under way.\<close>

definition waiting :: "('t \<times> bool, multi_stop) job \<Rightarrow> ('t \<times> bool, multi_stop) job \<Rightarrow> 't gdb_target \<Rightarrow> bool" where
  "waiting job oni g \<longleftrightarrow> worker (gt_runner g) = Spawned job oni \<and> unsent (gt_runner g) = [] \<and> \<not> guard_held (gt_runner g)
     \<and> \<not> asking (gt_runner g)"

lemma polled_iff:
  assumes "waiting job oni g" and "job (backend (gt_runner g)) = Some (b, Returned x)"
    and "if interrupted (gt_runner g) then oni b = Some (b', Returned y) else b' = b \<and> y = x"
  shows "polled dt g s g' \<longleftrightarrow> s = y \<and> g' = settled b' g"
proof -
  let ?r = "gt_runner g"
  let ?f = "?r\<lparr>guard_held := False, backend := b', interrupted := False, worker := NoWorker, replay_running := False, inbox := Some (Inr y)\<rparr>"
  have final: "r = ?f" if "runs_out ?r r" for r
    using that job_runs_out [of ?r r job oni b x b' y] assms by (simp add: runs_out_def waiting_def)
  obtain r where "runs_out ?r r" using worker_runs_out [of ?r] by (auto simp: runs_out_def)
  with final have "runs_out ?r ?f" by metis
  then have "polled dt g s g' \<longleftrightarrow> take_stop_reason dt (g\<lparr>gt_runner := ?f\<rparr>) = (g', Some s)"
    unfolding polled_def using final by blast
  then show ?thesis
    by (auto simp: take_stop_reason_def take_result_def map_worker_result_def settled_def)
qed

lemma settled_simps [simp]:
  "backend (gt_runner (settled be g)) = be" "restart_pending (settled be g) = restart_pending g"
  "end_state (settled be g) = snd be" "checkpoints (settled be g) = checkpoints g"
  by (simp_all add: settled_def end_state_def)

lemma settled_at_rest: "waiting job oni g \<Longrightarrow> at_rest (settled be g)"
  by (auto simp: waiting_def at_rest_def settled_def runner_inv_def replay_in_flight_def in_flight_def)

text \<open>Starting a job when nothing is under way is accepted.\<close>

lemma start_job_at_rest:
  assumes "at_rest g"
  obtains g1 where "start_job dt job oni g = (g1, Inr ())" and "waiting job oni g1"
    and "backend (gt_runner g1) = begun dt g" and "\<not> interrupted (gt_runner g1)" and "replay_running (gt_runner g1)"
    and "interrupt_fn (gt_runner g1) = interrupt_fn (gt_runner g)"
    and "restart_pending g1 = restart_pending g" and "checkpoints g1 = checkpoints g"
proof (rule that)
  let ?g = "g\<lparr>gt_runner := (gt_runner g)\<lparr>replay_running := True, interrupted := False,
      backend := begun dt g, channel := channel (gt_runner g) + 1, inbox := None, worker := Spawned job oni\<rparr>\<rparr>"
  show "start_job dt job oni g = (?g, Inr ())"
    using assms by (simp add: start_job_def runner_start_def at_rest_def replay_in_flight_def in_flight_def begun_def
      end_state_def split_beta Let_def)
  show "waiting job oni ?g"
    using assms by (auto simp: waiting_def at_rest_def runner_inv_def replay_in_flight_def in_flight_def)
qed simp_all

section \<open>The modes of a session\<close>

text \<open>
  What a client has to know of a stopped target to predict a resume: whether a restart is waiting for its
  resume, whether the recorded exit was reported, or neither. \<open>mode_resume\<close> is the contract: the
  backend, the reply and the next mode, without threads, locks or channels.
\<close>

datatype session_mode = Live | Restarted | AtExit

definition mode_resume ::
  "'t target_ops \<Rightarrow> replay_op \<Rightarrow> session_mode \<Rightarrow> 't \<Rightarrow> ('t \<times> multi_stop \<times> session_mode) option" where
  "mode_resume dt op m b =
     (if is_forward op \<and> m = Restarted then (let (b', i) = stop_tid dt b in Some (b', SignalWithThread i SIGTRAP, Live))
      else if is_forward op \<and> m = AtExit then Some (b, Exited 0, AtExit)
      else (case execute_op dt op b of
              Ret (b1, r) \<Rightarrow> (let (b2, s) = map_stop_reason dt r b1
                 in Some (b2, s, if is_forward op \<and> r = Inr ProcessExit then AtExit else Live))
            | _ \<Rightarrow> None))"

definition session_mode_of :: "'t gdb_target \<Rightarrow> session_mode" where
  "session_mode_of g = (if restart_pending g then Restarted else if end_state g then AtExit else Live)"

definition session_backend :: "'t gdb_target \<Rightarrow> 't" where
  "session_backend g = fst (backend (gt_runner g))"

text \<open>Between a reply and the next packet; a pending restart has left the end state.\<close>

definition stopped :: "'t gdb_target \<Rightarrow> bool" where
  "stopped g \<longleftrightarrow> at_rest g \<and> (restart_pending g \<longrightarrow> \<not> end_state g)"

definition resume_job :: "'t target_ops \<Rightarrow> replay_op \<Rightarrow> 't gdb_target \<Rightarrow> ('t \<times> bool, multi_stop) job" where
  "resume_job dt op g =
     (if is_forward op \<and> restart_pending g then signal_job dt SIGTRAP
      else if is_forward op \<and> end_state g then exit_job else replay_job dt op)"

definition resume_oni :: "'t target_ops \<Rightarrow> replay_op \<Rightarrow> 't gdb_target \<Rightarrow> ('t \<times> bool, multi_stop) job" where
  "resume_oni dt op g =
     (if is_forward op \<and> restart_pending g then signal_job dt SIGTRAP
      else if is_forward op \<and> end_state g then exit_job else signal_job dt SIGINT)"

definition readied :: "replay_op \<Rightarrow> 't gdb_target \<Rightarrow> 't gdb_target" where
  "readied op g = (if \<not> is_forward op \<and> end_state g then store_end_state False (g\<lparr>restart_pending := False\<rparr>)
     else g\<lparr>restart_pending := False\<rparr>)"

lemma readied_at_rest: "at_rest g \<Longrightarrow> at_rest (readied op g)"
  by (auto simp: at_rest_def readied_def store_end_state_def runner_inv_def replay_in_flight_def in_flight_def)

lemma readied_simps [simp]:
  "\<not> restart_pending (readied op g)" "checkpoints (readied op g) = checkpoints g"
  "interrupt_fn (gt_runner (readied op g)) = interrupt_fn (gt_runner g)"
  "begun dt (readied op g) = (dt_begin_resume dt (session_backend g), is_forward op \<and> end_state g)"
  by (auto simp: readied_def store_end_state_def begun_def session_backend_def end_state_def)

lemma spawn_replay_job: "spawn_replay dt op g = start_job dt (resume_job dt op g) (resume_oni dt op g) (readied op g)"
  by (simp add: spawn_replay_def resume_job_def resume_oni_def readied_def spawn_position_stop_def spawn_exit_reply_def
      end_state_def Let_def)

lemma spawn_replay_waiting:
  assumes "stopped g"
  obtains g1 where "spawn_replay dt op g = (g1, Inr ())" and "waiting (resume_job dt op g) (resume_oni dt op g) g1"
    and "backend (gt_runner g1) = (dt_begin_resume dt (session_backend g), is_forward op \<and> end_state g)"
    and "\<not> interrupted (gt_runner g1)" and "replay_running (gt_runner g1)"
    and "interrupt_fn (gt_runner g1) = interrupt_fn (gt_runner g)"
    and "\<not> restart_pending g1" and "checkpoints g1 = checkpoints g"
  using start_job_at_rest [OF readied_at_rest, of g dt "resume_job dt op g" "resume_oni dt op g" op] assms
  by (auto simp: stopped_def spawn_replay_job)

lemma resume_job_modes:
  assumes "stopped g" and "mode_resume dt op (session_mode_of g) b = Some (b', s, m)"
  shows "resume_job dt op g (b, is_forward op \<and> end_state g) = Some ((b', m = AtExit), Returned s)" and "m \<noteq> Restarted"
  using assms
  by (auto simp: resume_job_def mode_resume_def session_mode_of_def stopped_def signal_job_def exit_job_def replay_job_def
      split_beta Let_def split: if_splits run.splits prod.splits)

lemma mode_settled: "\<not> restart_pending g \<Longrightarrow> m \<noteq> Restarted \<Longrightarrow> session_mode_of (settled (b, m = AtExit) g) = m"
  by (cases m) (auto simp: session_mode_of_def)

text \<open>One resume: the reply and the state after it are those of the contract, and no others.\<close>

lemma replies_modes:
  assumes "stopped g" and "mode_resume dt op (session_mode_of g) (dt_begin_resume dt (session_backend g)) = Some (b, s, m)"
  obtains g' where "stopped g'" and "session_backend g' = b" and "session_mode_of g' = m" and "checkpoints g' = checkpoints g"
    and "interrupt_fn (gt_runner g') = interrupt_fn (gt_runner g)"
    and "\<And>s2 g2. replies dt op g s2 g2 \<longleftrightarrow> s2 = s \<and> g2 = g'"
proof -
  obtain g1 where g1: "spawn_replay dt op g = (g1, Inr ())" "waiting (resume_job dt op g) (resume_oni dt op g) g1"
    "backend (gt_runner g1) = (dt_begin_resume dt (session_backend g), is_forward op \<and> end_state g)"
    "\<not> interrupted (gt_runner g1)" "\<not> restart_pending g1" "checkpoints g1 = checkpoints g"
    "interrupt_fn (gt_runner g1) = interrupt_fn (gt_runner g)"
    using spawn_replay_waiting [OF assms(1), of dt op] by blast
  let ?g' = "settled (b, m = AtExit) g1"
  have "replies dt op g s2 g2 \<longleftrightarrow> s2 = s \<and> g2 = ?g'" for s2 g2
    using polled_iff [OF g1(2), of "(b, m = AtExit)" s "(b, m = AtExit)" s dt s2 g2] g1(1,3,4)
      resume_job_modes(1) [OF assms] by (simp add: replies_def)
  moreover have "stopped ?g'" using settled_at_rest [OF g1(2)] g1(5) by (simp add: stopped_def)
  moreover have "session_mode_of ?g' = m" using mode_settled [OF g1(5)] resume_job_modes(2) [OF assms] by blast
  ultimately show thesis using that [of ?g'] g1(6,7) by (simp add: session_backend_def settled_def)
qed

fun modes_run ::
  "'t target_ops \<Rightarrow> replay_op list \<Rightarrow> session_mode \<Rightarrow> 't \<Rightarrow> ('t \<times> multi_stop list \<times> session_mode) option" where
  "modes_run dt [] m b = Some (b, [], m)"
| "modes_run dt (op # ops) m b =
     (case mode_resume dt op m (dt_begin_resume dt b) of
        None \<Rightarrow> None
      | Some (b1, s, m1) \<Rightarrow> map_option (\<lambda>(b2, ss, m2). (b2, s # ss, m2)) (modes_run dt ops m1 b1))"

fun exchange :: "'t target_ops \<Rightarrow> replay_op list \<Rightarrow> 't gdb_target \<Rightarrow> multi_stop list \<Rightarrow> 't gdb_target \<Rightarrow> bool" where
  "exchange dt [] g ss g' \<longleftrightarrow> ss = [] \<and> g' = g"
| "exchange dt (op # ops) g ss g' \<longleftrightarrow> (\<exists>s ss1 h. ss = s # ss1 \<and> replies dt op g s h \<and> exchange dt ops h ss1 g')"

lemma exchange_modes:
  assumes "stopped g" and "modes_run dt ops (session_mode_of g) (session_backend g) = Some (b, ss, m)"
  shows "\<exists>g'. stopped g' \<and> session_backend g' = b \<and> session_mode_of g' = m \<and> checkpoints g' = checkpoints g
     \<and> (\<forall>ss2 g2. exchange dt ops g ss2 g2 \<longleftrightarrow> ss2 = ss \<and> g2 = g')"
  using assms
proof (induction ops arbitrary: g b ss m)
  case (Cons op ops)
  from Cons.prems(2) obtain b1 s m1 ss1 where
    one: "mode_resume dt op (session_mode_of g) (dt_begin_resume dt (session_backend g)) = Some (b1, s, m1)"
    and rest: "modes_run dt ops m1 b1 = Some (b, ss1, m)" and ss: "ss = s # ss1"
    by (auto split: option.splits)
  obtain h where h: "stopped h" "session_backend h = b1" "session_mode_of h = m1" "checkpoints h = checkpoints g"
    "\<And>s2 g2. replies dt op g s2 g2 \<longleftrightarrow> s2 = s \<and> g2 = h"
    using replies_modes [OF Cons.prems(1) one] by metis
  with Cons.IH [of h b ss1 m] rest show ?case by (auto simp: ss)
qed auto

text \<open>
  C4. The server implements the session contract: whatever sequence of resumes a client sends, one reply
  awaited before the next, the replies, the final debuggee and the final mode are exactly those of
  \<open>modes_run\<close>, which knows nothing of worker threads, the lock, the shared flags and the channel. Each
  resume is answered, its answer is unique, and checkpoints are untouched.
\<close>

theorem resumes_refine_contract:
  assumes "stopped g" and "modes_run dt ops (session_mode_of g) (session_backend g) = Some (b, ss, m)"
  shows "\<exists>g'. stopped g' \<and> session_backend g' = b \<and> session_mode_of g' = m \<and> checkpoints g' = checkpoints g
     \<and> (\<forall>ss2 g2. exchange dt ops g ss2 g2 \<longleftrightarrow> ss2 = ss \<and> g2 = g')"
  using assms by (rule exchange_modes)

section \<open>The recorded exit\<close>

lemma modes_run_append:
  "modes_run dt (xs @ ys) m b = (case modes_run dt xs m b of None \<Rightarrow> None
     | Some (b1, ss1, m1) \<Rightarrow> map_option (\<lambda>(b2, ss2, m2). (b2, ss1 @ ss2, m2)) (modes_run dt ys m1 b1))"
proof (induction xs arbitrary: m b)
  case Nil
  show ?case by (cases "modes_run dt ys m b") auto
next
  case (Cons op xs)
  show ?case
    by (auto simp: Cons.IH option.map_comp comp_def split: option.splits intro!: option.map_cong0)
qed

lemma at_exit_run:
  assumes "\<forall>op\<in>set ops. is_forward op"
  shows "modes_run dt ops AtExit b = Some ((dt_begin_resume dt ^^ length ops) b, replicate (length ops) (Exited 0), AtExit)"
  using assms by (induction ops arbitrary: b) (simp_all add: mode_resume_def funpow_swap1)

text \<open>
  C17. The recorded exit is reported in two stages. A forward resume that reaches it is answered with the
  rewindable SIGKILL stop; every further forward resume is answered with the real exit and replays
  nothing (the debuggee only has its interrupt request cleared); the first backward resume replays from
  the exit stop, reports what the backend reports, and forward resumes replay again.
\<close>

theorem exit_in_two_stages:
  assumes "stopped g" and "session_mode_of g = Live" and "is_forward op"
    and "execute_op dt op (dt_begin_resume dt (session_backend g)) = Ret (b1, Inr ProcessExit)"
    and "\<forall>o'\<in>set ops. is_forward o'" and "\<not> is_forward back"
    and "execute_op dt back ((dt_begin_resume dt ^^ (length ops + 1)) (fst (stop_tid dt b1))) = Ret (b2, r)"
  shows "\<exists>g'. session_mode_of g' = Live \<and> session_backend g' = fst (map_stop_reason dt r b2)
     \<and> (\<forall>ss g2. exchange dt (op # ops @ [back]) g ss g2 \<longleftrightarrow>
          ss = SignalWithThread (snd (stop_tid dt b1)) SIGKILL # replicate (length ops) (Exited 0) @ [snd (map_stop_reason dt r b2)]
          \<and> g2 = g')"
proof -
  let ?b = "fst (stop_tid dt b1)"
  let ?s = "SignalWithThread (snd (stop_tid dt b1)) SIGKILL"
  have first: "mode_resume dt op Live (dt_begin_resume dt (session_backend g)) = Some (?b, ?s, AtExit)"
    using assms(3,4) by (simp add: mode_resume_def map_stop_reason_def split_beta Let_def)
  have last: "modes_run dt [back] AtExit ((dt_begin_resume dt ^^ length ops) ?b)
      = Some (fst (map_stop_reason dt r b2), [snd (map_stop_reason dt r b2)], Live)"
    using assms(6,7) by (simp add: mode_resume_def split_beta Let_def)
  have "modes_run dt (op # ops @ [back]) (session_mode_of g) (session_backend g)
      = Some (fst (map_stop_reason dt r b2), ?s # replicate (length ops) (Exited 0) @ [snd (map_stop_reason dt r b2)], Live)"
    using first last at_exit_run [OF assms(5), of dt ?b] assms(2) by (simp add: modes_run_append)
  from exchange_modes [OF assms(1) this] show ?thesis by blast
qed

section \<open>Restarts\<close>

lemma restarted_stopped: "at_rest g \<Longrightarrow> stopped (restarted b g) \<and> session_mode_of (restarted b g) = Restarted \<and> session_backend (restarted b g) = b"
  by (auto simp: stopped_def at_rest_def restarted_def note_restart_def clear_end_state_def store_end_state_def
      session_mode_of_def session_backend_def end_state_def runner_inv_def replay_in_flight_def in_flight_def)

text \<open>
  C18. A restart holds its position until a resume confirms it: from any stop, the recorded exit
  included, a restart packet that succeeds moved the debuggee with \<open>goto\<close>, and the forward resume that
  follows is answered with a trap on the debuggee's thread without replaying; the forward resume after
  that one replays, even when the restart was sent from the end state.
\<close>

theorem restart_holds_position:
  assumes "stopped g" and "gt_run dt args g = Ret (g1, Inr pid)" and "is_forward op" and "is_forward op2"
    and "execute_op dt op2 (dt_begin_resume dt (fst (stop_tid dt (dt_begin_resume dt (session_backend g1))))) = Ret (b2, r)"
  shows "handle_vrun dt (checkpoints g) args (session_backend g) = Ret (session_backend g1, Inr ())
     \<and> (\<exists>g'. \<forall>ss g2. exchange dt [op, op2] g1 ss g2 \<longleftrightarrow>
          ss = [SignalWithThread (snd (stop_tid dt (dt_begin_resume dt (session_backend g1)))) SIGTRAP, snd (map_stop_reason dt r b2)]
          \<and> g2 = g')"
proof -
  from assms(1) have rest: "at_rest g" by (simp add: stopped_def)
  obtain b where run: "handle_vrun dt (checkpoints g) args (session_backend g) = Ret (b, Inr ())" and g1: "g1 = restarted b g"
    using assms(2) rest by (auto simp: gt_run_def try_lock_def in_flight_def session_backend_def split: if_splits run.splits sum.splits prod.splits)
  note st = restarted_stopped [OF rest, of b, folded g1]
  then have "modes_run dt [op, op2] (session_mode_of g1) (session_backend g1) = Some (fst (map_stop_reason dt r b2),
      [SignalWithThread (snd (stop_tid dt (dt_begin_resume dt (session_backend g1)))) SIGTRAP, snd (map_stop_reason dt r b2)],
      if r = Inr ProcessExit then AtExit else Live)"
    using assms(3-5) by (simp add: mode_resume_def split_beta Let_def)
  from exchange_modes [OF conjunct1 [OF st] this] show ?thesis using run st by blast
qed

section \<open>An interrupt that meets the exit\<close>

text \<open>
  C40. What an interrupt changes when it arrives before a forward replay ends at the recorded exit: the
  reply is the interrupt's SIGINT, but the session is in the end state all the same, so the client's next
  forward resume is answered with the real exit although no exit stop was ever reported.
\<close>

theorem interrupt_hides_exit_stop:
  assumes "stopped g" and "session_mode_of g = Live" and "is_forward op" and "is_forward op2"
    and "interrupt_fn (gt_runner g) = Some (\<lambda>(b, e). (f b, e))"
    and "execute_op dt op (f (dt_begin_resume dt (session_backend g))) = Ret (b1, Inr ProcessExit)"
  shows "\<exists>i g1. (\<forall>s h. replies_interrupted dt op g s h \<longleftrightarrow> s = SignalWithThread i SIGINT \<and> h = g1)
     \<and> session_mode_of g1 = AtExit \<and> (\<exists>g2. \<forall>s h. replies dt op2 g1 s h \<longleftrightarrow> s = Exited 0 \<and> h = g2)"
proof -
  have modes: "\<not> restart_pending g" "\<not> end_state g" using assms(2) by (auto simp: session_mode_of_def split: if_splits)
  obtain g0 where g0: "spawn_replay dt op g = (g0, Inr ())" "waiting (replay_job dt op) (signal_job dt SIGINT) g0"
    "backend (gt_runner g0) = (dt_begin_resume dt (session_backend g), False)" "replay_running (gt_runner g0)"
    "interrupt_fn (gt_runner g0) = Some (\<lambda>(b, e). (f b, e))" "\<not> restart_pending g0"
    using spawn_replay_waiting [OF assms(1), of dt op] assms(5) modes by (auto simp: resume_job_def resume_oni_def)
  let ?h = "interrupt_replay g0"
  have h: "waiting (replay_job dt op) (signal_job dt SIGINT) ?h" "interrupted (gt_runner ?h)" "\<not> restart_pending ?h"
    "backend (gt_runner ?h) = (f (dt_begin_resume dt (session_backend g)), False)"
    using g0 by (auto simp: interrupt_replay_def interrupt_check_def interrupt_fire_def waiting_def)
  define b2 where "b2 = fst (stop_tid dt b1)"
  define b3 where "b3 = fst (stop_tid dt b2)"
  define i where "i = snd (stop_tid dt b2)"
  have job: "replay_job dt op (backend (gt_runner ?h)) = Some ((b2, True), Returned (SignalWithThread (snd (stop_tid dt b1)) SIGKILL))"
    using assms(3,6) h(4) by (simp add: replay_job_def map_stop_reason_def split_beta Let_def b2_def)
  have oni: "signal_job dt SIGINT (b2, True) = Some ((b3, True), Returned (SignalWithThread i SIGINT))"
    by (simp add: signal_job_def split_beta Let_def b3_def i_def)
  let ?g1 = "settled (b3, True) ?h"
  have "replies_interrupted dt op g s k \<longleftrightarrow> s = SignalWithThread i SIGINT \<and> k = ?g1" for s k
    using polled_iff [OF h(1) job, of "(b3, True)" "SignalWithThread i SIGINT" dt s k] h(2) oni g0(1)
    by (simp add: replies_interrupted_def)
  moreover have exit: "session_mode_of ?g1 = AtExit" "stopped ?g1"
    using h(3) settled_at_rest [OF h(1)] by (simp_all add: session_mode_of_def stopped_def)
  moreover have "mode_resume dt op2 (session_mode_of ?g1) (dt_begin_resume dt (session_backend ?g1))
      = Some (dt_begin_resume dt (session_backend ?g1), Exited 0, AtExit)"
    using exit(1) assms(4) by (simp add: mode_resume_def)
  then obtain g2 where "\<And>s k. replies dt op2 ?g1 s k \<longleftrightarrow> s = Exited 0 \<and> k = g2"
    by (rule replies_modes [OF exit(2)]) blast
  ultimately show ?thesis by blast
qed

section \<open>The simulated session at its last instruction\<close>

abbreviation sim_dt :: "sim ttd_process target_ops" where
  "sim_dt \<equiv> ttd_target sim_api (\<lambda>_. 0)"

definition sim_last :: "sim ttd_process gdb_target" where
  "sim_last = gdb_target_new no_file no_text sim_dt (sim_process\<lparr>tp_position := sim_position 7\<rparr>) checkpoints_new"

definition ran :: "('t \<times> (debug_error, stop_reason) result) run \<Rightarrow> 't \<Rightarrow> 't" where
  "ran r b = (case r of Ret (b', _) \<Rightarrow> b' | _ \<Rightarrow> b)"

definition sim_exited :: "sim ttd_process" where
  "sim_exited = ran (execute_op sim_dt OpContinue (dt_begin_resume sim_dt (session_backend sim_last))) sim_process"

lemma gdb_target_new_stopped: "stopped (gdb_target_new opened xml dt b cps)" "session_mode_of (gdb_target_new opened xml dt b cps) = Live"
  "session_backend (gdb_target_new opened xml dt b cps) = b"
  by (simp_all add: stopped_def at_rest_def session_mode_of_def session_backend_def gdb_target_new_def runner_new_def runner_inv_def
      replay_in_flight_def in_flight_def end_state_def Let_def)

lemmas sim_last_stopped = gdb_target_new_stopped [of no_file no_text sim_dt "sim_process\<lparr>tp_position := sim_position 7\<rparr>" checkpoints_new,
  folded sim_last_def]

lemma sim_reaches_exit:
  "execute_op sim_dt OpContinue (dt_begin_resume sim_dt (session_backend sim_last)) = Ret (sim_exited, Inr ProcessExit)"
proof -
  have "case execute_op sim_dt OpContinue (dt_begin_resume sim_dt (session_backend sim_last)) of
      Ret (_, r) \<Rightarrow> r = Inr ProcessExit | _ \<Rightarrow> False"
    by code_simp
  then show ?thesis by (auto simp: sim_exited_def ran_def split: run.splits)
qed

lemma sim_exit_back:
  "\<exists>b r. execute_op sim_dt OpBackwardContinue ((dt_begin_resume sim_dt ^^ (length [OpContinue, OpStep 7] + 1)) (fst (stop_tid sim_dt sim_exited)))
     = Ret (b, r)"
proof -
  have "case execute_op sim_dt OpBackwardContinue ((dt_begin_resume sim_dt ^^ (length [OpContinue, OpStep 7] + 1)) (fst (stop_tid sim_dt sim_exited))) of
      Ret _ \<Rightarrow> True | _ \<Rightarrow> False"
    by code_simp
  then show ?thesis by (auto split: run.splits)
qed

theorem exit_in_two_stages_witness:
  "\<exists>i s g. exchange sim_dt [OpContinue, OpContinue, OpStep 7, OpBackwardContinue] sim_last
     [SignalWithThread i SIGKILL, Exited 0, Exited 0, s] g"
proof -
  obtain b r where b: "execute_op sim_dt OpBackwardContinue
      ((dt_begin_resume sim_dt ^^ (length [OpContinue, OpStep 7] + 1)) (fst (stop_tid sim_dt sim_exited))) = Ret (b, r)"
    using sim_exit_back by blast
  have "\<exists>g'. session_mode_of g' = Live \<and> session_backend g' = fst (map_stop_reason sim_dt r b)
     \<and> (\<forall>ss g2. exchange sim_dt (OpContinue # [OpContinue, OpStep 7] @ [OpBackwardContinue]) sim_last ss g2 \<longleftrightarrow>
          ss = SignalWithThread (snd (stop_tid sim_dt sim_exited)) SIGKILL # replicate (length [OpContinue, OpStep 7]) (Exited 0)
            @ [snd (map_stop_reason sim_dt r b)] \<and> g2 = g')"
    by (rule exit_in_two_stages [OF sim_last_stopped(1,2) _ sim_reaches_exit _ _ b]) simp_all
  then obtain g' where "\<forall>ss g2. exchange sim_dt (OpContinue # [OpContinue, OpStep 7] @ [OpBackwardContinue]) sim_last ss g2 \<longleftrightarrow>
          ss = SignalWithThread (snd (stop_tid sim_dt sim_exited)) SIGKILL # replicate (length [OpContinue, OpStep 7]) (Exited 0)
            @ [snd (map_stop_reason sim_dt r b)] \<and> g2 = g'" by blast
  then have "exchange sim_dt [OpContinue, OpContinue, OpStep 7, OpBackwardContinue] sim_last
     [SignalWithThread (snd (stop_tid sim_dt sim_exited)) SIGKILL, Exited 0, Exited 0, snd (map_stop_reason sim_dt r b)] g'"
    by (simp del: exchange.simps add: numeral_2_eq_2)
  then show ?thesis by blast
qed

theorem resumes_refine_contract_witness:
  "\<exists>g. session_mode_of g = AtExit \<and> (\<exists>i. exchange sim_dt [OpContinue, OpContinue] sim_last [SignalWithThread i SIGKILL, Exited 0] g)"
proof -
  have "modes_run sim_dt [OpContinue, OpContinue] (session_mode_of sim_last) (session_backend sim_last)
      = Some (dt_begin_resume sim_dt (fst (stop_tid sim_dt sim_exited)),
              [SignalWithThread (snd (stop_tid sim_dt sim_exited)) SIGKILL, Exited 0], AtExit)"
    using sim_reaches_exit by (simp add: sim_last_stopped(2) mode_resume_def map_stop_reason_def split_beta Let_def)
  from resumes_refine_contract [OF sim_last_stopped(1) this] show ?thesis by metis
qed

lemma sim_restart:
  "\<exists>g1. gt_run sim_dt [] sim_last = Ret (g1, Inr server_pid) \<and> (\<exists>b r. execute_op sim_dt (OpStep 7) (dt_begin_resume sim_dt
     (fst (stop_tid sim_dt (dt_begin_resume sim_dt (session_backend g1))))) = Ret (b, r))"
proof -
  have "case gt_run sim_dt [] sim_last of Ret (g1, Inr pid) \<Rightarrow> pid = server_pid \<and> (case execute_op sim_dt (OpStep 7) (dt_begin_resume sim_dt
     (fst (stop_tid sim_dt (dt_begin_resume sim_dt (session_backend g1))))) of Ret _ \<Rightarrow> True | _ \<Rightarrow> False) | _ \<Rightarrow> False"
    by code_simp
  then show ?thesis by (auto simp del: execute_op.simps split: run.split_asm prod.split_asm sum.split_asm)
qed

theorem restart_holds_position_witness:
  "\<exists>g1 i s g. gt_run sim_dt [] sim_last = Ret (g1, Inr server_pid)
     \<and> exchange sim_dt [OpContinue, OpStep 7] g1 [SignalWithThread i SIGTRAP, s] g"
proof -
  obtain g1 b r where run: "gt_run sim_dt [] sim_last = Ret (g1, Inr server_pid)"
    and ex: "execute_op sim_dt (OpStep 7) (dt_begin_resume sim_dt (fst (stop_tid sim_dt (dt_begin_resume sim_dt (session_backend g1))))) = Ret (b, r)"
    using sim_restart by blast
  from restart_holds_position [OF sim_last_stopped(1) run _ _ ex, of OpContinue] run show ?thesis
    by (simp del: exchange.simps) blast
qed

theorem interrupt_hides_exit_stop_witness:
  "\<exists>i g1 g2. replies_interrupted sim_dt OpContinue sim_last (SignalWithThread i SIGINT) g1 \<and> replies sim_dt OpContinue g1 (Exited 0) g2"
proof -
  have fn: "interrupt_fn (gt_runner sim_last) = Some (\<lambda>(b, e). (tp_interrupt sim_api b, e))"
    by (simp add: sim_last_def gdb_target_new_def runner_new_def Let_def)
  have "case execute_op sim_dt OpContinue (tp_interrupt sim_api (dt_begin_resume sim_dt (session_backend sim_last))) of
      Ret (_, r) \<Rightarrow> r = Inr ProcessExit | _ \<Rightarrow> False"
    by code_simp
  then obtain b where "execute_op sim_dt OpContinue (tp_interrupt sim_api (dt_begin_resume sim_dt (session_backend sim_last))) = Ret (b, Inr ProcessExit)"
    by (auto split: run.splits)
  from interrupt_hides_exit_stop [OF sim_last_stopped(1,2) _ _ fn this, of OpContinue] show ?thesis by (simp, metis)
qed
end
