(* ===== verification/Session.thy ===== *)
theory Session
  imports Stop_Sequences
begin

text \<open>
  The session layer (\<open>gdb/session.rs\<close>): the accept loop that threads the backend and the checkpoint table
  through sequential sessions, one session's set-up and tear-down, and the two hooks of the stub's event
  loop. The protocol library's event loop, the listening socket and the passing of time are parameters: a
  connection is what the stub did to the target while it ran (a handler that panics takes it down: \<open>run\<close>)
  and what the worker did in the grace period after it; an iteration of the accept loop carries the answers of the socket and of the shutdown flag.
\<close>

section \<open>Hooks of the event loop\<close>

datatype event = IncomingData u8 | TargetStopped multi_stop

text \<open>
  One turn of the polling loop: what \<open>peek\<close> and, if it saw a byte, \<open>read\<close> answered, and what the worker
  does while the loop sleeps.
\<close>

record 't poll =
  peeked :: "(unit, u8) result option"
  asleep :: "'t gdb_target \<Rightarrow> 't gdb_target"

fun wait_for_stop_reason ::
  "'t target_ops \<Rightarrow> 't poll list \<Rightarrow> 't gdb_target \<Rightarrow> ('t gdb_target \<times> (unit, event) result) option" where
  "wait_for_stop_reason dt [] g = None"
| "wait_for_stop_reason dt (p # ps) g =
     (case peeked p of
        Some (Inr byte) \<Rightarrow> Some (g, Inr (IncomingData byte))
      | Some (Inl e) \<Rightarrow> Some (g, Inl e)
      | None \<Rightarrow>
          (case take_stop_reason dt g of
             (g', Some reason) \<Rightarrow> Some (g', Inr (TargetStopped reason))
           | (g', None) \<Rightarrow> wait_for_stop_reason dt ps (asleep p g')))"

text \<open>A blocking receive returns once the worker (\<open>blocked\<close>: its steps meanwhile) has sent.\<close>

definition wait_result :: "(('t, 'r) runner \<Rightarrow> ('t, 'r) runner) \<Rightarrow> ('t, 'r) runner \<Rightarrow> ('t, 'r) runner \<times> 'r outcome option" where
  "wait_result blocked s = take_result (blocked s)"

definition wait_stop_reason ::
  "'t target_ops \<Rightarrow> (('t \<times> bool, multi_stop) runner \<Rightarrow> ('t \<times> bool, multi_stop) runner) \<Rightarrow> 't gdb_target
     \<Rightarrow> 't gdb_target \<times> multi_stop option" where
  "wait_stop_reason dt blocked g =
     (let (r, x) = wait_result blocked (gt_runner g) in map_worker_result dt x (g\<lparr>gt_runner := r\<rparr>))"

definition on_interrupt ::
  "'t target_ops \<Rightarrow> (('t \<times> bool, multi_stop) runner \<Rightarrow> ('t \<times> bool, multi_stop) runner) \<Rightarrow> 't gdb_target
     \<Rightarrow> 't gdb_target \<times> multi_stop option" where
  "on_interrupt dt blocked g =
     (case take_stop_reason dt g of
        (g1, Some reason) \<Rightarrow> (g1, Some reason)
      | (g1, None) \<Rightarrow>
          (let g2 = interrupt_replay g1
           in if replay_in_flight g2 then wait_stop_reason dt blocked g2 else (g2, None)))"

section \<open>One session\<close>

datatype session_error = Listener | Connection | BackendRecovery

record 't connection =
  stub :: "'t gdb_target \<Rightarrow> 't gdb_target run"
  grace :: "('t \<times> bool, multi_stop) runner \<Rightarrow> ('t \<times> bool, multi_stop) runner"

text \<open>
  \<open>TargetRunner::into_backend\<close> in full: a replay still in flight is interrupted when the backend has a
  handle, and given the grace period.
\<close>

definition drained ::
  "(('t, 'r) runner \<Rightarrow> ('t, 'r) runner) \<Rightarrow> ('t, 'r) runner \<Rightarrow> ('t, 'r) runner" where
  "drained wait s = (if in_flight s \<and> interrupt_fn s \<noteq> None then wait (interrupt_fire (interrupt_check s)) else s)"

definition run_gdb_session ::
  "(string \<Rightarrow> u8 list option) \<Rightarrow> (xml_element \<Rightarrow> string) \<Rightarrow> 't target_ops \<Rightarrow> 't \<Rightarrow> 't connection \<Rightarrow> checkpoint_table
     \<Rightarrow> (session_error, 't \<times> checkpoint_table) result run" where
  "run_gdb_session opened render_xml dt b conn cps =
     (case stub conn (gdb_target_new opened render_xml dt b cps) of
        Ret g \<Rightarrow>
          Ret (case into_parts (g\<lparr>gt_runner := drained (grace conn) (gt_runner g)\<rparr>) of
                 (Some b', cps') \<Rightarrow> Inr (b', cps')
               | (None, _) \<Rightarrow> Inl BackendRecovery)
      | Panic s \<Rightarrow> Panic s
      | Spin \<Rightarrow> Spin)"

section \<open>The accept loop\<close>

text \<open>\<open>Accepted\<close>: whether the stream could be made blocking, whether \<open>TCP_NODELAY\<close> could be set.\<close>

datatype 't accepted = Accepted bool bool "'t connection" | WouldBlock | AcceptFailed

record 't iteration =
  shut_down :: bool
  accepts :: "'t accepted"
  shut_down_after :: bool

text \<open>
  \<open>None\<close>: the loop is still serving when the listed iterations are used up. A panic in a session unwinds
  out of the loop.
\<close>

fun serve_loop ::
  "(string \<Rightarrow> u8 list option) \<Rightarrow> (xml_element \<Rightarrow> string) \<Rightarrow> 't target_ops \<Rightarrow> bool \<Rightarrow> 't iteration list \<Rightarrow> 't \<Rightarrow> checkpoint_table
     \<Rightarrow> (session_error, 't) result run option" where
  "serve_loop opened render_xml dt persist [] b cps = None"
| "serve_loop opened render_xml dt persist (it # its) b cps =
     (if shut_down it then Some (Ret (Inr b))
      else case accepts it of
        Accepted blocking nodelay conn \<Rightarrow>
          if \<not> blocking \<or> \<not> nodelay then Some (Ret (Inl Connection))
          else (case run_gdb_session opened render_xml dt b conn cps of
                  Ret (Inl e) \<Rightarrow> Some (Ret (Inl e))
                | Ret (Inr (b', cps')) \<Rightarrow>
                    if \<not> persist \<or> shut_down_after it then Some (Ret (Inr b'))
                    else serve_loop opened render_xml dt persist its b' cps'
                | Panic s \<Rightarrow> Some (Panic s)
                | Spin \<Rightarrow> Some Spin)
      | WouldBlock \<Rightarrow> if shut_down_after it then Some (Ret (Inr b)) else serve_loop opened render_xml dt persist its b cps
      | AcceptFailed \<Rightarrow> Some (Ret (Inl Connection)))"

definition serve_sessions ::
  "(string \<Rightarrow> u8 list option) \<Rightarrow> (xml_element \<Rightarrow> string) \<Rightarrow> 't target_ops \<Rightarrow> bool \<Rightarrow> bool \<Rightarrow> 't iteration list \<Rightarrow> 't
     \<Rightarrow> (session_error, 't) result run option" where
  "serve_sessions opened render_xml dt nonblocking persist its b =
     (if \<not> nonblocking then Some (Ret (Inl Listener)) else serve_loop opened render_xml dt persist its b checkpoints_new)"

definition run_gdb_server ::
  "(string \<Rightarrow> u8 list option) \<Rightarrow> (xml_element \<Rightarrow> string) \<Rightarrow> 't target_ops \<Rightarrow> bool \<Rightarrow> bool \<Rightarrow> bool \<Rightarrow> 't iteration list \<Rightarrow> 't
     \<Rightarrow> (session_error, unit) result run option" where
  "run_gdb_server opened render_xml dt bound nonblocking persist its b =
     (if \<not> bound then Some (Ret (Inl Listener))
      else map_option (map_run (map_sum id (\<lambda>_. ()))) (serve_sessions opened render_xml dt nonblocking persist its b))"

section \<open>Sessions keep the debuggee\<close>

text \<open>
  What is assumed of a connection from a given start. The stub only ran handlers, interleaved with worker
  steps and interrupts, with register ids it got from \<open>from_raw_id\<close>; it has no panics of its own, so it is
  taken down only by a handler that panics (or does not return) in a state it reached. A worker that was
  interrupted at the end stopped within the grace period. Nothing is assumed of the handlers themselves.
\<close>

definition connection_ok ::
  "'t target_ops \<Rightarrow> ('t \<Rightarrow> bool) \<Rightarrow> 't gdb_target \<Rightarrow> 't connection \<Rightarrow> bool" where
  "connection_ok dt room g0 conn \<longleftrightarrow>
     (case stub conn g0 of
        Ret g \<Rightarrow>
          (let r = interrupt_fire (interrupt_check (gt_runner g))
           in (server_step dt room)\<^sup>*\<^sup>* g0 g \<and> \<not> asking (gt_runner g)
              \<and> (replay_in_flight g \<longrightarrow> worker_alone\<^sup>*\<^sup>* r (grace conn r) \<and> \<not> in_flight (grace conn r)))
      | out \<Rightarrow>
          (\<exists>g pk. (server_step dt room)\<^sup>*\<^sup>* g0 g \<and> \<not> asking (gt_runner g) \<and> has_capacity room g \<and> packet_ids_ok pk
             \<and> handle_packet dt pk g = out))"

text \<open>The interrupt handle is the one taken at construction, whatever happens.\<close>

abbreviation handle_of :: "'t gdb_target \<Rightarrow> ('t \<times> bool \<Rightarrow> 't \<times> bool) option" where
  "handle_of g \<equiv> interrupt_fn (gt_runner g)"

lemma try_backend_handle: "try_backend f g = Some (g', q) \<Longrightarrow> handle_of g' = handle_of g"
  by (auto simp: try_backend_def runner_query_def split_beta Let_def split: option.splits)

lemma spawn_replay_handle: "handle_of (fst (spawn_replay dt op g)) = handle_of g"
  by (simp add: spawn_replay_job start_job_def runner_start_def readied_def store_end_state_def split_beta Let_def)

lemma backend_writes_handle:
  "handle_of (put_backend b g) = handle_of g" "handle_of (restarted b g) = handle_of g"
  "handle_of (interrupt_replay g) = handle_of g" "handle_of (fst (take_stop_reason dt g)) = handle_of g"
  by (auto simp: put_backend_def restarted_def note_restart_def clear_end_state_def store_end_state_def interrupt_replay_def
      interrupt_check_def interrupt_fire_def take_stop_reason_def take_result_def map_worker_result_def runner_query_def
      split_beta Let_def split: option.split sum.split)

lemma inserted_deleted_handle:
  "handle_of (fst (inserted (try_backend f g) g)) = handle_of g" "handle_of (fst (deleted (try_backend f' g) g)) = handle_of g"
  by (auto simp: inserted_def deleted_def dest: try_backend_handle split: option.split sum.split)

lemma unknown_packet_handle: "handle_of (fst (handle_unknown_packet dt body g)) = handle_of g"
  by (auto simp: handle_unknown_packet_def answer_qrrcmd_def answer_tib_addr_def backend_writes_handle split_beta Let_def
      dest: try_backend_handle split: option.split)

lemma run_handlers_handle:
  "gt_run dt args g = Ret (g', r) \<Longrightarrow> handle_of g' = handle_of g"
  "gt_restart dt g = Ret g' \<Longrightarrow> handle_of g' = handle_of g"
  "handle_monitor_cmd dt cmd g = Ret (g', t) \<Longrightarrow> handle_of g' = handle_of g"
  by (auto simp: gt_run_def gt_restart_def handle_monitor_cmd_def backend_writes_handle Let_def
      split: option.splits run.splits prod.splits sum.splits)

lemma query_handlers_handle:
  "handle_of (fst (read_registers dt i g)) = handle_of g"
  "handle_of (fst (read_addrs dt addr buf i g)) = handle_of g" "handle_of (fst (list_active_threads dt g)) = handle_of g"
  "handle_of (fst (thread_extra_info_handler dt i buf g)) = handle_of g"
  by (auto simp: read_registers_def read_addrs_def list_active_threads_def thread_extra_info_handler_def
      dest: try_backend_handle split: option.splits)

lemma read_register_handle: "read_register dt i reg buf g = Ret (g', v) \<Longrightarrow> handle_of g' = handle_of g"
  using try_backend_handle [of "dt_thread_state dt (Some (from_wire_tid i))" g g']
  by (auto simp: read_register_def split: option.splits reg_result.splits)

lemma handle_packet_handle:
  assumes "handle_packet dt pk g = Ret g'"
  shows "handle_of g' = handle_of g"
  using assms
  by (cases pk)
    (auto simp: after_def query_handlers_handle spawn_replay_handle inserted_deleted_handle unknown_packet_handle
      backend_writes_handle gt_resume_op_def reverse_cont_def reverse_step_def clear_resume_actions_def set_resume_action_continue_def
      set_resume_action_step_def set_resume_action_range_step_def add_sw_breakpoint_def remove_sw_breakpoint_def
      add_hw_breakpoint_def remove_hw_breakpoint_def add_hw_watchpoint_def remove_hw_watchpoint_def split_beta Let_def
      dest: run_handlers_handle read_register_handle split: run.splits)

lemma worker_step_handle: "worker_step r l r' \<Longrightarrow> interrupt_fn r' = interrupt_fn r"
  by (induction rule: worker_step.induct) (auto simp: worker_ops split: prod.splits caught.splits)

lemma server_run_handle: "(server_step dt room)\<^sup>*\<^sup>* g g' \<Longrightarrow> handle_of g' = handle_of g"
proof (induction rule: rtranclp_induct)
  case (step g1 g2)
  from step(2) have "handle_of g2 = handle_of g1"
    by (cases rule: server_step.cases)
      (auto simp: interrupt_check_def interrupt_fire_def dest: handle_packet_handle worker_step_handle)
  with step(3) show ?case by simp
qed simp

lemma worker_alone_shared_ok: "worker_alone\<^sup>*\<^sup>* r r' \<Longrightarrow> shared_ok I r \<Longrightarrow> shared_ok I r'"
  by (induction rule: rtranclp_induct) (auto simp: worker_alone_def intro: worker_step_shared_ok)

lemma idle_into_backend: "runner_inv r \<Longrightarrow> \<not> in_flight r \<Longrightarrow> into_backend r = Some (backend r)"
  by (auto simp: into_backend_def runner_inv_def in_flight_def)

context debug_target
begin

text \<open>Every recovered pair is in the invariant; with an interrupt handle, recovery never fails.\<close>

lemma session_recovers:
  assumes "inv b" and "wf_checkpoints cps" and handle: "\<And>t. dt_interrupt_handle dt t \<noteq> None"
    and ok: "connection_ok dt room (gdb_target_new opened render_xml dt b cps) conn"
    and run: "run_gdb_session opened render_xml dt b conn cps = Ret res"
  shows "\<exists>b' cps'. res = Inr (b', cps') \<and> inv b' \<and> wf_checkpoints cps'"
proof -
  let ?g0 = "gdb_target_new opened render_xml dt b cps"
  obtain g where g: "stub conn ?g0 = Ret g" using run by (cases "stub conn ?g0") (simp_all add: run_gdb_session_def)
  let ?r = "drained (grace conn) (gt_runner g)"
  note okg = ok [unfolded connection_ok_def g, simplified, unfolded Let_def]
  have gi: "gdb_inv inv g"
    using okg server_run_inv gdb_target_new_inv [OF assms(1,2)] by blast
  have fn: "handle_of g \<noteq> None"
    using okg handle [of b] server_run_handle [of dt room ?g0 g]
    by (auto simp: gdb_target_new_def runner_new_def Let_def)
  from gi have so: "shared_ok inv (gt_runner g)" by (simp add: gdb_inv_def)
  have "shared_ok inv ?r \<and> \<not> in_flight ?r"
  proof (cases "in_flight (gt_runner g)")
    case True
    with okg fn have r: "?r = grace conn (interrupt_fire (interrupt_check (gt_runner g)))"
      "worker_alone\<^sup>*\<^sup>* (interrupt_fire (interrupt_check (gt_runner g))) ?r" "\<not> in_flight ?r"
      by (simp_all add: drained_def replay_in_flight_def)
    have "shared_ok inv (interrupt_fire (interrupt_check (gt_runner g)))"
      by (intro interrupt_fire_ok interrupt_check_ok so)
    with r worker_alone_shared_ok show ?thesis by blast
  qed (simp add: drained_def so)
  then have "into_backend ?r = Some (backend ?r)" "inv (fst (backend ?r))"
    using idle_into_backend by (auto simp: shared_ok_def)
  then show ?thesis using gi g run by (auto simp: run_gdb_session_def into_parts_def gdb_inv_def)
qed

text \<open>A loop whose sessions all keep the invariant returns a backend in the invariant.\<close>

lemma serve_loop_recovers:
  assumes "inv b" and "wf_checkpoints cps" and handle: "\<And>t. dt_interrupt_handle dt t \<noteq> None"
    and "\<forall>it\<in>set its. \<forall>x y conn. accepts it = Accepted x y conn \<longrightarrow>
      (\<forall>b cps. inv b \<longrightarrow> wf_checkpoints cps \<longrightarrow> connection_ok dt room (gdb_target_new opened render_xml dt b cps) conn)"
    and "serve_loop opened render_xml dt persist its b cps = Some (Ret res)"
  shows "res \<noteq> Inl BackendRecovery \<and> (\<forall>b'. res = Inr b' \<longrightarrow> inv b')"
  using assms(1,2,4,5)
proof (induction its arbitrary: b cps)
  case (Cons it its)
  note IH = Cons.IH [OF _ _ ballI [OF bspec [OF Cons.prems(3)]]]
  show ?case
  proof (cases "accepts it")
    case (Accepted x y conn)
    then have ok: "connection_ok dt room (gdb_target_new opened render_xml dt b cps) conn"
      using Cons.prems(1-3) by simp
    show ?thesis
    proof (cases "run_gdb_session opened render_xml dt b conn cps")
      case (Ret sr)
      from session_recovers [OF Cons.prems(1,2) handle ok Ret] obtain b' cps' where
        s: "sr = Inr (b', cps')" "inv b'" "wf_checkpoints cps'" by blast
      have "serve_loop opened render_xml dt persist its b' cps' = Some (Ret res) \<Longrightarrow> ?thesis"
        using IH [OF s(2,3)] by simp
      with Cons.prems(1,4) Accepted Ret s show ?thesis by (auto simp del: Ball_def split: if_splits)
    qed (use Cons.prems(1,4) Accepted in \<open>auto split: if_splits\<close>)
  next
    case WouldBlock
    have "serve_loop opened render_xml dt persist its b cps = Some (Ret res) \<Longrightarrow> ?thesis"
      using IH [OF Cons.prems(1,2)] by simp
    with Cons.prems(1,4) WouldBlock show ?thesis by (auto split: if_splits)
  next
    case AcceptFailed
    with Cons.prems(1,4) show ?thesis by (auto split: if_splits)
  qed
qed simp

end

context total_target
begin

text \<open>With a backend whose calls return, no connection takes the session down.\<close>

lemma stub_returns:
  assumes "inv b" and "wf_checkpoints cps" and ok: "connection_ok dt room (gdb_target_new opened render_xml dt b cps) conn"
  shows "\<exists>g. stub conn (gdb_target_new opened render_xml dt b cps) = Ret g"
proof -
  let ?g0 = "gdb_target_new opened render_xml dt b cps"
  have "\<exists>g'. handle_packet dt pk g = Ret g'" if "(server_step dt room)\<^sup>*\<^sup>* ?g0 g" and "packet_ids_ok pk" for g pk
    using server_run_inv [OF that(1) gdb_target_new_inv [OF assms(1,2)]] handle_packet_returns that(2) by blast
  with ok show ?thesis
    by (cases "stub conn ?g0") (fastforce simp: connection_ok_def)+
qed

lemma serve_loop_returns:
  assumes "inv b" and "wf_checkpoints cps" and handle: "\<And>t. dt_interrupt_handle dt t \<noteq> None"
    and "\<forall>it\<in>set its. \<forall>x y conn. accepts it = Accepted x y conn \<longrightarrow>
      (\<forall>b cps. inv b \<longrightarrow> wf_checkpoints cps \<longrightarrow> connection_ok dt room (gdb_target_new opened render_xml dt b cps) conn)"
    and "serve_loop opened render_xml dt persist its b cps = Some out"
  shows "\<exists>res. out = Ret res"
  using assms(1,2,4,5)
proof (induction its arbitrary: b cps)
  case (Cons it its)
  note IH = Cons.IH [OF _ _ ballI [OF bspec [OF Cons.prems(3)]]]
  show ?case
  proof (cases "accepts it")
    case (Accepted x y conn)
    then have ok: "connection_ok dt room (gdb_target_new opened render_xml dt b cps) conn"
      using Cons.prems(1-3) by simp
    from stub_returns [OF Cons.prems(1,2) ok] obtain sr where Ret: "run_gdb_session opened render_xml dt b conn cps = Ret sr"
      by (auto simp: run_gdb_session_def)
    from session_recovers [OF Cons.prems(1,2) handle ok Ret] obtain b' cps' where
      s: "sr = Inr (b', cps')" "inv b'" "wf_checkpoints cps'" by blast
    have "serve_loop opened render_xml dt persist its b' cps' = Some out \<Longrightarrow> ?thesis"
      using IH [OF s(2,3)] by simp
    with Cons.prems(1,4) Accepted Ret s show ?thesis by (auto simp del: Ball_def split: if_splits)
  next
    case WouldBlock
    have "serve_loop opened render_xml dt persist its b cps = Some out \<Longrightarrow> ?thesis"
      using IH [OF Cons.prems(1,2)] by simp
    with Cons.prems(1,4) WouldBlock show ?thesis by (auto split: if_splits)
  next
    case AcceptFailed
    with Cons.prems(1,4) show ?thesis by (auto split: if_splits)
  qed
qed simp

end


definition break_once :: "sim ttd_process connection" where
  "break_once = \<lparr>stub = (\<lambda>g. Ret (if has_capacity has_room g then fst (add_sw_breakpoint sim_dt 0x1002 g) else g)), grace = id\<rparr>"

lemma add_sw_quiet:
  assumes "\<not> replay_in_flight g" and "\<not> asking (gt_runner g)"
  shows "\<not> replay_in_flight (fst (add_sw_breakpoint dt addr g)) \<and> \<not> asking (gt_runner (fst (add_sw_breakpoint dt addr g)))"
  using assms by (auto simp: add_sw_breakpoint_def inserted_def try_backend_def try_lock_def runner_query_def replay_in_flight_def
      in_flight_def split_beta Let_def split: option.splits sum.splits)

lemma break_once_ok: "connection_ok sim_dt has_room (gdb_target_new opened render_xml sim_dt b cps) break_once"
proof -
  let ?g = "gdb_target_new opened render_xml sim_dt b cps"
  have q: "\<not> replay_in_flight ?g" "\<not> asking (gt_runner ?g)"
    by (simp_all add: gdb_target_new_def runner_new_def replay_in_flight_def in_flight_def Let_def)
  have "(server_step sim_dt has_room)\<^sup>*\<^sup>* ?g (if has_capacity has_room ?g then fst (add_sw_breakpoint sim_dt 0x1002 ?g) else ?g)"
    using s_packet [OF q(2), of has_room sim_dt "PkAddSw 0x1002"] by auto
  with q add_sw_quiet [OF q, of sim_dt "0x1002"] show ?thesis
    by (auto simp: connection_ok_def break_once_def Let_def)
qed


section \<open>An interrupt from the wire\<close>

text \<open>
  C19. A break character never loses a stop: while a replay is in flight (a job whose closures return), the event loop's interrupt hook
  comes back with a stop for the client once the worker has run out; and when it comes back empty-handed
  no replay was in flight, nothing had been delivered yet and the target is exactly as before, so an
  outcome still on its way is delivered by the next poll.
\<close>

theorem interrupt_never_loses_stop:
  assumes "runner_inv (gt_runner g)" and "closures_return (worker (gt_runner g))" and "\<not> asking (gt_runner g)"
    and "\<forall>r. runs_out r (blocked r)" and "on_interrupt dt blocked g = (g', x)"
  shows "x \<noteq> None \<or> (\<not> replay_in_flight g \<and> inbox (gt_runner g) = None \<and> g' = g)"
proof -
  have take: "take_stop_reason dt g = (g, None)" if "inbox (gt_runner g) = None"
  proof -
    have "(gt_runner g)\<lparr>inbox := None\<rparr> = gt_runner g" using that by (cases "gt_runner g") simp
    then show ?thesis by (simp add: take_stop_reason_def take_result_def map_worker_result_def that)
  qed
  have answered: "x \<noteq> None" if "replay_in_flight g" and "inbox (gt_runner g) = None"
  proof -
    let ?r = "interrupt_fire (interrupt_check (gt_runner g))"
    from that(1) have r: "gt_runner (interrupt_replay g) = ?r" "replay_in_flight (interrupt_replay g)" "in_flight ?r"
      by (simp_all add: interrupt_replay_def interrupt_check_def interrupt_fire_def replay_in_flight_def in_flight_def Let_def)
    have "runner_inv ?r" "closures_return (worker ?r)" "outcome_due ?r"
      using assms(1,2) r(3) by (auto simp: runner_inv_def interrupt_check_def interrupt_fire_def outcome_due_def in_flight_def)
    moreover have "worker_alone\<^sup>*\<^sup>* ?r (blocked ?r)" "\<nexists>s. worker_alone (blocked ?r) s"
      using assms(4) by (simp_all add: runs_out_def)
    ultimately have "worker (blocked ?r) = NoWorker" "unsent (blocked ?r) = []" "outcome_due (blocked ?r)"
      using worker_alone_keeps worker_enabled by blast+
    then have "inbox (blocked ?r) \<noteq> None" by (simp add: outcome_due_def)
    with assms(5) take [OF that(2)] r show ?thesis
      by (auto simp: on_interrupt_def wait_stop_reason_def wait_result_def take_result_def map_worker_result_def split_beta Let_def
          split: sum.splits)
  qed
  have delivered: "x \<noteq> None" if "inbox (gt_runner g) \<noteq> None"
    using that assms(5) by (auto simp: on_interrupt_def take_stop_reason_def take_result_def map_worker_result_def split_beta Let_def
        split: sum.splits)
  have "g' = g" if "\<not> replay_in_flight g" and "inbox (gt_runner g) = None"
    using that assms(3,5) take [OF that(2)] by (simp add: on_interrupt_def interrupt_replay_def
        interrupt_check_def replay_in_flight_def in_flight_def Let_def)
  with answered delivered show ?thesis by blast
qed

theorem interrupt_never_loses_stop_witness:
  "\<exists>blocked. snd (on_interrupt sim_dt blocked (fst (spawn_exit_reply sim_dt sim_gdb))) \<noteq> None"
proof -
  let ?g = "fst (spawn_exit_reply sim_dt sim_gdb)"
  obtain blocked :: "(sim ttd_process \<times> bool, multi_stop) runner \<Rightarrow> (sim ttd_process \<times> bool, multi_stop) runner"
    where b: "\<forall>r. runs_out r (blocked r)"
    using worker_runs_out unfolding runs_out_def by metis
  have "runner_inv (gt_runner ?g)" "closures_return (worker (gt_runner ?g))" "\<not> asking (gt_runner ?g)" "replay_in_flight ?g"
    by (simp_all add: spawn_exit_reply_def start_job_def runner_start_def sim_gdb_def gdb_target_new_def runner_new_def exit_job_def
        runner_inv_def replay_in_flight_def in_flight_def split_beta Let_def)
  with interrupt_never_loses_stop [OF this(1-3) b, of sim_dt] show ?thesis by (metis prod.collapse)
qed

end
