(* ===== verification/Process_Open.thy ===== *)
theory Process_Open
  imports Process_Invariants
begin

text \<open>
  Opening a trace (\<open>TtdProcess::open\<close> in \<open>target/process.rs\<close>): the engine is loaded, its memory index made
  complete, the trace tables read once and the two long-lived cursors created. The file system is a
  parameter, a record of the two operations the code calls over a state of its own. What the engine itself
  writes while it builds an index stays inside the engine's state: the file state returned is the disk as
  the program left it, before the build wrote its files.
\<close>

section \<open>The file system\<close>

datatype removal = Removed | NotFound | RemovalFailed string

record 'w file_api =
  path_exists :: "'w \<Rightarrow> string \<Rightarrow> bool"
  remove_file :: "'w \<Rightarrow> string \<Rightarrow> 'w \<times> removal"

section \<open>Paths\<close>

text \<open>
  \<open>Path::with_extension\<close> on a reversed path: separators and \<open>.\<close> components at the end do not count, the
  last component loses what follows its last dot (a leading dot is no extension), and a path without a
  file name is returned as it is.
\<close>

definition is_separator :: "char \<Rightarrow> bool" where
  "is_separator c \<longleftrightarrow> c = CHR ''/'' \<or> c = CHR 0x5C"

fun trim_end :: "string \<Rightarrow> string" where
  "trim_end [] = []"
| "trim_end [c] = (if is_separator c then [] else [c])"
| "trim_end (c # d # s) = (if is_separator c then trim_end (d # s) else if c = CHR ''.'' \<and> is_separator d then trim_end (d # s) else c # d # s)"

definition stem_rev :: "string \<Rightarrow> string" where
  "stem_rev name = (case dropWhile (\<lambda>c. c \<noteq> CHR ''.'') name of [] \<Rightarrow> name | _ # before \<Rightarrow> if before = [] then name else before)"

definition with_extension :: "string \<Rightarrow> string \<Rightarrow> string" where
  "with_extension path ext =
     (let r = trim_end (rev path); name = takeWhile (Not \<circ> is_separator) r
      in if name = [] \<or> name = ''.'' \<or> name = ''..'' then path
         else rev (drop (length name) r) @ rev (stem_rev name) @ CHR ''.'' # ext)"

definition index_path :: "string \<Rightarrow> string" where
  "index_path trace = with_extension trace ''idx''"

definition partial_index_path :: "string \<Rightarrow> string" where
  "partial_index_path trace = with_extension trace ''idxt''"

section \<open>The index\<close>

definition index_needs_build :: "index_status \<Rightarrow> bool \<Rightarrow> bool" where
  "index_needs_build status interrupted \<longleftrightarrow> interrupted \<or> status \<noteq> IndexLoaded"

fun remove_files :: "'w file_api \<Rightarrow> string list \<Rightarrow> 'w \<Rightarrow> 'w \<times> (debug_error, unit) result" where
  "remove_files fa [] w = (w, Inr ())"
| "remove_files fa (path # paths) w =
     (case remove_file fa w path of
        (w1, RemovalFailed message) \<Rightarrow> (w1, Inl (Ttd (IndexFileAccess path message)))
      | (w1, _) \<Rightarrow> remove_files fa paths w1)"

definition remove_index_files :: "'w file_api \<Rightarrow> string \<Rightarrow> 'w \<Rightarrow> 'w \<times> (debug_error, unit) result" where
  "remove_index_files fa trace w = remove_files fa [partial_index_path trace, index_path trace] w"

definition ensure_index ::
  "('e, 'c) engine_api \<Rightarrow> 'w file_api \<Rightarrow> string \<Rightarrow> 'e \<Rightarrow> 'w \<Rightarrow> 'w \<times> 'e \<times> (debug_error, unit) result" where
  "ensure_index ea fa trace e w =
     (let interrupted = path_exists fa w (partial_index_path trace)
      in if \<not> index_needs_build (engine_index_state ea e) interrupted then (w, e, Inr ())
         else (let (w1, res) = (if interrupted then remove_index_files fa trace w else (w, Inr ()))
               in case res of
                    Inl err \<Rightarrow> (w1, e, Inl err)
                  | Inr _ \<Rightarrow>
                      (let (e1, built) = build_index ea e
                       in (w1, e1, case built of Inl _ \<Rightarrow> Inl (Ttd IndexBuildFailed) | Inr _ \<Rightarrow> Inr ()))))"

definition open_engine ::
  "('e, 'c) engine_api \<Rightarrow> 'w file_api \<Rightarrow> string \<Rightarrow> 'w \<Rightarrow> 'w \<times> (debug_error, 'e) result" where
  "open_engine ea fa trace w =
     (if \<not> path_exists fa w trace then (w, Inl (Ttd (TraceNotFound trace)))
      else case engine_open ea trace of
        Inl _ \<Rightarrow> (w, Inl (Ttd (TraceLoadFailed trace)))
      | Inr e \<Rightarrow>
          (let (w1, e1, res) = ensure_index ea fa trace e w
           in (w1, case res of Inl err \<Rightarrow> Inl err | Inr _ \<Rightarrow> Inr e1)))"

section \<open>The process\<close>

definition trace_ends_with_process_exit ::
  "'c cursor_api \<Rightarrow> ('e, 'c) engine_api \<Rightarrow> 'e \<Rightarrow> position \<times> position \<Rightarrow> bool" where
  "trace_ends_with_process_exit ca ea e lifetime =
     (case cursor_new ca ea e of
        Inl _ \<Rightarrow> False
      | Inr c \<Rightarrow>
          (case replay_forward_steps ca (seek ca c (snd lifetime)) 1 of
             (_, Inr r, _) \<Rightarrow> stop_event r = EvProcess
           | _ \<Rightarrow> False))"

definition tp_new :: "'c cursor_api \<Rightarrow> ('e, 'c) engine_api \<Rightarrow> 'e \<Rightarrow> (debug_error, 'c ttd_process) result" where
  "tp_new ca ea e =
     (let md = metadata_from_engine ea e; lifetime = metadata_lifetime md
      in case cursor_pair_new ca ea e of
           Inl err \<Rightarrow> Inl (Ttd err)
         | Inr pair \<Rightarrow>
             Inr \<lparr>tp_cursors = pair, tp_stats = default_stats, tp_position = fst lifetime, tp_lifetime = lifetime,
                  ends_with_process_exit = trace_ends_with_process_exit ca ea e lifetime,
                  current_thread_id = first_os_tid md, metadata = md, tp_breakpoints = state_new (md_threads md),
                  active_replay = NoReplay, interrupt_epoch = 0\<rparr>)"

definition tp_open ::
  "'c cursor_api \<Rightarrow> ('e, 'c) engine_api \<Rightarrow> 'w file_api \<Rightarrow> string \<Rightarrow> 'w \<Rightarrow> 'w \<times> (debug_error, 'c ttd_process) result" where
  "tp_open ca ea fa trace w =
     (case open_engine ea fa trace w of
        (w1, Inl err) \<Rightarrow> (w1, Inl err)
      | (w1, Inr e) \<Rightarrow> (w1, tp_new ca ea e))"

section \<open>The index is complete\<close>

text \<open>What is relied on: a file that was removed, or not found, is gone and stays gone; a build's answer is the status.\<close>

definition removes_files :: "'w file_api \<Rightarrow> bool" where
  "removes_files fa \<longleftrightarrow>
     (\<forall>w p. (case snd (remove_file fa w p) of RemovalFailed _ \<Rightarrow> True | _ \<Rightarrow> \<not> path_exists fa (fst (remove_file fa w p)) p))
   \<and> (\<forall>w p q. \<not> path_exists fa w q \<longrightarrow> \<not> path_exists fa (fst (remove_file fa w p)) q)"

definition builds_index :: "('e, 'c) engine_api \<Rightarrow> bool" where
  "builds_index ea \<longleftrightarrow> (\<forall>e. IndexStatus ea (fst (BuildIndex ea e)) = snd (BuildIndex ea e))"

lemma remove_files_absent:
  assumes "removes_files fa"
  shows "\<not> path_exists fa w q \<Longrightarrow> \<not> path_exists fa (fst (remove_files fa paths w)) q"
proof (induction paths arbitrary: w)
  case (Cons p ps)
  obtain w1 o1 where r: "remove_file fa w p = (w1, o1)" by (rule prod.exhaust)
  have gone: "\<not> path_exists fa w1 q"
    using conjunct2 [OF assms [unfolded removes_files_def], rule_format, OF Cons.prems, of p] r by simp
  from Cons.IH [OF gone] gone r show ?case by (cases o1) simp_all
qed simp

lemma remove_files_gone:
  assumes "removes_files fa"
  shows "snd (remove_files fa paths w) = Inr () \<Longrightarrow> q \<in> set paths \<Longrightarrow> \<not> path_exists fa (fst (remove_files fa paths w)) q"
proof (induction paths arbitrary: w)
  case (Cons p ps)
  obtain w1 o1 where r: "remove_file fa w p = (w1, o1)" by (rule prod.exhaust)
  from Cons.prems(1) r have ok: "\<And>m. o1 \<noteq> RemovalFailed m" and next': "remove_files fa (p # ps) w = remove_files fa ps w1"
    by (auto split: removal.splits)
  from assms have "case snd (remove_file fa w p) of RemovalFailed _ \<Rightarrow> True | _ \<Rightarrow> \<not> path_exists fa (fst (remove_file fa w p)) p"
    unfolding removes_files_def by blast
  with r ok have "\<not> path_exists fa w1 p" by (cases o1) auto
  with remove_files_absent [OF assms] have "\<not> path_exists fa (fst (remove_files fa ps w1)) p" by blast
  with Cons next' show ?case by (cases "q = p") auto
qed simp

lemma ensure_index_trusted:
  assumes "removes_files fa" and "builds_index ea" and "ensure_index ea fa trace e w = (w1, e1, Inr ())"
  shows "engine_index_state ea e1 = IndexLoaded" and "\<not> path_exists fa w1 (partial_index_path trace)"
    and "path_exists fa w (partial_index_path trace) \<Longrightarrow> e1 = fst (BuildIndex ea e) \<and> \<not> path_exists fa w1 (index_path trace)"
    and "\<not> path_exists fa w (partial_index_path trace) \<Longrightarrow> engine_index_state ea e = IndexLoaded \<Longrightarrow> e1 = e \<and> w1 = w"
proof -
  have built: "engine_index_state ea (fst (build_index ea e)) = IndexLoaded" if "snd (build_index ea e) = Inr s" for s
    using that assms(2) by (auto simp: build_index_def builds_index_def engine_index_state_def split_beta Let_def split: if_splits)
  have fst: "fst (build_index ea e) = fst (BuildIndex ea e)" by (simp add: build_index_def split_beta Let_def)
  note gone = remove_files_gone [OF assms(1), of "[partial_index_path trace, index_path trace]" w]
  show "engine_index_state ea e1 = IndexLoaded"
    using assms(3) built by (auto simp: ensure_index_def index_needs_build_def split_beta Let_def split: if_splits sum.splits)
  show "\<not> path_exists fa w1 (partial_index_path trace)"
    using assms(3) gone by (auto simp: ensure_index_def index_needs_build_def remove_index_files_def split_beta Let_def
        simp del: remove_files.simps split: if_splits sum.splits)
  show "e1 = fst (BuildIndex ea e) \<and> \<not> path_exists fa w1 (index_path trace)" if "path_exists fa w (partial_index_path trace)"
    using that assms(3) gone fst by (auto simp: ensure_index_def index_needs_build_def remove_index_files_def split_beta Let_def
        simp del: remove_files.simps split: if_splits sum.splits)
  show "e1 = e \<and> w1 = w" if "\<not> path_exists fa w (partial_index_path trace)" and "engine_index_state ea e = IndexLoaded"
    using that assms(3) by (auto simp: ensure_index_def index_needs_build_def Let_def)
qed

lemma open_engine_parts:
  assumes "open_engine ea fa trace w = (w1, Inr e1)"
  obtains e where "engine_open ea trace = Inr e" and "ensure_index ea fa trace e w = (w1, e1, Inr ())"
  using assms by (auto simp: open_engine_def Let_def split: if_splits sum.splits prod.splits)

lemma tp_open_parts:
  assumes "tp_open ca ea fa trace w = (w1, Inr p)"
  obtains e1 where "open_engine ea fa trace w = (w1, Inr e1)" and "tp_new ca ea e1 = Inr p"
  using assms by (auto simp: tp_open_def split: prod.splits sum.splits)

lemma tp_new_metadata: "tp_new ca ea e = Inr p \<Longrightarrow> metadata p = metadata_from_engine ea e"
  by (auto simp: tp_new_def Let_def split: sum.splits)

text \<open>
  C22. Memory reads are never served from a half-built index: when a trace opens, its index is reported
  complete and no marker of an unfinished build is left; and when a marker was found, both it and the
  index beside it were deleted and the engine the process runs on went through a successful build, even if
  it had reported the truncated index as loaded.
\<close>

theorem open_index_complete:
  assumes "removes_files fa" and "builds_index ea" and "tp_open ca ea fa trace w = (w1, Inr p)"
  shows "md_index_status (metadata p) = IndexLoaded \<and> \<not> path_exists fa w1 (partial_index_path trace)
    \<and> (path_exists fa w (partial_index_path trace) \<longrightarrow> \<not> path_exists fa w1 (index_path trace)
        \<and> (\<exists>e. engine_open ea trace = Inr e \<and> metadata p = metadata_from_engine ea (fst (BuildIndex ea e))))"
proof -
  obtain e1 where o: "open_engine ea fa trace w = (w1, Inr e1)" and n: "tp_new ca ea e1 = Inr p"
    using tp_open_parts [OF assms(3)] by blast
  obtain e where e: "engine_open ea trace = Inr e" and i: "ensure_index ea fa trace e w = (w1, e1, Inr ())"
    using open_engine_parts [OF o] by blast
  have "md_index_status (metadata p) = engine_index_state ea e1"
    by (simp add: tp_new_metadata [OF n] metadata_from_engine_def with_index_status_def)
  with ensure_index_trusted [OF assms(1,2) i] e tp_new_metadata [OF n] show ?thesis by auto
qed

section \<open>A fresh process\<close>

text \<open>What is relied on: a new cursor has no watchpoints, and a cursor can be at the start of the trace.\<close>

definition fresh_cursors :: "'c cursor_api \<Rightarrow> ('e, 'c) engine_api \<Rightarrow> ('c \<Rightarrow> watchpoint_key set) \<Rightarrow> bool" where
  "fresh_cursors ca ea watched \<longleftrightarrow> (\<forall>e c. NewCursor ea e = Some c \<longrightarrow> watched c = {})
     \<and> (\<forall>e. valid_position ca (Min (EngineLifetime ea e)))"

lemma cursor_new_fresh:
  assumes "engine_contract ca watched" and "fresh_cursors ca ea watched" and "cursor_new ca ea e = Inr c"
  shows "watched (rc_sdk c) = {}" and "rc_callback c = None"
  using assms by (auto simp: cursor_new_def engine_contract_def watch_stable_def fresh_cursors_def split: option.splits if_splits)

lemma opened_process:
  assumes "engine_contract ca watched" and "fresh_cursors ca ea watched" and "tp_open ca ea fa trace w = (w1, Inr p)"
  shows "process_inv ca watched p \<and> tp_position p = fst (tp_lifetime p) \<and> state_get (tp_breakpoints p) = Map.empty
    \<and> watched (rc_sdk (persistent_cursor p)) = {} \<and> current_thread_id p = first_os_tid (metadata p) \<and> interrupt_epoch p = 0"
proof -
  obtain e where n: "tp_new ca ea e = Inr p" using tp_open_parts [OF assms(3)] by blast
  then obtain pair where pair: "cursor_pair_new ca ea e = Inr pair"
    and p: "tp_cursors p = pair" "tp_position p = fst (tp_lifetime p)" "tp_lifetime p = metadata_lifetime (metadata_from_engine ea e)"
      "current_thread_id p = first_os_tid (metadata p)" "interrupt_epoch p = 0"
      "tp_breakpoints p = state_new (md_threads (metadata_from_engine ea e))" "active_replay p = NoReplay"
    by (auto simp: tp_new_def Let_def split: sum.splits)
  from pair obtain c where c: "cursor_new ca ea e = Inr c" and cs: "persistent pair = positioned_new c"
    "step_cursor pair = positioned_new (set_event_mask ca EVENT_EXCEPTION (set_exception_mask ca EXCEPTION_MASK c))"
    unfolding cursor_pair_new_def by (cases "cursor_new ca ea e") auto
  note fresh = cursor_new_fresh [OF assms(1,2) c]
  have sc: "watched (rc_sdk (pc_cursor (step_cursor pair))) = {}" "rc_callback (pc_cursor (step_cursor pair)) = None"
    using assms(1) fresh by (simp_all add: cs positioned_new_def set_event_mask_def set_exception_mask_def engine_contract_def watch_stable_def)
  have "valid_position ca (tp_position p)"
    using assms(2) p by (simp add: fresh_cursors_def metadata_lifetime_def metadata_from_engine_def with_index_status_def metadata_new_def)
  then have "process_inv ca watched p"
    using fresh sc wf_state_new by (simp add: process_inv_def p(1,6,7) cs(1) in_step_def cursor_ok_def keys_valid_def)
      (simp add: positioned_new_def state_new_def registry_new_def cs(2) coherent_def)
  moreover have "state_get (tp_breakpoints p) = Map.empty"
    by (simp add: p(6) state_get_def state_new_def manager_get_def manager_new_def fun_eq_iff)
  ultimately show ?thesis using p fresh by (simp add: cs positioned_new_def)
qed

text \<open>
  C23. Opening establishes the process invariant: a process that opens is at the first position of its
  trace, has no breakpoint, both its cursors are free of watchpoints and callbacks and coherent, the
  current thread is the first of the trace, and no interrupt is pending.
\<close>

theorem opened_process_ready:
  assumes "engine_contract ca watched" and "fresh_cursors ca ea watched" and "tp_open ca ea fa trace w = (w1, Inr p)"
  shows "process_inv ca watched p \<and> tp_position p = fst (tp_lifetime p) \<and> state_get (tp_breakpoints p) = Map.empty
    \<and> watched (rc_sdk (persistent_cursor p)) = {} \<and> current_thread_id p = first_os_tid (metadata p) \<and> interrupt_epoch p = 0"
  using assms by (rule opened_process)

section \<open>The simulated trace on disk\<close>

definition sim_files :: "string list file_api" where
  "sim_files = \<lparr>path_exists = (\<lambda>w p. p \<in> set w),
     remove_file = (\<lambda>w p. (removeAll p w, if p \<in> set w then Removed else NotFound))\<rparr>"

definition sim_engine_api :: "(u8, sim) engine_api" where
  "sim_engine_api = \<lparr>NewEngine = Some 1, EngineIsValid = (\<lambda>_. True), Load = (\<lambda>_ _. (0, True)), EngineArchitecture = (\<lambda>_. 9),
     EngineLifetime = (\<lambda>_. PositionRange (sim_position 0) (sim_position 8)), IndexStatus = id, BuildIndex = (\<lambda>_. (0, 0)),
     ThreadCount = (\<lambda>_. 1), ThreadAt = (\<lambda>_ _. sim_thread), ModuleCount = (\<lambda>_. 0), ModuleAt = (\<lambda>_ _. (0, 0)),
     ModuleName = (\<lambda>_ _. []), ExceptionCount = (\<lambda>_. 0), ExceptionAt = (\<lambda>_ _. ExceptionInfo (sim_position 3) 0 0 0),
     NewCursor = (\<lambda>_. Some sim_start), CursorIsValid = (\<lambda>_. True)\<rparr>"

definition sim_disk :: "string list" where
  "sim_disk = [''t/app.run'', ''t/app.idx'', ''t/app.idxt'']"

lemma sim_opens: "\<exists>w1 p. tp_open sim_api sim_engine_api sim_files ''t/app.run'' sim_disk = (w1, Inr p) \<and> w1 = [''t/app.run'']"
proof -
  have "case tp_open sim_api sim_engine_api sim_files ''t/app.run'' sim_disk of (w1, Inr _) \<Rightarrow> w1 = [''t/app.run''] | _ \<Rightarrow> False"
    by code_simp
  then show ?thesis by (auto split: prod.splits sum.splits)
qed

theorem open_index_complete_witness:
  "\<exists>w1 p. tp_open sim_api sim_engine_api sim_files ''t/app.run'' sim_disk = (w1, Inr p) \<and> md_index_status (metadata p) = IndexLoaded
     \<and> \<not> path_exists sim_files w1 (index_path ''t/app.run'')"
proof -
  obtain w1 p where o: "tp_open sim_api sim_engine_api sim_files ''t/app.run'' sim_disk = (w1, Inr p)" using sim_opens by blast
  have "removes_files sim_files" "builds_index sim_engine_api"
    by (auto simp: removes_files_def builds_index_def sim_files_def sim_engine_api_def)
  moreover have "path_exists sim_files sim_disk (partial_index_path ''t/app.run'')" by code_simp
  ultimately show ?thesis using open_index_complete [OF _ _ o] o by blast
qed

lemma sim_fresh: "fresh_cursors sim_api sim_engine_api (\<lambda>c. set (sim_keys c))"
proof -
  have "valid_position sim_api (sim_position 0)"
    unfolding valid_position_def sim_api_replay by (metis sim.select_convs(1))
  then show ?thesis by (simp add: fresh_cursors_def sim_engine_api_def sim_start_def)
qed

theorem opened_process_ready_witness:
  "\<exists>w1 p. tp_open sim_api sim_engine_api sim_files ''t/app.run'' sim_disk = (w1, Inr p) \<and> process_inv sim_api (\<lambda>c. set (sim_keys c)) p"
proof -
  obtain w1 p where o: "tp_open sim_api sim_engine_api sim_files ''t/app.run'' sim_disk = (w1, Inr p)" using sim_opens by blast
  from opened_process_ready [OF sim_contract sim_fresh o] o show ?thesis by blast
qed

end
