(* ===== verification/Server.thy ===== *)
theory Server
  imports Session Process_Open
begin

text \<open>
  The binary (\<open>main.rs\<close>): the options, opening the trace, serving it, the exit code, the log filter and the
  console handler. The command line parser and the logger are libraries.
\<close>

datatype server_error = OpenFailed debug_error | SessionFailed session_error

text \<open>How the process ends; \<open>PanicExit\<close> is the status 101 of a panic that unwound out of \<open>main\<close>.\<close>

datatype exit_code = Success | Failure | PanicExit

text \<open>The parsed command line.\<close>

record cli =
  cli_trace :: string
  cli_listen :: string
  cli_verbosity :: u8
  cli_accept_multiclient :: bool

text \<open>
  What a run of the binary meets outside: files, the addresses it can bind, sockets, the accept loop's
  iterations.
\<close>

record ('w, 't) world =
  files :: 'w
  bound :: "string \<Rightarrow> bool"
  nonblocking :: bool
  iterations :: "'t iteration list"

definition serve ::
  "'c cursor_api \<Rightarrow> ('e, 'c) engine_api \<Rightarrow> 'w file_api \<Rightarrow> (nat \<Rightarrow> u64) \<Rightarrow> (string \<Rightarrow> u8 list option) \<Rightarrow> (xml_element \<Rightarrow> string)
     \<Rightarrow> string \<Rightarrow> string \<Rightarrow> bool \<Rightarrow> ('w, 'c ttd_process) world \<Rightarrow> (server_error, unit) result run option" where
  "serve ca ea fa arrived opened render_xml trace listen accept_multiclient wd =
     (case tp_open ca ea fa trace (files wd) of
        (_, Inl err) \<Rightarrow> Some (Ret (Inl (OpenFailed err)))
      | (_, Inr process) \<Rightarrow>
          map_option (map_run (map_sum SessionFailed id))
            (run_gdb_server opened render_xml (ttd_target ca arrived) (bound wd listen) (nonblocking wd) accept_multiclient
               (iterations wd) process))"

text \<open>\<open>None\<close>: a handler never returned, so the process never ends.\<close>

definition main_exit :: "(server_error, unit) result run \<Rightarrow> exit_code option" where
  "main_exit r =
     (case r of
        Ret (Inr _) \<Rightarrow> Some Success
      | Ret (Inl _) \<Rightarrow> Some Failure
      | Panic _ \<Rightarrow> Some PanicExit
      | Spin \<Rightarrow> None)"

definition logging_filter :: "u8 \<Rightarrow> string" where
  "logging_filter verbosity =
     (if verbosity = 0 then ''warn'' else if verbosity = 1 then ''info,ttd_gdbserver=debug'' else ''debug'')"

text \<open>\<open>main\<close>: the filter the logger is started with, and the exit code when the server ends.\<close>

definition server_main ::
  "'c cursor_api \<Rightarrow> ('e, 'c) engine_api \<Rightarrow> 'w file_api \<Rightarrow> (nat \<Rightarrow> u64) \<Rightarrow> (string \<Rightarrow> u8 list option) \<Rightarrow> (xml_element \<Rightarrow> string)
     \<Rightarrow> cli \<Rightarrow> ('w, 'c ttd_process) world \<Rightarrow> string \<times> exit_code option" where
  "server_main ca ea fa arrived opened render_xml cli wd =
     (logging_filter (cli_verbosity cli),
      Option.bind
        (serve ca ea fa arrived opened render_xml (cli_trace cli) (cli_listen cli) (cli_accept_multiclient cli) wd) main_exit)"

text \<open>The console handler: the flag's new value, and the exit status when the process ends at once.\<close>

definition interrupt_handler :: "bool \<Rightarrow> bool \<times> nat option" where
  "interrupt_handler shutdown = (True, if shutdown then Some 130 else None)"

section \<open>The server as a whole\<close>

text \<open>
  A shutdown request ends the server: the accept loop comes to a result by the first iteration that
  finds the flag set, and with the flag set from the start it serves nobody and exits with success.
\<close>

lemma serve_loop_shutdown:
  "\<exists>it\<in>set its. shut_down it \<Longrightarrow> serve_loop opened render_xml dt persist its b cps \<noteq> None"
proof (induction its arbitrary: b cps)
  case (Cons it its)
  show ?case
  proof (cases "shut_down it")
    case False
    with Cons.prems have "serve_loop opened render_xml dt persist its b' cps' \<noteq> None" for b' cps'
      by (intro Cons.IH) simp
    with False show ?thesis by (cases persist) (simp_all split: accepted.splits sum.splits run.splits)
  qed simp
qed simp

lemma shutdown_before_serving:
  assumes "tp_open ca ea fa (cli_trace cli) (files wd) = (w1, Inr p)" and "bound wd (cli_listen cli)" and "nonblocking wd"
    and "iterations wd = it # its" and "shut_down it"
  shows "snd (server_main ca ea fa arrived opened render_xml cli wd) = Some Success"
  using assms by (simp add: server_main_def serve_def run_gdb_server_def serve_sessions_def main_exit_def)

text \<open>
  What is relied on of the engine's tables: a trace does not end before it begins, and there are no more
  modules and exception events than the diagnostics' \<open>u32\<close> counts can say.
\<close>

definition sound_tables :: "('e, 'c) engine_api \<Rightarrow> bool" where
  "sound_tables ea \<longleftrightarrow>
     (\<forall>e. Min (EngineLifetime ea e) \<le> Max (EngineLifetime ea e) \<and> ModuleCount ea e < 2 ^ 32 \<and> ExceptionCount ea e < 2 ^ 32)"

lemma opened_process_sound:
  assumes "sound_tables ea" and "tp_open ca ea fa trace w = (w1, Inr p)"
  shows "trace_sound p"
proof -
  obtain e where n: "tp_new ca ea e = Inr p" using tp_open_parts [OF assms(2)] by blast
  then have "tp_lifetime p = metadata_lifetime (metadata_from_engine ea e)" "metadata p = metadata_from_engine ea e"
    by (auto simp: tp_new_def Let_def split: sum.splits)
  with assms(1) show ?thesis
    by (simp add: trace_sound_def sound_tables_def metadata_lifetime_def metadata_from_engine_def with_index_status_def metadata_new_def
        engine_modules_def engine_exception_events_def)
qed

lemma Inl_map_sum: "map_sum f g x = Inl y \<longleftrightarrow> (\<exists>z. x = Inl z \<and> y = f z)"
  by (cases x) auto

text \<open>The accept loop on an opened trace: it never panics, and it fails only on the sockets.\<close>

lemma serve_loop_fails:
  assumes "process_inv ca watched p" and "trace_sound p" and "engine_contract ca watched"
    and "\<forall>it\<in>set its. \<forall>x y conn. accepts it = Accepted x y conn \<longrightarrow>
      (\<forall>b cps. process_inv ca watched b \<and> trace_sound b \<longrightarrow> wf_checkpoints cps \<longrightarrow>
         connection_ok (ttd_target ca arrived) has_room (gdb_target_new opened render_xml (ttd_target ca arrived) b cps) conn)"
    and "serve_loop opened render_xml (ttd_target ca arrived) persist its p checkpoints_new = Some out"
  shows "\<exists>res. out = Ret res \<and> (\<forall>err. res = Inl err \<longrightarrow> err = Listener \<or> err = Connection)"
proof -
  let ?inv = "\<lambda>p. process_inv ca watched p \<and> trace_sound p"
  note ttl = ttd_total_target [OF assms(3), of arrived]
  have inv: "?inv p" using assms(1,2) by simp
  obtain res where out: "out = Ret res"
    using total_target.serve_loop_returns [OF ttl inv wf_checkpoints_new _ assms(4,5)] by auto
  have "res \<noteq> Inl BackendRecovery"
    using debug_target.serve_loop_recovers [OF total_target.axioms(1) [OF ttl] inv wf_checkpoints_new _ assms(4) assms(5) [unfolded out]]
    by simp
  then have "err = Listener \<or> err = Connection" if "res = Inl err" for err
    using that by (cases err) simp_all
  with out show ?thesis by blast
qed

lemma run_gdb_server_fails:
  assumes "process_inv ca watched p" and "trace_sound p" and "engine_contract ca watched"
    and "\<forall>it\<in>set its. \<forall>x y conn. accepts it = Accepted x y conn \<longrightarrow>
      (\<forall>b cps. process_inv ca watched b \<and> trace_sound b \<longrightarrow> wf_checkpoints cps \<longrightarrow>
         connection_ok (ttd_target ca arrived) has_room (gdb_target_new opened render_xml (ttd_target ca arrived) b cps) conn)"
    and "run_gdb_server opened render_xml (ttd_target ca arrived) bnd nb persist its p = Some out"
  shows "\<exists>res. out = Ret res \<and> (\<forall>err. res = Inl err \<longrightarrow> err = Listener \<or> err = Connection)"
proof (cases "bnd \<and> nb")
  case True
  with assms(5) obtain lo where lo: "serve_loop opened render_xml (ttd_target ca arrived) persist its p checkpoints_new = Some lo"
    "out = map_run (map_sum id (\<lambda>_. ())) lo"
    unfolding run_gdb_server_def serve_sessions_def by auto
  from serve_loop_fails [OF assms(1-4) lo(1)] obtain res where "lo = Ret res" "\<forall>err. res = Inl err \<longrightarrow> err = Listener \<or> err = Connection"
    by blast
  with lo(2) show ?thesis by (auto simp: Inl_map_sum)
next
  case False
  with assms(5) show ?thesis by (cases bnd) (auto simp: run_gdb_server_def serve_sessions_def)
qed


definition sim_world :: "(string list, sim ttd_process) world" where
  "sim_world = \<lparr>files = sim_disk, bound = (\<lambda>_. True), nonblocking = True,
     iterations = [\<lparr>shut_down = False, accepts = Accepted True False break_once, shut_down_after = False\<rparr>]\<rparr>"


end
