(* ===== verification/Gdb_Breakpoints.thy ===== *)
theory Gdb_Breakpoints
  imports Stop_Sequences
begin

text \<open>
  The breakpoint packets (\<open>gdb/target/breakpoints.rs\<close>) end to end: from the \<open>Z\<close> and \<open>z\<close> handlers down to the
  logical breakpoint table of the \<open>TtdProcess\<close> behind the runner.
\<close>

definition client_breakpoints :: "'c ttd_process gdb_target \<Rightarrow> u64 \<Rightarrow> breakpoint option" where
  "client_breakpoints g = state_get (tp_breakpoints (session_backend g))"

text \<open>The triple a \<open>z\<close> packet names.\<close>

definition at_triple :: "u64 \<Rightarrow> u64 \<Rightarrow> access_mask \<Rightarrow> breakpoint \<Rightarrow> bool" where
  "at_triple addr sz access bp \<longleftrightarrow> bp_addr bp = addr \<and> bp_size bp = sz \<and> bp_access bp = access"

definition without :: "('v \<Rightarrow> bool) \<Rightarrow> ('k \<Rightarrow> 'v option) \<Rightarrow> 'k \<Rightarrow> 'v option" where
  "without p m k = (case m k of None \<Rightarrow> None | Some v \<Rightarrow> if p v then None else Some v)"

lemma without_insert: "p v \<Longrightarrow> m k = None \<Longrightarrow> without p (m(k \<mapsto> v)) = without p m"
  by (auto simp: without_def fun_eq_iff)

lemma try_backend_idle:
  "\<not> replay_in_flight g \<Longrightarrow> try_backend f g = Some (put_backend (fst (f (session_backend g))) g, snd (f (session_backend g)))"
  by (simp add: try_backend_def try_lock_def replay_in_flight_def runner_query_def put_backend_def session_backend_def end_state_def
      split_beta Let_def)

lemma put_backend_simps [simp]:
  "session_backend (put_backend b g) = b" "replay_in_flight (put_backend b g) = replay_in_flight g"
  by (simp_all add: put_backend_def session_backend_def replay_in_flight_def in_flight_def)

lemma on_breakpoints_state [simp]:
  "tp_breakpoints (fst (on_breakpoints f p)) = fst (f (tp_breakpoints p) (persistent_cursor p))"
  by (simp add: on_breakpoints_def map_persistent_def split_beta Let_def)

lemma state_remove_exact_get:
  assumes "wf_state s"
  shows "state_get (fst (state_remove_exact w addr sz access s c)) = without (at_triple addr sz access) (state_get s)"
proof -
  let ?m = "fst (manager_remove_exact (manager s) addr sz access)"
  obtain s2 c2 r where sy: "state_sync w (s\<lparr>manager := ?m\<rparr>) c = (s2, c2, r)" using prod_cases3 by blast
  have "manager (fst (state_remove_exact w addr sz access s c)) = ?m"
    using state_sync_frame(1) [OF sy] sy by (simp add: state_remove_exact_def split_beta Let_def)
  moreover have "manager_get ?m i = without (at_triple addr sz access) (manager_get (manager s)) i" for i
    using assms bt_get_retain [of "breakpoints (manager s)" "\<lambda>_ bp. \<not> at_triple addr sz access bp" i]
    by (auto simp: manager_remove_exact_def manager_get_def without_def at_triple_def wf_state_def wf_manager_def Let_def split: option.splits)
  ultimately show ?thesis by (simp add: state_get_def without_def fun_eq_iff)
qed

lemma set_data_breakpoint_get:
  assumes "wf_state s" and "next_id (manager s) \<noteq> u64_max"
  shows "wf_state (fst (set_data_breakpoint w addr sz kind s c))"
    and "without (at_triple addr sz (kind_access kind)) (state_get (fst (set_data_breakpoint w addr sz kind s c)))
       = without (at_triple addr sz (kind_access kind)) (state_get s)"
proof -
  obtain m i where m: "manager_add (manager s) addr sz (kind_access kind) kind None = (m, i)" by fastforce
  obtain s' c' res where call: "register w (m, i) s c = (s', c', res)" using prod_cases3 by blast
  then have s': "fst (set_data_breakpoint w addr sz kind s c) = s'" using m by (simp add: set_data_breakpoint_def)
  show "wf_state (fst (set_data_breakpoint w addr sz kind s c))"
    using wf_register [OF assms, of w addr sz "kind_access kind" kind None c s' c' res] m call s' by simp
  have fresh: "state_get s i = None"
    using assms(1) m by (auto simp: wf_state_def wf_manager_def manager_add_def state_get_def manager_get_def bt_get_None_iff Let_def)
  have "state_get s' = (state_get s)(i \<mapsto> requested i (addr, sz, kind_access kind, kind, None)) \<or> state_get s' = state_get s"
    using register_cases(1) [OF assms(1) m call] mgr.alloc_lookup [of "manager s" "(addr, sz, kind_access kind, kind, None)"]
      mgr.alloc_id [of "manager s" "(addr, sz, kind_access kind, kind, None)"] m
    by (auto simp: manager_add_alloc state_get_def manager_get_def fun_eq_iff)
  then show "without (at_triple addr sz (kind_access kind)) (state_get (fst (set_data_breakpoint w addr sz kind s c)))
       = without (at_triple addr sz (kind_access kind)) (state_get s)"
    using without_insert [of "at_triple addr sz (kind_access kind)" _ "state_get s" i] fresh s'
    by (auto simp: at_triple_def requested_def)
qed

lemma mask_of_kind: "access_mask_from_watch_kind kind = kind_access (breakpoint_kind_from_watch_kind kind)"
  by (cases kind) simp_all

text \<open>
  C21. A watchpoint the client deletes is gone: after a \<open>Z2\<close>/\<open>Z3\<close>/\<open>Z4\<close> packet, accepted by the engine or
  not, the matching \<open>z\<close> packet is acknowledged and leaves exactly the breakpoints of before that are not at
  the same address, length and access, however many ids an earlier session or a repeated insertion had
  left there, and it touches no other breakpoint.
\<close>

theorem watchpoint_packets_cancel:
  assumes "\<not> replay_in_flight g" and "wf_state (tp_breakpoints (session_backend g))"
    and "next_id (manager (tp_breakpoints (session_backend g))) \<noteq> u64_max"
    and "add_hw_watchpoint (ttd_target ca arrived) addr len kind g = (g1, ack)"
    and "remove_hw_watchpoint (ttd_target ca arrived) addr len kind g1 = (g2, answer)"
  shows "answer = Inr True
    \<and> client_breakpoints g2 = without (at_triple addr len (access_mask_from_watch_kind kind)) (client_breakpoints g)"
proof -
  let ?k = "breakpoint_kind_from_watch_kind kind"
  let ?w = "cursor_sink ca"
  have g1: "g1 = put_backend (fst (tp_set_data_breakpoint ca addr len ?k (session_backend g))) g"
    using assms(1,4) by (auto simp: add_hw_watchpoint_def inserted_def try_backend_idle split: sum.splits)
  then have s1: "tp_breakpoints (session_backend g1)
      = fst (set_data_breakpoint ?w addr len ?k (tp_breakpoints (session_backend g)) (persistent_cursor (session_backend g)))"
    by (simp add: tp_set_data_breakpoint_def)
  have "g2 = put_backend (fst (tp_remove_breakpoint_exact ca addr len (access_mask_from_watch_kind kind) (session_backend g1))) g1
      \<and> answer = Inr True"
    using assms(1,5) g1 by (simp add: remove_hw_watchpoint_def deleted_def try_backend_idle)
  then have "tp_breakpoints (session_backend g2) = fst (state_remove_exact ?w addr len (access_mask_from_watch_kind kind)
      (tp_breakpoints (session_backend g1)) (persistent_cursor (session_backend g1)))" "answer = Inr True"
    by (simp_all add: tp_remove_breakpoint_exact_def)
  then show ?thesis
    by (simp add: client_breakpoints_def mask_of_kind s1 state_remove_exact_get [OF set_data_breakpoint_get(1) [OF assms(2,3)]]
        set_data_breakpoint_get(2) [OF assms(2,3)])
qed

theorem watchpoint_packets_cancel_witness:
  "client_breakpoints (fst (remove_hw_watchpoint sim_dt 0x2000 4 WatchWrite (fst (add_hw_watchpoint sim_dt 0x2000 4 WatchWrite sim_gdb)))) 1
     = None"
proof -
  have "\<not> replay_in_flight sim_gdb" "wf_state (tp_breakpoints (session_backend sim_gdb))"
    "next_id (manager (tp_breakpoints (session_backend sim_gdb))) \<noteq> u64_max" "client_breakpoints sim_gdb 1 = None"
    using wf_state_new by (simp_all add: sim_gdb_def gdb_target_new_def runner_new_def replay_in_flight_def in_flight_def session_backend_def
        sim_process_def state_new_def manager_new_def client_breakpoints_def state_get_def manager_get_def Let_def)
  with watchpoint_packets_cancel [where g = sim_gdb and ca = sim_api and arrived = "\<lambda>_. 0" and addr = "0x2000" and len = "4" and kind = WatchWrite, OF _ _ _ surjective_pairing surjective_pairing]
  show ?thesis by (simp add: without_def)
qed

end
