(* ===== verification/Bridge.thy ===== *)
theory Bridge
  imports Process_Open
begin

text \<open>
  The C++ side of the bridge (\<open>ttd/cpp/ttd_cxx.cpp\<close>): the classes that own the SDK's handles and turn its
  results into the plain structs the Rust side reads. The SDK is a parameter, the records \<open>sdk_cursor\<close> and
  \<open>sdk_engine\<close> of the calls the bridge makes; its structs have the fields the bridge reads. What comes out
  is a \<open>cursor_api\<close> and an \<open>engine_api\<close>, so every theorem about the program holds of it. A wrapper
  with a null handle answers \<open>IsValid\<close> with false and is used no further; it is the value \<open>None\<close> of
  \<open>NewEngine\<close> and \<open>NewCursor\<close>.
\<close>

section \<open>The SDK's structs\<close>

datatype sdk_position = SdkPosition (sdk_sequence: u64) (sdk_steps: u64)

datatype sdk_range = SdkRange (sdk_min: sdk_position) (sdk_max: sdk_position)

datatype sdk_thread =
  SdkThread (sdk_unique_id: u32) (sdk_id: u32) (sdk_lifetime: sdk_range) (sdk_active_time: sdk_range)

datatype sdk_active = SdkActive (sdk_thread: "sdk_thread option") (sdk_current: sdk_position)

datatype sdk_module = SdkModule (sdk_address: u64) (sdk_size: u64) (sdk_name: "u16 list option")

datatype sdk_exception = SdkException (sdk_at: sdk_position) (sdk_code: u32) (sdk_record: u64) (sdk_pc: u64)

datatype sdk_watchpoint = SdkWatchpoint u64 u64 u8 u32

datatype sdk_access = SdkAccess (sdk_access_address: u64) (sdk_access_size: u64) (sdk_access_type: u8)

datatype sdk_index = IndexFileLoaded | IndexFileNotPresent | IndexFileUnloadable | IndexFileOther

text \<open>A view of guest memory; an invalid one has no meaningful size.\<close>

datatype buffer_view = BufferView (view_valid: bool) (view_size: u64)

datatype sdk_memory_range = SdkMemoryRange (sdk_range_address: u64) (sdk_range_memory: buffer_view) (sdk_range_sequence: u64)

record sdk_replay =
  StopReason :: u8
  StepsExecuted :: u64
  InstructionsExecuted :: u64
  MemoryWatchpoint :: sdk_access

text \<open>The number of the SDK's event \<open>MemoryWatchpoint\<close>, the one \<open>EventType\<close> decodes.\<close>

definition SDK_MEMORY_WATCHPOINT :: u8 where "SDK_MEMORY_WATCHPOINT = 0"

type_synonym sdk_callback = "sdk_access \<Rightarrow> sdk_thread option \<Rightarrow> bool"
type_synonym 'c sdk_replay_call =
  "'c \<Rightarrow> sdk_callback option \<Rightarrow> sdk_position \<Rightarrow> u64 \<Rightarrow> 'c \<times> sdk_replay \<times> (sdk_access \<times> sdk_thread option) list"

text \<open>
  The SDK's cursor. As in \<open>cursor_api\<close> the installed callback is an argument of a replay, which also
  gives the calls it made. A ranged query fills a caller's array; what it leaves in each cell is a
  function of the index.
\<close>

record 'c sdk_cursor =
  SdkSetDefaultMemoryPolicy :: "'c \<Rightarrow> 'c"
  SdkSetPosition :: "'c \<Rightarrow> sdk_position \<Rightarrow> 'c"
  SdkGetPosition :: "'c \<Rightarrow> sdk_position"
  SdkGetThreadInfo :: "'c \<Rightarrow> sdk_thread"
  SdkGetProgramCounter :: "'c \<Rightarrow> u64"
  SdkGetStackPointer :: "'c \<Rightarrow> u64"
  SdkGetTebAddress :: "'c \<Rightarrow> u32 \<Rightarrow> u64"
  SdkGetActiveCount :: "'c \<Rightarrow> nat"
  SdkGetActiveList :: "'c \<Rightarrow> nat \<Rightarrow> sdk_active"
  SdkAddMemoryWatchpoint :: "'c \<Rightarrow> sdk_watchpoint \<Rightarrow> 'c \<times> bool"
  SdkRemoveMemoryWatchpoint :: "'c \<Rightarrow> sdk_watchpoint \<Rightarrow> 'c \<times> bool"
  SdkSetEventMask :: "'c \<Rightarrow> u32 \<Rightarrow> 'c"
  SdkSetExceptionMask :: "'c \<Rightarrow> u32 \<Rightarrow> 'c"
  SdkInterruptReplay :: "'c \<Rightarrow> 'c"
  SdkReplayForward :: "'c sdk_replay_call"
  SdkReplayBackward :: "'c sdk_replay_call"
  SdkQueryMemoryBuffer :: "'c \<Rightarrow> u64 \<Rightarrow> u8 list \<Rightarrow> u8 list \<times> buffer_view"
  SdkQueryMemoryBufferWithRanges ::
    "'c \<Rightarrow> u64 \<Rightarrow> u8 list \<Rightarrow> nat \<Rightarrow> u8 list \<times> (nat \<Rightarrow> sdk_memory_range) \<times> buffer_view \<times> nat"
  SdkGetContext :: "'c \<Rightarrow> u32 \<Rightarrow> x64_regs"

record ('e, 'c) sdk_engine =
  MakeReplayEngine :: "'e option \<times> u32"
  Initialize :: "'e \<Rightarrow> u16 list \<Rightarrow> 'e \<times> bool"
  GetProcessorArchitecture :: "'e \<Rightarrow> u16"
  GetLifetime :: "'e \<Rightarrow> sdk_range"
  GetIndexStatus :: "'e \<Rightarrow> sdk_index"
  SdkBuildIndex :: "'e \<Rightarrow> 'e \<times> sdk_index"
  GetThreadCount :: "'e \<Rightarrow> nat"
  GetThreadList :: "'e \<Rightarrow> nat \<Rightarrow> sdk_thread"
  GetModuleCount :: "'e \<Rightarrow> nat"
  GetModuleList :: "'e \<Rightarrow> nat \<Rightarrow> sdk_module"
  GetExceptionEventCount :: "'e \<Rightarrow> nat"
  GetExceptionEventList :: "'e \<Rightarrow> nat \<Rightarrow> sdk_exception"
  SdkNewCursor :: "'e \<Rightarrow> 'c option"

section \<open>Conversions\<close>

definition to_position :: "sdk_position \<Rightarrow> position" where
  "to_position p = Position (sdk_sequence p) (sdk_steps p)"

definition to_sdk_position :: "position \<Rightarrow> sdk_position" where
  "to_sdk_position p = SdkPosition (seq_id p) (steps p)"

definition to_range :: "sdk_range \<Rightarrow> position_range" where
  "to_range r = PositionRange (to_position (sdk_min r)) (to_position (sdk_max r))"

definition to_thread_info :: "sdk_thread \<Rightarrow> thread_info" where
  "to_thread_info t =
     ThreadInfo (sdk_unique_id t) (sdk_id t) (to_range (sdk_lifetime t)) (to_range (sdk_active_time t))"

text \<open>Text conversions are Windows calls; \<open>utf8_of\<close> and \<open>wide_of\<close> give nothing where they fail.\<close>

definition wide_to_utf8 :: "(u16 list \<Rightarrow> string option) \<Rightarrow> u16 list option \<Rightarrow> string" where
  "wide_to_utf8 utf8_of text =
     (case text of
        None \<Rightarrow> []
      | Some w \<Rightarrow> if w = [] then [] else (case utf8_of w of None \<Rightarrow> [] | Some s \<Rightarrow> s))"

definition index_code :: "sdk_index \<Rightarrow> u8" where
  "index_code s =
     (case s of IndexFileLoaded \<Rightarrow> 0 | IndexFileNotPresent \<Rightarrow> 1 | IndexFileUnloadable \<Rightarrow> 2 | IndexFileOther \<Rightarrow> 0xff)"

definition to_active_thread :: "sdk_active \<Rightarrow> active_thread" where
  "to_active_thread a =
     ActiveThread
       (case sdk_thread a of
          None \<Rightarrow> ThreadInfo 0 0 (PositionRange (Position 0 0) (Position 0 0)) (PositionRange (Position 0 0) (Position 0 0))
        | Some t \<Rightarrow> to_thread_info t)
       (to_position (sdk_current a))"

definition replay_outcome_of :: "sdk_replay \<Rightarrow> replay_outcome" where
  "replay_outcome_of r =
     (let w = MemoryWatchpoint r; hit = (StopReason r = SDK_MEMORY_WATCHPOINT)
      in \<lparr>ro_stop_reason = StopReason r, ro_steps = StepsExecuted r, ro_instructions = InstructionsExecuted r,
          ro_wp_address = (if hit then sdk_access_address w else 0),
          ro_wp_size = (if hit then sdk_access_size w else 0),
          ro_wp_access = (if hit then sdk_access_type w else 0)\<rparr>)"

definition view_read :: "buffer_view \<Rightarrow> u64" where
  "view_read v = (if view_valid v then view_size v else 0)"

definition to_memory_range :: "sdk_memory_range \<Rightarrow> memory_range" where
  "to_memory_range r = MemoryRange (sdk_range_address r) (view_read (sdk_range_memory r)) (sdk_range_sequence r)"

section \<open>The cursor\<close>

text \<open>\<open>OnWatchpoint\<close>: the installed callback, if any, with the hitting thread's id or 0.\<close>

definition hit_of :: "sdk_access \<Rightarrow> sdk_thread option \<Rightarrow> hit" where
  "hit_of w t =
     Hit (sdk_access_address w) (sdk_access_size w) (sdk_access_type w) (case t of None \<Rightarrow> 0 | Some t \<Rightarrow> sdk_id t)"

definition on_watchpoint :: "shim option \<Rightarrow> sdk_callback" where
  "on_watchpoint callback w t =
     (case callback of
        None \<Rightarrow> True
      | Some f \<Rightarrow> (case hit_of w t of Hit address sz access thread \<Rightarrow> f address sz access thread))"

definition bridge_replay :: "'c sdk_replay_call \<Rightarrow> 'c replay_call" where
  "bridge_replay replay c hook limit n =
     (let (c', r, calls) = replay c (map_option (\<lambda>f. on_watchpoint (Some f)) hook) (to_sdk_position limit) n
      in (c', replay_outcome_of r, map (\<lambda>(w, t). hit_of w t) calls))"

definition bridge_query :: "'c sdk_cursor \<Rightarrow> 'c \<Rightarrow> u64 \<Rightarrow> u8 list \<Rightarrow> u8 list \<times> nat" where
  "bridge_query sc c address buffer =
     (let (buffer', view) = SdkQueryMemoryBuffer sc c address buffer in (buffer', unat (view_read view)))"

definition bridge_query_ranges ::
  "'c sdk_cursor \<Rightarrow> 'c \<Rightarrow> u64 \<Rightarrow> u8 list \<Rightarrow> memory_range list \<Rightarrow> u8 list \<times> memory_range list \<times> u64 \<times> u64" where
  "bridge_query_ranges sc c address buffer ranges =
     (let (buffer', raw, view, n) = SdkQueryMemoryBufferWithRanges sc c address buffer (length ranges);
          count = min n (length ranges)
      in (buffer', map (\<lambda>i. to_memory_range (raw i)) [0..<count] @ drop count ranges, view_read view, word_of_nat count))"

definition bridge_cursor :: "'c sdk_cursor \<Rightarrow> 'c cursor_api" where
  "bridge_cursor sc = \<lparr>
     SetPosition = (\<lambda>c p. SdkSetPosition sc c (to_sdk_position p)),
     GetPosition = (\<lambda>c. to_position (SdkGetPosition sc c)),
     GetThreadInfo = (\<lambda>c. to_thread_info (SdkGetThreadInfo sc c)),
     ProgramCounter = SdkGetProgramCounter sc,
     StackPointer = SdkGetStackPointer sc,
     TebAddress = SdkGetTebAddress sc,
     ActiveThreadCount = SdkGetActiveCount sc,
     ActiveThreadAt = (\<lambda>c i. to_active_thread (SdkGetActiveList sc c i)),
     AddMemoryWatchpoint = (\<lambda>c a n x t. SdkAddMemoryWatchpoint sc c (SdkWatchpoint a n x t)),
     RemoveMemoryWatchpoint = (\<lambda>c a n x t. SdkRemoveMemoryWatchpoint sc c (SdkWatchpoint a n x t)),
     SetEventMask = SdkSetEventMask sc,
     SetExceptionMask = SdkSetExceptionMask sc,
     InterruptReplay = SdkInterruptReplay sc,
     ReplayForward = bridge_replay (SdkReplayForward sc),
     ReplayBackward = bridge_replay (SdkReplayBackward sc),
     QueryMemory = bridge_query sc,
     QueryMemoryWithRanges = bridge_query_ranges sc,
     GetAmd64Context = (\<lambda>c t. get_amd64_context (SdkGetContext sc c t))\<rparr>"

section \<open>The engine\<close>

definition bridge_new_engine :: "('e, 'c) sdk_engine \<Rightarrow> 'e option" where
  "bridge_new_engine se = (case MakeReplayEngine se of (engine, error) \<Rightarrow> if error = 0 then engine else None)"

text \<open>The path crosses as a C string, so the SDK reads up to the first NUL.\<close>

definition bridge_load ::
  "(string \<Rightarrow> u16 list option) \<Rightarrow> ('e, 'c) sdk_engine \<Rightarrow> 'e \<Rightarrow> string \<Rightarrow> 'e \<times> bool" where
  "bridge_load wide_of se e path =
     (if path = [] then (e, False)
      else case wide_of path of
             None \<Rightarrow> (e, False)
           | Some w \<Rightarrow> if w = [] then (e, False) else Initialize se e (takeWhile (\<lambda>x. x \<noteq> 0) w))"

definition bridge_new_cursor :: "'c sdk_cursor \<Rightarrow> ('e, 'c) sdk_engine \<Rightarrow> 'e \<Rightarrow> 'c option" where
  "bridge_new_cursor sc se e = map_option (SdkSetDefaultMemoryPolicy sc) (SdkNewCursor se e)"

definition bridge_engine ::
  "(u16 list \<Rightarrow> string option) \<Rightarrow> (string \<Rightarrow> u16 list option) \<Rightarrow> 'c sdk_cursor \<Rightarrow> ('e, 'c) sdk_engine \<Rightarrow> ('e, 'c) engine_api" where
  "bridge_engine utf8_of wide_of sc se = \<lparr>
     NewEngine = bridge_new_engine se,
     EngineIsValid = (\<lambda>_. True),
     Load = bridge_load wide_of se,
     EngineArchitecture = (\<lambda>e. ucast (GetProcessorArchitecture se e)),
     EngineLifetime = (\<lambda>e. to_range (GetLifetime se e)),
     IndexStatus = (\<lambda>e. index_code (GetIndexStatus se e)),
     BuildIndex = (\<lambda>e. map_prod id index_code (SdkBuildIndex se e)),
     ThreadCount = GetThreadCount se,
     ThreadAt = (\<lambda>e i. to_thread_info (GetThreadList se e i)),
     ModuleCount = GetModuleCount se,
     ModuleAt = (\<lambda>e i. (sdk_address (GetModuleList se e i), sdk_size (GetModuleList se e i))),
     ModuleName = (\<lambda>e i. wide_to_utf8 utf8_of (sdk_name (GetModuleList se e i))),
     ExceptionCount = GetExceptionEventCount se,
     ExceptionAt = (\<lambda>e i. (case GetExceptionEventList se e i of
        SdkException p c r pc \<Rightarrow> ExceptionInfo (to_position p) c r pc)),
     NewCursor = bridge_new_cursor sc se,
     CursorIsValid = (\<lambda>_. True)\<rparr>"

section \<open>What crosses the bridge\<close>

lemma position_conversions [simp]:
  "to_position (to_sdk_position p) = p" "to_sdk_position (to_position s) = s"
  by (simp_all add: to_position_def to_sdk_position_def)

lemma index_status_crosses:
  "engine_index_state (bridge_engine utf8_of wide_of sc se) e =
     (case GetIndexStatus se e of
        IndexFileLoaded \<Rightarrow> IndexLoaded | IndexFileNotPresent \<Rightarrow> IndexNotPresent
      | IndexFileUnloadable \<Rightarrow> IndexUnloadable | IndexFileOther \<Rightarrow> IndexUnknown)"
  by (simp add: engine_index_state_def bridge_engine_def index_code_def index_status_from_u8_def split: sdk_index.splits)

text \<open>An outcome that is no watchpoint stop carries no address, whatever the SDK left in its struct.\<close>

lemma only_watchpoint_stops_carry_an_access:
  "stop_event (replay_result_from (replay_outcome_of r)) \<noteq> EvMemoryWatchpoint \<Longrightarrow>
     wp_address (replay_result_from (replay_outcome_of r)) = 0 \<and> wp_size (replay_result_from (replay_outcome_of r)) = 0"
  by (auto simp: replay_result_from_def replay_outcome_of_def Let_def event_type_from_u8_def SDK_MEMORY_WATCHPOINT_def
      split: if_splits)

text \<open>The hits the Rust side is told of are the calls its callback was given.\<close>

lemma hit_reported_is_call:
  "on_watchpoint (Some f) w t = f (hit_address (hit_of w t)) (hit_size (hit_of w t)) (hit_access (hit_of w t)) (hit_thread (hit_of w t))"
  by (simp add: on_watchpoint_def hit_of_def)

lemma bridge_context_round_trip:
  "wf_save_area (FltSave (SdkGetContext sc (rc_sdk c) t)) \<Longrightarrow> architecture_of (rc_arch c) = ArchX64 \<Longrightarrow>
     amd64_context (bridge_cursor sc) c t = Inr (SdkGetContext sc (rc_sdk c) t)"
  by (simp add: amd64_context_def bridge_cursor_def decode_get_amd64_context)

section \<open>From the SDK's contract to the program's\<close>

fun watchpoint_key_of :: "sdk_watchpoint \<Rightarrow> watchpoint_key" where
  "watchpoint_key_of (SdkWatchpoint a n x t) = WatchpointKey a n x t"

text \<open>
  What the SDK documents: seeking to a position a cursor can have arrives there; watchpoints, masks and
  the memory policy do not move a cursor; \<open>watched\<close>, the watchpoints a cursor has, changes by the
  accepted calls and by nothing else.
\<close>

definition sdk_contract :: "'c sdk_cursor \<Rightarrow> ('c \<Rightarrow> sdk_watchpoint set) \<Rightarrow> bool" where
  "sdk_contract sc watched \<longleftrightarrow>
     (\<forall>c c'. SdkGetPosition sc (SdkSetPosition sc c (SdkGetPosition sc c')) = SdkGetPosition sc c')
   \<and> (\<forall>c w. SdkGetPosition sc (fst (SdkAddMemoryWatchpoint sc c w)) = SdkGetPosition sc c)
   \<and> (\<forall>c w. SdkGetPosition sc (fst (SdkRemoveMemoryWatchpoint sc c w)) = SdkGetPosition sc c)
   \<and> (\<forall>c m. SdkGetPosition sc (SdkSetEventMask sc c m) = SdkGetPosition sc c)
   \<and> (\<forall>c m. SdkGetPosition sc (SdkSetExceptionMask sc c m) = SdkGetPosition sc c)
   \<and> (\<forall>c w. watched (fst (SdkAddMemoryWatchpoint sc c w)) =
        (if snd (SdkAddMemoryWatchpoint sc c w) then insert w (watched c) else watched c))
   \<and> (\<forall>c w. watched (fst (SdkRemoveMemoryWatchpoint sc c w)) =
        (if snd (SdkRemoveMemoryWatchpoint sc c w) then watched c - {w} else watched c))
   \<and> (\<forall>c p. watched (SdkSetPosition sc c p) = watched c)
   \<and> (\<forall>c m. watched (SdkSetEventMask sc c m) = watched c) \<and> (\<forall>c m. watched (SdkSetExceptionMask sc c m) = watched c)
   \<and> (\<forall>c. watched (SdkSetDefaultMemoryPolicy sc c) = watched c)
   \<and> (\<forall>c h l n. watched (fst (SdkReplayForward sc c h l n)) = watched c)
   \<and> (\<forall>c h l n. watched (fst (SdkReplayBackward sc c h l n)) = watched c)"

definition sdk_fresh :: "'c sdk_cursor \<Rightarrow> ('e, 'c) sdk_engine \<Rightarrow> ('c \<Rightarrow> sdk_watchpoint set) \<Rightarrow> bool" where
  "sdk_fresh sc se watched \<longleftrightarrow> (\<forall>e c. SdkNewCursor se e = Some c \<longrightarrow> watched c = {})
     \<and> (\<forall>e. \<exists>c. SdkGetPosition sc c = sdk_min (GetLifetime se e))"

lemma watchpoint_key_of_eq [simp]: "watchpoint_key_of v = watchpoint_key_of w \<longleftrightarrow> v = w"
  by (cases v; cases w) simp

lemma inj_watchpoint_key_of: "inj watchpoint_key_of"
  by (simp add: inj_on_def)

lemma bridge_replay_sdk: "fst (bridge_replay replay c hook limit n)
    = fst (replay c (map_option (\<lambda>f. on_watchpoint (Some f)) hook) (to_sdk_position limit) n)"
  by (simp add: bridge_replay_def split: prod.splits)

lemma bridge_contract:
  assumes "sdk_contract sc watched"
  shows "engine_contract (bridge_cursor sc) (\<lambda>c. watchpoint_key_of ` watched c)"
proof -
  note sdk = assms [unfolded sdk_contract_def]
  have "lands (bridge_cursor sc)" "position_stable (bridge_cursor sc)"
    using sdk by (simp_all add: lands_def position_stable_def bridge_cursor_def)
  moreover have "honours_watchpoints (bridge_cursor sc) (\<lambda>c. watchpoint_key_of ` watched c)"
    using sdk by (simp add: honours_watchpoints_def bridge_cursor_def image_set_diff [OF inj_watchpoint_key_of])
  moreover have "watch_stable (bridge_cursor sc) (\<lambda>c. watchpoint_key_of ` watched c)"
    using sdk by (simp add: watch_stable_def bridge_cursor_def bridge_replay_sdk)
  ultimately show ?thesis by (simp add: engine_contract_def)
qed

lemma bridge_fresh:
  assumes "sdk_contract sc watched" and "sdk_fresh sc se watched"
  shows "fresh_cursors (bridge_cursor sc) (bridge_engine utf8_of wide_of sc se) (\<lambda>c. watchpoint_key_of ` watched c)"
proof -
  have "valid_position (bridge_cursor sc) (to_position (sdk_min (GetLifetime se e)))" for e
  proof -
    from assms(2) obtain c where "SdkGetPosition sc c = sdk_min (GetLifetime se e)" unfolding sdk_fresh_def by blast
    then show ?thesis by (auto simp: valid_position_def bridge_cursor_def intro: exI [of _ c])
  qed
  then show ?thesis
    using assms by (auto simp: fresh_cursors_def bridge_engine_def bridge_new_cursor_def sdk_fresh_def sdk_contract_def to_range_def)
qed

lemma bridge_builds_index:
  "\<forall>e. GetIndexStatus se (fst (SdkBuildIndex se e)) = snd (SdkBuildIndex se e) \<Longrightarrow> builds_index (bridge_engine utf8_of wide_of sc se)"
  by (simp add: builds_index_def bridge_engine_def)

lemma opened_first_id:
  "tp_open ca ea fa trace w = (w1, Inr p) \<Longrightarrow> next_id (manager (tp_breakpoints p)) = 1"
  by (erule tp_open_parts) (auto simp: tp_new_def Let_def state_new_def manager_new_def split: sum.splits)

text \<open>
  C7. From the client's calls down to the SDK, across both languages: on an SDK that keeps its documented
  contract, after opening a trace and any sequence of client calls the watchpoints the SDK has are exactly
  those the registry records; every logical breakpoint is among them, all have a safe range, the step
  cursor has none, and the debug position is one the SDK can be at.
\<close>

theorem sdk_watches_what_the_client_asked:
  assumes "sdk_contract sc watched" and "sdk_fresh sc se watched"
    and "tp_open (bridge_cursor sc) (bridge_engine utf8_of wide_of sc se) fa trace w = (w1, Inr p)"
    and "length calls < 2 ^ 64 - 1" and "process_run (bridge_cursor sc) calls p = Some q"
  shows "watchpoint_key_of ` watched (rc_sdk (persistent_cursor q)) = set (applied (watchpoints (tp_breakpoints q)))
    \<and> breakpoint_key (threads (tp_breakpoints q)) ` set (manager_active (manager (tp_breakpoints q)))
        \<subseteq> watchpoint_key_of ` watched (rc_sdk (persistent_cursor q))
    \<and> keys_valid (watchpoint_key_of ` watched (rc_sdk (persistent_cursor q)))
    \<and> watched (rc_sdk (pc_cursor (step_cursor (tp_cursors q)))) = {}
    \<and> (\<exists>c. to_position (SdkGetPosition sc c) = tp_position q)"
proof -
  let ?watched = "\<lambda>c. watchpoint_key_of ` watched c"
  note con = bridge_contract [OF assms(1)]
  have "process_inv (bridge_cursor sc) ?watched p"
    using opened_process [OF con bridge_fresh [OF assms(1,2)] assms(3)] by blast
  moreover have "unat (next_id (manager (tp_breakpoints p))) + length calls < 2 ^ 64"
    using assms(4) by (simp add: opened_first_id [OF assms(3)])
  ultimately have "process_inv (bridge_cursor sc) ?watched q"
    using process_run_inv [OF _ con _ assms(5)] by blast
  then show ?thesis
    by (auto simp: process_inv_def in_step_def wf_state_def backed_def desired_watchpoints_def valid_position_def bridge_cursor_def)
qed

text \<open>The ranges a read through the bridge delivers, before the Rust side filters them.\<close>

lemma bridge_read_ranges:
  assumes "m < 2 ^ 32"
    and "SdkQueryMemoryBufferWithRanges sc (rc_sdk c) addr (replicate len 0) (max m 1) = (buffer, raw, view, count)"
  shows "cursor_read_memory_ranges (bridge_cursor sc) c addr len m
    = (take (unat (view_read view)) buffer, map (\<lambda>i. to_memory_range (raw i)) [0..<min count (max m 1)])"
proof -
  define k where "k = max m 1"
  have "min count k < 2 ^ 64" using assms(1) by (simp add: k_def)
  then have small: "unat (word_of_nat (min count k) :: u64) = min count k" by (simp add: unat_of_nat)
  note q = assms(2) [folded k_def]
  show ?thesis
    unfolding cursor_read_memory_ranges_def k_def [symmetric]
    by (simp add: bridge_cursor_def bridge_query_ranges_def q Let_def small del: replicate.simps)
qed

lemma below_word_of_nat: "x < word_of_nat n \<Longrightarrow> unat (x :: u64) < n"
  using mod_less_eq_dividend [of n "2 ^ 64"] by (simp add: word_less_nat_alt unat_of_nat)

text \<open>
  C36. What \<open>monitor ttd mem\<close> says about the origin of bytes is the SDK's own attribution: a ranged read
  returns no more bytes than it was asked for and no more ranges than its cap, even if the SDK counts past
  the array; and every range is one the SDK filled in, over valid, non-empty memory, and starts inside
  the bytes received. A cap of zero ranges still passes the SDK room for one.
\<close>

theorem ranges_attributed:
  "case read_ranges_into (bridge_cursor sc) c addr buf max_ranges of (buf', n, ranges) \<Rightarrow>
     length buf' = length buf \<and> n \<le> length buf \<and> length ranges \<le> max (unat max_ranges) 1
     \<and> set ranges \<subseteq> (case SdkQueryMemoryBufferWithRanges sc (rc_sdk c) addr (replicate (length buf) 0) (max (unat max_ranges) 1) of
         (_, raw, _, count) \<Rightarrow> {to_memory_range (raw i) | i. i < count \<and> view_valid (sdk_range_memory (raw i))
            \<and> view_size (sdk_range_memory (raw i)) \<noteq> 0 \<and> addr \<le> sdk_range_address (raw i)
            \<and> unat (sdk_range_address (raw i) - addr) < n})"
proof (cases "buf = []")
  case False
  let ?len = "length buf" and ?m = "unat max_ranges"
  obtain buffer raw view count where q:
    "SdkQueryMemoryBufferWithRanges sc (rc_sdk c) addr (replicate ?len 0) (max ?m 1) = (buffer, raw, view, count)"
    using prod_cases4 by blast
  have "?m < 2 ^ 32" using unsigned_less [of max_ranges] by simp
  note read = bridge_read_ranges [OF this q]
  let ?bytes = "take (unat (view_read view)) buffer"
  let ?n = "min ?len (length ?bytes)"
  let ?kept = "filter (\<lambda>run. mr_size run > 0
      \<and> (case checked_sub (mr_address run) addr of None \<Rightarrow> False | Some offset \<Rightarrow> offset < (word_of_nat ?n :: u64)))
      (map (\<lambda>i. to_memory_range (raw i)) [0..<min count (max ?m 1)])"
  have res: "read_ranges_into (bridge_cursor sc) c addr buf max_ranges = (take ?n ?bytes @ drop ?n buf, ?n, ?kept)"
    using False by (simp only: read_ranges_into_def read copy_into_def Let_def prod.case if_False)
  have "length ?kept \<le> max ?m 1" by (rule order_trans [OF length_filter_le]) simp
  moreover have "set ?kept \<subseteq> {to_memory_range (raw i) | i. i < count \<and> view_valid (sdk_range_memory (raw i))
      \<and> view_size (sdk_range_memory (raw i)) \<noteq> 0 \<and> addr \<le> sdk_range_address (raw i)
      \<and> unat (sdk_range_address (raw i) - addr) < ?n}"
  proof
    fix r assume "r \<in> set ?kept"
    then obtain i where i: "i < count" "r = to_memory_range (raw i)" and r: "mr_size r > 0"
      and off: "case checked_sub (mr_address r) addr of None \<Rightarrow> False | Some offset \<Rightarrow> offset < (word_of_nat ?n :: u64)"
      by auto
    from off have "addr \<le> mr_address r" "unat (mr_address r - addr) < ?n"
      by (auto simp: checked_sub_def dest!: below_word_of_nat simp del: min_less_iff_conj split: if_splits)
    with i r show "r \<in> {to_memory_range (raw i) | i. i < count \<and> view_valid (sdk_range_memory (raw i))
      \<and> view_size (sdk_range_memory (raw i)) \<noteq> 0 \<and> addr \<le> sdk_range_address (raw i)
      \<and> unat (sdk_range_address (raw i) - addr) < ?n}"
      by (auto simp: to_memory_range_def view_read_def split: if_splits)
  qed
  ultimately show ?thesis unfolding res q by simp
qed (simp add: read_ranges_into_def split: prod.splits)

section \<open>The simulated trace behind the bridge\<close>

definition sim_sdk_thread :: sdk_thread where
  "sim_sdk_thread =
     (let r = SdkRange (to_sdk_position (sim_position 0)) (to_sdk_position (sim_position 8)) in SdkThread 2 7 r r)"

definition sim_sdk_replay :: "bool \<Rightarrow> sim sdk_replay_call" where
  "sim_sdk_replay forward c callback limit n =
     (let (c', r, hs) = sim_replay forward c
            (map_option (\<lambda>f a sz x t. f (SdkAccess a sz x) (Some sim_sdk_thread)) callback) (to_position limit) n
      in (c', \<lparr>StopReason = ro_stop_reason r, StepsExecuted = ro_steps r, InstructionsExecuted = ro_instructions r,
               MemoryWatchpoint = SdkAccess (ro_wp_address r) (ro_wp_size r) (ro_wp_access r)\<rparr>,
          map (\<lambda>h. (SdkAccess (hit_address h) (hit_size h) (hit_access h), Some sim_sdk_thread)) hs))"

definition sim_sdk :: "sim sdk_cursor" where
  "sim_sdk = \<lparr>
     SdkSetDefaultMemoryPolicy = id,
     SdkSetPosition = (\<lambda>c p. sim_SetPosition c (to_position p)),
     SdkGetPosition = (\<lambda>c. to_sdk_position (sim_GetPosition c)),
     SdkGetThreadInfo = (\<lambda>c. sim_sdk_thread),
     SdkGetProgramCounter = sim_ProgramCounter,
     SdkGetStackPointer = sim_StackPointer,
     SdkGetTebAddress = sim_TebAddress,
     SdkGetActiveCount = sim_ActiveThreadCount,
     SdkGetActiveList = (\<lambda>c i. SdkActive (Some sim_sdk_thread) (to_sdk_position (sim_GetPosition c))),
     SdkAddMemoryWatchpoint = (\<lambda>c w. case w of SdkWatchpoint a n x t \<Rightarrow> sim_AddMemoryWatchpoint c a n x t),
     SdkRemoveMemoryWatchpoint = (\<lambda>c w. case w of SdkWatchpoint a n x t \<Rightarrow> sim_RemoveMemoryWatchpoint c a n x t),
     SdkSetEventMask = sim_SetEventMask,
     SdkSetExceptionMask = sim_SetExceptionMask,
     SdkInterruptReplay = id,
     SdkReplayForward = sim_sdk_replay True,
     SdkReplayBackward = sim_sdk_replay False,
     SdkQueryMemoryBuffer = (\<lambda>c a b. (fst (sim_QueryMemory c a b), BufferView True (word_of_nat (length b)))),
     SdkQueryMemoryBufferWithRanges = (\<lambda>c a b n. (fst (sim_QueryMemory c a b),
        (\<lambda>i. SdkMemoryRange a (BufferView True (word_of_nat (length b))) 1), BufferView True (word_of_nat (length b)), 1)),
     SdkGetContext = (\<lambda>c t. sim_regs (sim_at c))\<rparr>"

definition sim_sdk_engine :: "(sdk_index, sim) sdk_engine" where
  "sim_sdk_engine = \<lparr>
     MakeReplayEngine = (Some IndexFileOther, 0),
     Initialize = (\<lambda>_ _. (IndexFileNotPresent, True)),
     GetProcessorArchitecture = (\<lambda>_. 9),
     GetLifetime = (\<lambda>_. sdk_lifetime sim_sdk_thread),
     GetIndexStatus = id,
     SdkBuildIndex = (\<lambda>_. (IndexFileLoaded, IndexFileLoaded)),
     GetThreadCount = (\<lambda>_. 1), GetThreadList = (\<lambda>_ _. sim_sdk_thread),
     GetModuleCount = (\<lambda>_. 1), GetModuleList = (\<lambda>_ _. SdkModule 0x1000 0x1000 (Some [0x61, 0x70, 0x70])),
     GetExceptionEventCount = (\<lambda>_. 0), GetExceptionEventList = (\<lambda>_ _. SdkException (SdkPosition 1 3) 0 0 0),
     SdkNewCursor = (\<lambda>_. Some sim_start)\<rparr>"

definition ascii_to_wide :: "string \<Rightarrow> u16 list option" where
  "ascii_to_wide s = Some (map (\<lambda>c. word_of_nat (of_char c)) s)"

definition wide_to_ascii :: "u16 list \<Rightarrow> string option" where
  "wide_to_ascii w = Some (map (\<lambda>x. char_of (unat x)) w)"

definition sim_sdk_watched :: "sim \<Rightarrow> sdk_watchpoint set" where
  "sim_sdk_watched c = {w. watchpoint_key_of w \<in> set (sim_keys c)}"

lemma image_sim_sdk_watched: "watchpoint_key_of ` sim_sdk_watched c = set (sim_keys c)"
proof -
  have "\<exists>w. watchpoint_key_of w = k" for k
    by (cases k) (metis watchpoint_key_of.simps)
  then show ?thesis unfolding sim_sdk_watched_def image_def by auto metis
qed

lemma sim_sdk_contract: "sdk_contract sim_sdk sim_sdk_watched"
proof -
  have "\<And>c c'. SdkGetPosition sim_sdk (SdkSetPosition sim_sdk c (SdkGetPosition sim_sdk c')) = SdkGetPosition sim_sdk c'"
    by (simp add: sim_sdk_def sim_GetPosition_def sim_SetPosition_lands)
  moreover have "sim_sdk_watched (fst (sim_sdk_replay forward c h l n)) = sim_sdk_watched c" for forward c h l n
    using sim_run_keys by (simp add: sim_sdk_watched_def sim_sdk_replay_def sim_replay_def split_beta Let_def)
  moreover have add: "SdkAddMemoryWatchpoint sim_sdk c w = (c\<lparr>sim_keys := watchpoint_key_of w # sim_keys c\<rparr>, True)"
    and rem: "SdkRemoveMemoryWatchpoint sim_sdk c w = (c\<lparr>sim_keys := filter (\<lambda>k. k \<noteq> watchpoint_key_of w) (sim_keys c)\<rparr>, True)" for c w
    by (simp_all add: sim_sdk_def sim_AddMemoryWatchpoint_def sim_RemoveMemoryWatchpoint_def split: sdk_watchpoint.splits)
  moreover have "sim_sdk_watched (fst (SdkAddMemoryWatchpoint sim_sdk c w)) = insert w (sim_sdk_watched c)"
    "sim_sdk_watched (fst (SdkRemoveMemoryWatchpoint sim_sdk c w)) = sim_sdk_watched c - {w}" for c w
    by (auto simp: add rem sim_sdk_watched_def)
  ultimately show ?thesis
    by (simp add: sdk_contract_def) (simp add: sim_sdk_def sim_GetPosition_def sim_SetPosition_def sim_SetEventMask_def
        sim_SetExceptionMask_def sim_sdk_watched_def)
qed

lemma sim_sdk_fresh: "sdk_fresh sim_sdk sim_sdk_engine sim_sdk_watched"
proof -
  have "SdkGetPosition sim_sdk sim_start = sdk_min (sdk_lifetime sim_sdk_thread)"
    by (simp add: sim_sdk_def sim_start_def sim_GetPosition_def sim_sdk_thread_def Let_def)
  then show ?thesis by (auto simp: sdk_fresh_def sim_sdk_engine_def sim_sdk_watched_def sim_start_def intro: exI [of _ sim_start])
qed

theorem sdk_watches_what_the_client_asked_witness:
  "\<exists>w1 p q. tp_open (bridge_cursor sim_sdk) (bridge_engine wide_to_ascii ascii_to_wide sim_sdk sim_sdk_engine)
       sim_files ''t/app.run'' sim_disk = (w1, Inr p)
     \<and> process_run (bridge_cursor sim_sdk) [DoBreakpoint (SetCode 0x1002 None)] p = Some q
     \<and> tp_position q = sim_position 0 \<and> set (applied (watchpoints (tp_breakpoints q))) = {WatchpointKey 0x1002 1 4 0}"
proof -
  let ?ca = "bridge_cursor sim_sdk" and ?calls = "[DoBreakpoint (SetCode 0x1002 None)]"
  let ?open = "tp_open ?ca (bridge_engine wide_to_ascii ascii_to_wide sim_sdk sim_sdk_engine) sim_files ''t/app.run'' sim_disk"
  have "case ?open of (_, Inr p) \<Rightarrow> map_option (\<lambda>q. (tp_position q, sim_keys (rc_sdk (persistent_cursor q)))) (process_run ?ca ?calls p)
      = Some (sim_position 0, [WatchpointKey 0x1002 1 4 0]) | _ \<Rightarrow> False"
    by code_simp
  then obtain w1 p q where o: "?open = (w1, Inr p)" and q: "process_run ?ca ?calls p = Some q" "tp_position q = sim_position 0"
      "sim_keys (rc_sdk (persistent_cursor q)) = [WatchpointKey 0x1002 1 4 0]"
    by (auto simp del: process_run.simps split: prod.splits sum.splits)
  have "length ?calls < 2 ^ 64 - 1" by simp
  from sdk_watches_what_the_client_asked [OF sim_sdk_contract sim_sdk_fresh o this q(1)]
  have "set (applied (watchpoints (tp_breakpoints q))) = {WatchpointKey 0x1002 1 4 0}"
    unfolding image_sim_sdk_watched by (simp add: q(3))
  with o q show ?thesis by blast
qed

end
