(* ===== verification/Spec2Isabelle.thy ===== *)
theory Spec2Isabelle
  imports Server Gdb_Breakpoints Callbacks Bridge
begin

text \<open>
  A verification of \<open>ttd-gdbserver\<close>, the server that replays a Time Travel Debugging trace under the GDB
  Remote Serial Protocol.

  \<^bold>\<open>The program.\<close> \<open>main.rs\<close> opens a trace and hands it to the session layer (\<open>gdb/session.rs\<close>), which
  accepts one client after the other. A session wraps the debuggee in a protocol target (\<open>gdb/target.rs\<close>
  and \<open>gdb/target/\<close>), whose handlers the protocol library calls. A resume runs on a worker thread
  (\<open>gdb/runner.rs\<close>) so that the protocol thread can go on watching the connection. The debuggee is a
  \<open>TtdProcess\<close> (\<open>target/process.rs\<close> and \<open>target/process/\<close>) behind the trait \<open>DebugTarget\<close> (\<open>target.rs\<close>):
  two cursors of the replay engine, logical breakpoints kept in step with the engine's watchpoints, and the
  tables of the trace. \<open>ttd/\<close> is the safe side of the bridge to the engine, \<open>ttd/cpp/\<close> its C++ side.

  \<^bold>\<open>Theories, from the bottom.\<close>
  \<^item> \<open>Prelude\<close>, \<open>Bytes\<close>, \<open>Text\<close>: machine words and their saturating operations, ordered maps and sets as the
    code's B-trees, little-endian bytes, the formatting and parsing of text the code takes from the standard
    library. \<open>Id_Tables\<close>: the interface of a table that hands out ids (a locale), interpreted for breakpoints
    in \<open>Breakpoints\<close> and for checkpoints in \<open>Checkpoints\<close>.
  \<^item> \<open>Ttd_Types\<close> (\<open>ttd/types.rs\<close>, \<open>ttd/ffi.rs\<close>, the register stream of \<open>ttd/cpp/ttd_cxx.cpp\<close>), \<open>Cursor\<close>
    (\<open>ttd/cursor.rs\<close>, \<open>ttd/engine.rs\<close>: the engine is a record of operations over any state), \<open>Callbacks\<close>
    (\<open>ttd/callback.rs\<close>, \<open>ttd/interrupt.rs\<close>), \<open>Sim_Engine\<close> (a nine-position engine on which witnesses compute).
  \<^item> \<open>Watchpoints\<close>, \<open>Breakpoints\<close>, \<open>Breakpoint_State\<close>, \<open>Watch_Sync\<close> (\<open>target/watchpoint.rs\<close>,
    \<open>target/breakpoint.rs\<close>, \<open>target/breakpoint_state.rs\<close>): registration with roll-back, removal, incremental
    synchronisation. Shown: every breakpoint is backed after any history, on any engine; on a truthful engine
    the registry is the engine's set.
  \<^item> \<open>Trace_Metadata\<close>, \<open>Cursors\<close>, \<open>Process\<close>, \<open>Execution\<close>, \<open>Process_Invariants\<close>, \<open>Process_Open\<close>
    (\<open>target/trace_metadata.rs\<close>, \<open>target/cursors.rs\<close>, \<open>target/process.rs\<close>, \<open>target/process/\<close>). Shown: opening
    establishes and every call keeps the process invariant; a continue returns, skips first-chance exceptions
    and reports the breakpoint that the engine's last matching hit belongs to; queries are answered at the debug position; the index is never
    a half-built one.
  \<^item> \<open>Bridge\<close> (\<open>ttd/cpp/ttd_cxx.cpp\<close>): the C++ classes as an instance of the engine's two records, over the SDK's own
    calls. Shown: an SDK that keeps its contract makes the bridge keep the one the other theories assume, so
    the SDK's watchpoints are the ones the client asked for; ranged reads are attributed as the SDK attributes them.
  \<^item> \<open>Debug_Target\<close> (\<open>target.rs\<close>): the trait as a record, its laws as the locale \<open>debug_target\<close>, and \<open>total_target\<close>
    (a jump and the diagnostics return) on top of it, both interpreted on \<open>TtdProcess\<close>; the optimised range step is the trait's portable loop.
  \<^item> \<open>Packet\<close>, \<open>Checkpoints\<close>, \<open>Commands\<close>, \<open>Pe\<close>, \<open>Xml\<close>, \<open>Resume\<close>, \<open>Mapping_Wire\<close>, \<open>Registers\<close>, \<open>Monitor\<close>: the files
    of the same purpose under \<open>gdb/\<close>. Shown: round trips of the codecs and of positions and checkpoints through
    their text, the checkpoint listing over any history, exact register reads, a stop reply pinned for every
    outcome, chunked payloads that reassemble.
  \<^item> \<open>Runner\<close> (\<open>gdb/runner.rs\<close>): the two threads as a step relation over the shared flags, the lock and the
    channel, one step per atomic access. Shown by rule induction over every interleaving: an idle flag means a
    free backend, interrupts and results belong to their job, a started job delivers.
  \<^item> \<open>Gdb_Target\<close>, \<open>Gdb_Invariants\<close>, \<open>Stop_Sequences\<close>, \<open>Gdb_Breakpoints\<close> (\<open>gdb/target.rs\<close>, \<open>gdb/target/\<close>): every
    packet handler; the server's invariant and the return of every handler under every interleaving; what packets
    can change while a replay runs; the session contract (live, restarted, at
    the recorded exit) that the threaded implementation refines; breakpoint packets down to the table.
  \<^item> \<open>Session\<close>, \<open>Server\<close> (\<open>gdb/session.rs\<close>, \<open>main.rs\<close>): the accept loop, the event loop hooks, the options, the
    exit code. Shown: every client finds the debuggee the last one left, the server fails only on outside causes
    and never panics, a shutdown request ends it.

  \<^bold>\<open>Effects.\<close> A method on a shared reference that moves a cursor or counts returns the new state. Errors are
  \<open>Inl\<close> values; a verb may also panic or replay for ever, the values \<open>Panic\<close> and \<open>Spin\<close> of \<open>run\<close>. A panic
  inside a worker's job is modelled with the backend as it was when the job began. A panic in a packet
  handler is a value of \<open>handle_packet\<close>: it unwinds out of the session, the accept loop and \<open>main\<close>, and is an
  exit status of its own. The protocol thread
  and the worker share the record \<open>runner\<close>; an interrupt request is two steps, the load of the flag and the
  store with the engine's handle. The handle counts in the epoch and reaches a cursor only while a replay has
  published it; between the verbs the slot is empty, which is part of the process invariant. \<open>Callbacks\<close> has the slot at the
  granularity of single loads, stores and calls: firing is safe in every interleaving exactly when the thread that
  fires is the one that drops the cursor, and the race the source warns of is there as a reachable state. How a running
  replay reacts is the engine's: an outcome of its replay operation.

  \<^bold>\<open>Loops and bounds.\<close> The loop over first-chance exceptions is a partial function that is shown to return;
  the range step is measured by the trace positions left. The accept loop and the polling loop run over a list of
  what the outside answers and give \<open>None\<close> when the list ends first. Breakpoint and checkpoint ids are 64-bit
  counters; theorems about their freshness ask for room below the maximum.

  \<^bold>\<open>Parameters.\<close> The replay engine (\<open>cursor_api\<close>, \<open>engine_api\<close>), with its documented behaviour as the named
  hypotheses \<open>engine_contract\<close>, \<open>replays_in_direction\<close>, \<open>fresh_cursors\<close>, \<open>builds_index\<close>,
  \<open>sound_tables\<close>; below the bridge the SDK
  (\<open>sdk_cursor\<close>, \<open>sdk_engine\<close>, with \<open>sdk_contract\<close> and \<open>sdk_fresh\<close>) and the conversion of text between UTF-8
  and wide characters; the file system; the XML writer; the serialisation of the core registers in
  \<open>gdbstub_arch\<close>; the protocol library's event loop, which may call the handlers in any order and has
  no panics of its own (\<open>connection_ok\<close>).

  \<^bold>\<open>Not modelled.\<close> Logging, the command line parser, the module files, the build script, the SDK, the progress
  callback of an index build (it only logs), the files an index build writes (they stay in the engine's state), the methods that only announce to the protocol library which
  extensions there are, and unit and integration tests with their doubles.
\<close>

end
